(* ===== verification/Koe_Prelude.thy ===== *)
theory Koe_Prelude
  imports Main "HOL-Library.Word"
begin

text \<open>
  Shared vocabulary of the development: the C integer and buffer types, the
  byte order of integers in memory and on the wire, reads and writes of flat
  buffers (\<^verbatim>\<open>memcpy\<close> at an offset), C strings and decimal printing, and the
  generic list lemmas the components use.

  Conventions of every component theory:
  \<^item> a C struct is a \<^theory_text>\<open>record\<close> whose fields carry a short prefix, because C
    fields live in the name space of their struct and Isabelle's do not;
  \<^item> \<open>uint8_t\<close>, \<open>uint32_t\<close>, \<open>uint64_t\<close> are words of that width; \<open>int\<close> return
    codes, \<open>int\<close> counters and \<open>int64_t\<close>/\<open>time_t\<close> clock values are \<open>int\<close>
    (signed overflow has no meaning in C); \<open>size_t\<close> is \<open>nat\<close>, with the
    reduction modulo \<open>2 ^ 64\<close> written out (\<open>size_t\<close> below) where a computation
    on attacker- or caller-chosen sizes can wrap;
  \<^item> a pointer that the code compares with \<open>NULL\<close> is an \<open>option\<close>;
  \<^item> \<open>malloc\<close> may fail: a function that allocates takes an \<open>alloc\<close>, and
    \<open>mal i\<close> says whether its \<open>i\<close>-th allocation (counted from 0) succeeds;
  \<^item> \<open>time(NULL)\<close> and random bytes are arguments.
\<close>

unbundle bit_operations_syntax

section \<open>Types\<close>

type_synonym u8 = "8 word"
type_synonym u16 = "16 word"
type_synonym u32 = "32 word"
type_synonym u64 = "64 word"
type_synonym byte = "8 word"
type_synonym bytes = "8 word list"
type_synonym 'a ptr = "'a option"
type_synonym unix_time = int
type_synonym alloc = "nat \<Rightarrow> bool"

abbreviation NULL :: "'a ptr" where
  "NULL \<equiv> None"

text \<open>Values of \<open>size_t\<close> on the 64-bit targets: arithmetic is modulo \<open>2 ^ 64\<close>.\<close>

definition size_t :: "nat \<Rightarrow> nat" where
  "size_t n = n mod 2 ^ 64"

lemma size_t_small [simp]: "n < 2 ^ 64 \<Longrightarrow> size_t n = n"
  by (simp add: size_t_def)

text \<open>The conversion \<open>(int) n\<close> of a \<open>size_t\<close> keeps the low 32 bits as two's complement.\<close>

definition int_cast :: "nat \<Rightarrow> int" where
  "int_cast n = sint (word_of_nat n :: u32)"

lemma int_cast_small: "n < 2 ^ 31 \<Longrightarrow> int_cast n = int n"
  by (simp add: int_cast_def signed_of_nat signed_take_bit_int_eq_self)

lemma unat_of_nat_small: "n < 2 ^ LENGTH('a) \<Longrightarrow> unat (of_nat n :: 'a::len word) = n"
  by (simp add: unat_of_nat)

section \<open>Proof collections\<close>

text \<open>
  \<open>koe_wf\<close> collects the well-formedness predicates (array lengths of the
  structs), to be unfolded when a proof needs the length of a field.
\<close>

named_theorems koe_wf "well-formedness predicates of the C structs"

section \<open>Flat buffers\<close>

text \<open>\<open>mem_read off n buf\<close> is what \<open>memcpy(dst, buf + off, n)\<close> copies out.\<close>

definition mem_read :: "nat \<Rightarrow> nat \<Rightarrow> 'a list \<Rightarrow> 'a list" where
  "mem_read off n buf = take n (drop off buf)"

text \<open>\<open>mem_write off src buf\<close> is \<open>buf\<close> after \<open>memcpy(buf + off, src, length src)\<close>.\<close>

definition mem_write :: "nat \<Rightarrow> 'a list \<Rightarrow> 'a list \<Rightarrow> 'a list" where
  "mem_write off src buf = take off buf @ src @ drop (off + length src) buf"

lemma length_mem_read [simp]: "length (mem_read off n buf) = min n (length buf - off)"
  by (simp add: mem_read_def)

lemma length_mem_write [simp]:
  "off + length src \<le> length buf \<Longrightarrow> length (mem_write off src buf) = length buf"
  by (simp add: mem_write_def)

lemma mem_read_append_skip:
  "length xs \<le> off \<Longrightarrow> mem_read off n (xs @ ys) = mem_read (off - length xs) n ys"
  by (simp add: mem_read_def)

lemma mem_read_append_hit: "n = length xs \<Longrightarrow> mem_read 0 n (xs @ ys) = xs"
  by (simp add: mem_read_def)

lemma mem_read_all: "length xs \<le> n \<Longrightarrow> mem_read 0 n xs = xs"
  by (simp add: mem_read_def)

lemma mem_read_Cons_Suc [simp]: "mem_read (Suc off) n (x # xs) = mem_read off n xs"
  by (simp add: mem_read_def)

lemma mem_read_write_same:
  "off + length src \<le> length buf \<Longrightarrow> mem_read off (length src) (mem_write off src buf) = src"
  by (simp add: mem_read_def mem_write_def)

lemma mem_read_split:
  "mem_read off (m + n) buf = mem_read off m buf @ mem_read (off + m) n buf"
  by (simp add: mem_read_def take_add add.commute)

lemma mem_read_take_drop: "take n buf @ mem_read n m buf = take (n + m) buf"
  by (simp add: mem_read_def take_add)

lemmas mem_read_layout = mem_read_append_skip mem_read_append_hit mem_read_all

section \<open>Integers as bytes\<close>

text \<open>Little-endian bytes of a word: what \<open>memcpy\<close> of an integer copies on the ARM64 and
  x86-64 hosts the library targets.\<close>

definition le_enc :: "nat \<Rightarrow> 'a::len word \<Rightarrow> bytes" where
  "le_enc n w = map (\<lambda>i. ucast (drop_bit (8 * i) w)) [0..<n]"

primrec le_dec :: "bytes \<Rightarrow> 'a::len word" where
  "le_dec [] = 0"
| "le_dec (b # bs) = ucast b OR push_bit 8 (le_dec bs)"

lemma length_le_enc [simp]: "length (le_enc n w) = n"
  by (simp add: le_enc_def)

lemma bit_le_dec:
  "bit (le_dec bs :: 'a::len word) k \<longleftrightarrow>
     k < LENGTH('a) \<and> k < 8 * length bs \<and> bit (bs ! (k div 8)) (k mod 8)"
proof (induction bs arbitrary: k)
  case (Cons b bs)
  show ?case
  proof (cases "k < 8")
    case True
    then show ?thesis by (auto simp: bit_simps Cons.IH)
  next
    case False
    then obtain j where k: "k = j + 8" by (metis add.commute le_Suc_ex not_less)
    have "\<not> bit b (j + 8)"
      using bit_imp_le_length [of b "j + 8"] by auto
    then show ?thesis by (auto simp: bit_simps Cons.IH k div_add_self2)
  qed
qed simp

lemma le_dec_enc: "LENGTH('a) = 8 * n \<Longrightarrow> le_dec (le_enc n w) = (w :: 'a::len word)"
  by (rule bit_word_eqI)
    (simp add: bit_le_dec le_enc_def bit_simps less_mult_imp_div_less mult.commute)

lemma le_enc_dec:
  assumes "LENGTH('a) = 8 * n" and "length bs = n"
  shows "le_enc n (le_dec bs :: 'a::len word) = bs"
proof (rule nth_equalityI)
  fix i assume "i < length (le_enc n (le_dec bs :: 'a word))"
  then have "i < n" by simp
  then show "le_enc n (le_dec bs :: 'a word) ! i = bs ! i"
    by (intro bit_word_eqI) (auto simp: le_enc_def bit_simps bit_le_dec assms)
qed (simp add: assms)

text \<open>
  The contract of a fixed-width integer format: every value takes \<open>width\<close>
  bytes, decoding inverts encoding, and every run of \<open>width\<close> bytes is the
  encoding of what it decodes to.
\<close>

locale fixed_codec =
  fixes enc :: "'a \<Rightarrow> bytes" and dec :: "bytes \<Rightarrow> 'a" and width :: nat
  assumes enc_length [simp]: "length (enc x) = width"
    and dec_enc [simp]: "dec (enc x) = x"
    and enc_dec: "length bs = width \<Longrightarrow> enc (dec bs) = bs"
begin

lemma enc_inject: "enc x = enc y \<longleftrightarrow> x = y"
  by (metis dec_enc)

lemma dec_inject:
  "length xs = width \<Longrightarrow> length ys = width \<Longrightarrow> dec xs = dec ys \<longleftrightarrow> xs = ys"
  by (metis enc_dec)

lemma dec_prefix: "dec (take width (enc x @ rest)) = x"
  by simp

end

text \<open>
  \<open>htonl\<close>/\<open>ntohl\<close> followed or preceded by a 4-byte \<open>memcpy\<close>: network byte order,
  whatever the host. The other formats are host order.
\<close>

definition be32 :: "u32 \<Rightarrow> bytes" where
  "be32 w = rev (le_enc 4 w)"

definition be32_dec :: "bytes \<Rightarrow> u32" where
  "be32_dec bs = le_dec (rev bs)"

definition be64 :: "u64 \<Rightarrow> bytes" where
  "be64 w = rev (le_enc 8 w)"

definition be64_dec :: "bytes \<Rightarrow> u64" where
  "be64_dec bs = le_dec (rev bs)"

definition be16 :: "u16 \<Rightarrow> bytes" where
  "be16 w = rev (le_enc 2 w)"

definition be16_dec :: "bytes \<Rightarrow> u16" where
  "be16_dec bs = le_dec (rev bs)"

definition le16 :: "u16 \<Rightarrow> bytes" where
  "le16 w = le_enc 2 w"

definition le16_dec :: "bytes \<Rightarrow> u16" where
  "le16_dec bs = le_dec bs"

definition le32 :: "u32 \<Rightarrow> bytes" where
  "le32 w = le_enc 4 w"

definition le32_dec :: "bytes \<Rightarrow> u32" where
  "le32_dec bs = le_dec bs"

definition le64 :: "u64 \<Rightarrow> bytes" where
  "le64 w = le_enc 8 w"

definition le64_dec :: "bytes \<Rightarrow> u64" where
  "le64_dec bs = le_dec bs"

lemmas codec_defs = be16_def be16_dec_def be32_def be32_dec_def be64_def be64_dec_def
  le16_def le16_dec_def le32_def le32_dec_def le64_def le64_dec_def

interpretation u16be: fixed_codec be16 be16_dec 2
  by unfold_locales (simp_all add: codec_defs le_dec_enc le_enc_dec)

interpretation u32be: fixed_codec be32 be32_dec 4
  by unfold_locales (simp_all add: codec_defs le_dec_enc le_enc_dec)

interpretation u64be: fixed_codec be64 be64_dec 8
  by unfold_locales (simp_all add: codec_defs le_dec_enc le_enc_dec)

interpretation u16le: fixed_codec le16 le16_dec 2
  by unfold_locales (simp_all add: codec_defs le_dec_enc le_enc_dec)

interpretation u32le: fixed_codec le32 le32_dec 4
  by unfold_locales (simp_all add: codec_defs le_dec_enc le_enc_dec)

interpretation u64le: fixed_codec le64 le64_dec 8
  by unfold_locales (simp_all add: codec_defs le_dec_enc le_enc_dec)

section \<open>C strings\<close>

text \<open>
  A \<open>char\<close> array is the \<open>string\<close> before its terminating NUL.
  \<open>strncpy(dst, src, n)\<close> into an array of more than \<open>n\<close> characters whose last one
  is NUL keeps the first \<open>n\<close> characters of \<open>src\<close>; \<open>snprintf(buf, n, \<dots>)\<close> keeps the
  first \<open>n - 1\<close> characters of what it prints.
\<close>

definition strncpy_str :: "nat \<Rightarrow> string \<Rightarrow> string" where
  "strncpy_str n s = take n s"

definition snprintf_str :: "nat \<Rightarrow> string \<Rightarrow> string" where
  "snprintf_str n s = take (n - 1) s"

definition str_bytes :: "string \<Rightarrow> bytes" where
  "str_bytes s = map of_char s"

lemma length_str_bytes [simp]: "length (str_bytes s) = length s"
  by (simp add: str_bytes_def)

lemma unat_of_char: "unat (of_char c :: byte) = of_char c"
proof -
  have "(of_char c :: byte) = of_nat (of_char c)" by (simp only: of_nat_of_char)
  then show ?thesis by (simp add: unat_of_nat)
qed

lemma of_char_eq_0: "(of_char c :: byte) = 0 \<longleftrightarrow> c = CHR 0x00"
proof
  assume "(of_char c :: byte) = 0"
  then have "of_char c = (0 :: nat)" using unat_of_char [of c] by simp
  then have "char_of (of_char c :: nat) = char_of (0 :: nat)" by (simp only:)
  also have "char_of (0 :: nat) = CHR 0x00" by (simp add: char_of_def)
  finally show "c = CHR 0x00" by (simp only: char_of_char)
qed simp

lemma length_strncpy_str: "length (strncpy_str n s) \<le> n"
  by (simp add: strncpy_str_def)

lemma strncpy_str_fits: "length s \<le> n \<Longrightarrow> strncpy_str n s = s"
  by (simp add: strncpy_str_def)

text \<open>A \<open>char\<close> array of \<open>n\<close> bytes in memory, and the string read from one.\<close>

definition char_array :: "nat \<Rightarrow> string \<Rightarrow> bytes" where
  "char_array n s = str_bytes s @ replicate (n - length s) 0"

definition char_array_str :: "bytes \<Rightarrow> string" where
  "char_array_str bs = map (\<lambda>b. char_of (unat b)) (takeWhile (\<lambda>b. b \<noteq> 0) bs)"

text \<open>Text that a C string can hold: no NUL, and shorter than its array.\<close>

definition cstr_ok :: "nat \<Rightarrow> string \<Rightarrow> bool" where
  "cstr_ok n s \<longleftrightarrow> length s < n \<and> CHR 0x00 \<notin> set s"

lemma char_array_str_array:
  assumes "cstr_ok n s"
  shows "char_array_str (char_array n s) = s"
proof -
  have "\<forall>b\<in>set (str_bytes s). b \<noteq> 0"
    using assms by (auto simp: str_bytes_def cstr_ok_def of_char_eq_0)
  moreover obtain k where "n - length s = Suc k" using assms by (cases "n - length s") (auto simp: cstr_ok_def)
  ultimately have "takeWhile (\<lambda>b. b \<noteq> 0) (char_array n s) = str_bytes s"
    by (simp add: char_array_def takeWhile_append2)
  then show ?thesis by (simp add: char_array_str_def str_bytes_def unat_of_char comp_def)
qed

lemma length_char_array: "length s < n \<Longrightarrow> length (char_array n s) = n"
  by (simp add: char_array_def)

text \<open>Decimal printing (\<open>%u\<close>) and the zero-padded form (\<open>%06u\<close>).\<close>

definition digit_char :: "nat \<Rightarrow> char" where
  "digit_char d = char_of (48 + d)"

fun show_dec :: "nat \<Rightarrow> string" where
  "show_dec n = (if n < 10 then [digit_char n] else show_dec (n div 10) @ [digit_char (n mod 10)])"

declare show_dec.simps [simp del]

definition show_dec_pad :: "nat \<Rightarrow> nat \<Rightarrow> string" where
  "show_dec_pad w n = replicate (w - length (show_dec n)) (CHR ''0'') @ show_dec n"

text \<open>\<open>%d\<close>.\<close>

definition show_int :: "int \<Rightarrow> string" where
  "show_int n = (if n < 0 then ''-'' @ show_dec (nat (- n)) else show_dec (nat n))"

lemma length_show_dec_le: "n < 10 ^ k \<Longrightarrow> 0 < k \<Longrightarrow> length (show_dec n) \<le> k"
proof (induction n arbitrary: k rule: show_dec.induct)
  case (1 n)
  show ?case
  proof (cases "n < 10")
    case True
    with "1.prems" show ?thesis by (subst show_dec.simps) simp
  next
    case False
    with "1.prems" obtain j where j: "k = Suc j" "0 < j" by (cases k; cases "k - 1") auto
    with "1.prems" have "n div 10 < 10 ^ j" by (simp add: less_mult_imp_div_less mult.commute)
    with "1.IH" False j have "length (show_dec (n div 10)) \<le> j" by blast
    with False j show ?thesis by (subst show_dec.simps) simp
  qed
qed

lemma length_show_dec_pad: "n < 10 ^ w \<Longrightarrow> 0 < w \<Longrightarrow> length (show_dec_pad w n) = w"
  using length_show_dec_le [of n w] by (simp add: show_dec_pad_def)

definition decimal_digits :: string where
  "decimal_digits = ''0123456789''"

lemma digit_char_range: "d < 10 \<Longrightarrow> digit_char d \<in> set decimal_digits"
proof -
  have "list_all (\<lambda>d. digit_char d \<in> set decimal_digits) [0..<10]" by code_simp
  then show "d < 10 \<Longrightarrow> digit_char d \<in> set decimal_digits" by (simp add: list_all_iff)
qed

lemma set_show_dec: "set (show_dec n) \<subseteq> set decimal_digits"
proof (induction n rule: show_dec.induct)
  case (1 n)
  then show ?case
    using digit_char_range [of n] digit_char_range [of "n mod 10"]
    by (subst show_dec.simps) auto
qed

lemma set_show_dec_pad: "set (show_dec_pad w n) \<subseteq> set decimal_digits"
  using set_show_dec [of n] by (auto simp: show_dec_pad_def) (simp add: decimal_digits_def)

section \<open>Lists\<close>

text \<open>The number of entries with a property, after one entry is overwritten.\<close>

lemma filter_list_update_length:
  "i < length xs \<Longrightarrow> length (filter P (xs[i := x])) + (if P (xs ! i) then 1 else 0) =
    length (filter P xs) + (if P x then 1 else 0)"
proof (induction xs arbitrary: i)
  case (Cons y ys)
  then show ?case
  proof (cases i)
    case (Suc j)
    with Cons.prems Cons.IH [of j] show ?thesis by simp
  qed simp
qed simp

text \<open>A \<open>for\<close> loop that stops at the first array element with a property.\<close>

fun find_idx :: "('a \<Rightarrow> bool) \<Rightarrow> 'a list \<Rightarrow> nat option" where
  "find_idx P [] = None"
| "find_idx P (x # xs) = (if P x then Some 0 else map_option Suc (find_idx P xs))"

lemma find_idx_None [simp]: "find_idx P xs = None \<longleftrightarrow> (\<forall>x\<in>set xs. \<not> P x)"
  by (induction xs) auto

lemma find_idx_SomeD:
  "find_idx P xs = Some i \<Longrightarrow> i < length xs \<and> P (xs ! i) \<and> (\<forall>j<i. \<not> P (xs ! j))"
proof (induction xs arbitrary: i)
  case (Cons x xs)
  show ?case
  proof (cases "P x")
    case False
    with Cons.prems obtain k where k: "find_idx P xs = Some k" "i = Suc k" by auto
    with Cons.IH [OF k(1)] False show ?thesis by (auto simp: less_Suc_eq_0_disj)
  qed (use Cons.prems in auto)
qed simp

lemma find_idx_SomeI:
  assumes "i < length xs" and "P (xs ! i)" and "\<And>j. j < i \<Longrightarrow> \<not> P (xs ! j)"
  shows "find_idx P xs = Some i"
proof (cases "find_idx P xs")
  case None
  with assms(1,2) show ?thesis by (meson find_idx_None nth_mem)
next
  case (Some k)
  then have "P (xs ! k)" "\<forall>j<k. \<not> P (xs ! j)" by (simp_all add: find_idx_SomeD)
  with assms(2,3) have "k = i" by (metis linorder_neqE_nat)
  with Some show ?thesis by simp
qed

lemma find_idx_unique:
  assumes "i < length xs" and "P (xs ! i)" and "\<And>j. j < length xs \<Longrightarrow> P (xs ! j) \<Longrightarrow> j = i"
  shows "find_idx P xs = Some i"
proof (rule find_idx_SomeI [of i xs P, OF assms(1,2)])
  fix j assume "j < i"
  with assms(1) assms(3) [of j] show "\<not> P (xs ! j)" by auto
qed

lemma find_idx_append:
  "(\<forall>x\<in>set xs. \<not> P x) \<Longrightarrow> P l \<Longrightarrow> find_idx P (xs @ l # ys) = Some (length xs)"
  by (induction xs) auto

text \<open>Searching a list of keyed nodes, and unlinking the node found.\<close>

lemma find_append: "find P (xs @ ys) = (case find P xs of None \<Rightarrow> find P ys | Some x \<Rightarrow> Some x)"
  by (induction xs) auto

lemma find_distinct_Some:
  "distinct (map f xs) \<Longrightarrow> find (\<lambda>x. f x = k) xs = Some c \<longleftrightarrow> c \<in> set xs \<and> f c = k"
  by (induction xs) auto

lemma find_idx_find: "find_idx P xs = None \<longleftrightarrow> find P xs = None"
  by (induction xs) auto

lemma find_remove_idx:
  assumes "distinct (map f xs)" "find_idx (\<lambda>x. f x = k) xs = Some i"
  shows "distinct (map f (take i xs @ drop (Suc i) xs)) \<and>
    find (\<lambda>x. f x = j) (take i xs @ drop (Suc i) xs) = (if j = k then None else find (\<lambda>x. f x = j) xs)"
proof -
  have i: "i < length xs" "f (xs ! i) = k" using find_idx_SomeD [OF assms(2)] by auto
  define a b where "a = take i xs" and "b = drop (Suc i) xs"
  have xs: "xs = a @ xs ! i # b" using id_take_nth_drop [OF i(1)] by (simp add: a_def b_def)
  have "distinct (map f (a @ xs ! i # b))" using assms(1) xs by simp
  then have d: "distinct (map f (a @ b))" "\<forall>x\<in>set (a @ b). f x \<noteq> k" using i(2) by (auto, (metis imageI)+)
  have "find (\<lambda>x. f x = j) (a @ b) = (if j = k then None else find (\<lambda>x. f x = j) (a @ xs ! i # b))"
  proof (cases "j = k")
    case True
    have "find (\<lambda>x. f x = k) (a @ b) = None" using d(2) by (auto simp: find_None_iff)
    with True show ?thesis by simp
  next
    case False
    with i(2) show ?thesis by (simp add: find_append split: option.splits)
  qed
  then show ?thesis using d(1) xs by (simp add: a_def b_def)
qed

end
