(* ===== verification/Koe_Crc32.thy ===== *)
theory Koe_Crc32
  imports Koe_Prelude
begin

text \<open>
  The header checksum (\<^verbatim>\<open>src/koe_packet.c\<close>, lines 13-39): the table-driven
  CRC-32 with the reflected ISO 3309 polynomial. The lemmas relate the table
  loop to the bit-at-a-time definition of the CRC, and show that the register
  update is a bijection, from which the error-detection guarantee follows: two
  buffers of the same length that differ only inside a window of at most four
  bytes never have the same CRC.
\<close>

section \<open>Definitions\<close>

text \<open>One round of the inner loop of \<open>crc32_init\<close>.\<close>

definition crc32_step :: "u32 \<Rightarrow> u32" where
  "crc32_step c = (if c AND 1 \<noteq> 0 then 0xEDB88320 XOR drop_bit 1 c else drop_bit 1 c)"

text \<open>
  The table filled by \<open>crc32_init\<close>. The C code fills it on the first call and
  sets \<open>crc32_ready\<close>; every call of \<open>crc32\<close> runs \<open>crc32_init\<close> first, so it always
  reads this table.
\<close>

definition crc32_table :: "u32 list" where
  "crc32_table = map (\<lambda>i. (crc32_step ^^ 8) (word_of_nat i)) [0..<256]"

definition crc32_update :: "u32 \<Rightarrow> byte \<Rightarrow> u32" where
  "crc32_update c b = crc32_table ! unat ((c XOR ucast b) AND 0xFF) XOR drop_bit 8 c"

definition crc32 :: "bytes \<Rightarrow> u32" where
  "crc32 buf = foldl crc32_update 0xFFFFFFFF buf XOR 0xFFFFFFFF"

text \<open>The bit-at-a-time reference: shift the register eight times per byte.\<close>

definition crc32_update_ref :: "u32 \<Rightarrow> byte \<Rightarrow> u32" where
  "crc32_update_ref c b = (crc32_step ^^ 8) (c XOR ucast b)"

definition crc32_ref :: "bytes \<Rightarrow> u32" where
  "crc32_ref buf = foldl crc32_update_ref 0xFFFFFFFF buf XOR 0xFFFFFFFF"

section \<open>The shift register is linear and injective\<close>

lemma xor_right_cancel: "(x :: u32) XOR z = y XOR z \<longleftrightarrow> x = y"
proof
  assume *: "x XOR z = y XOR z"
  show "x = y"
  proof (rule bit_word_eqI)
    fix n
    have "bit (x XOR z) n = bit (y XOR z) n" using * by simp
    then show "bit x n = bit y n" by (auto simp: bit_xor_iff)
  qed
qed simp

lemma xor_left_cancel: "(z :: u32) XOR x = z XOR y \<longleftrightarrow> x = y"
  by (simp add: xor_right_cancel xor.commute [of z])

lemma crc32_step_bit:
  "crc32_step c = (if bit c 0 then 0xEDB88320 XOR drop_bit 1 c else drop_bit 1 c)"
  by (simp add: crc32_step_def bit_0 and_one_eq odd_iff_mod_2_eq_one)

lemma crc32_step_xor: "crc32_step (x XOR y) = crc32_step x XOR crc32_step y"
  by (simp add: crc32_step_bit bit_xor_iff ac_simps)

lemma crc32_step_eq_0:
  assumes "crc32_step c = 0"
  shows "c = 0"
proof (cases "bit c 0")
  case True
  have "bit (crc32_step c) 31"
    using True bit_imp_le_length [of c 32] by (auto simp: crc32_step_bit bit_xor_iff bit_drop_bit_eq)
  with assms show ?thesis by simp
next
  case False
  with assms have "drop_bit 1 c = 0" by (simp add: crc32_step_bit)
  then have "\<not> bit (drop_bit 1 c) n" for n by simp
  then have high: "\<not> bit c (Suc n)" for n by (simp add: bit_drop_bit_eq)
  show ?thesis
  proof (rule bit_word_eqI)
    fix n show "bit c n = bit 0 n" using False high by (cases n) auto
  qed
qed

lemma crc32_step_inject: "crc32_step x = crc32_step y \<longleftrightarrow> x = y"
proof
  assume "crc32_step x = crc32_step y"
  then have "crc32_step (x XOR y) = 0" by (simp add: crc32_step_xor)
  then have "x XOR y = y XOR y" by (simp add: crc32_step_eq_0)
  then show "x = y" by (simp only: xor_right_cancel)
qed simp

lemma crc32_steps_xor: "(crc32_step ^^ n) (x XOR y) = (crc32_step ^^ n) x XOR (crc32_step ^^ n) y"
  by (induction n) (simp_all add: crc32_step_xor)

lemma crc32_steps_inject: "(crc32_step ^^ n) x = (crc32_step ^^ n) y \<longleftrightarrow> x = y"
  by (induction n) (simp_all add: crc32_step_inject)

text \<open>While only zero bits leave the register, \<open>n\<close> rounds are a shift by \<open>n\<close>.\<close>

lemma crc32_steps_shift:
  "\<forall>i < n. \<not> bit c i \<Longrightarrow> (crc32_step ^^ n) c = drop_bit n c"
proof (induction n)
  case (Suc n)
  then have "(crc32_step ^^ n) c = drop_bit n c" by simp
  moreover have "\<not> bit (drop_bit n c) 0" using Suc.prems by (simp add: bit_drop_bit_eq)
  ultimately show ?case by (simp add: crc32_step_bit [of "drop_bit n c"])
qed simp

lemma crc32_steps_push:
  assumes "take_bit 24 z = z"
  shows "(crc32_step ^^ 8) (push_bit 8 z) = z"
proof -
  have "(crc32_step ^^ 8) (push_bit 8 z) = drop_bit 8 (push_bit 8 z)"
    by (rule crc32_steps_shift) (simp add: bit_push_bit_iff)
  also have "\<dots> = z"
  proof (rule bit_word_eqI)
    fix n assume "n < LENGTH(32)"
    have "bit z n \<longleftrightarrow> n < 24 \<and> bit z n"
      using assms by (metis bit_take_bit_iff)
    then show "bit (drop_bit 8 (push_bit 8 z)) n = bit z n"
      by (auto simp: bit_drop_bit_eq bit_push_bit_iff)
  qed
  finally show ?thesis .
qed

section \<open>The table loop computes the CRC\<close>

lemma crc32_table_nth: "n < 256 \<Longrightarrow> crc32_table ! n = (crc32_step ^^ 8) (word_of_nat n)"
  by (simp add: crc32_table_def)

lemma low_byte_mask: "(0xFF :: u32) = mask 8"
  by (simp add: mask_eq_exp_minus_1)

lemma crc32_update_eq_ref: "crc32_update c b = crc32_update_ref c b"
proof -
  define x where "x = c XOR ucast b"
  have low: "unat (x AND mask 8) < 256"
    using word_and_le1 [of x "mask 8"] by (simp add: word_le_nat_alt mask_eq_exp_minus_1)
  have split: "x = (x AND mask 8) XOR (x AND NOT (mask 8))"
    by (rule bit_word_eqI) (auto simp: bit_simps)
  have "(crc32_step ^^ 8) x =
      (crc32_step ^^ 8) (x AND mask 8) XOR (crc32_step ^^ 8) (x AND NOT (mask 8))"
    by (subst split) (rule crc32_steps_xor)
  also have "(crc32_step ^^ 8) (x AND NOT (mask 8)) = drop_bit 8 (x AND NOT (mask 8))"
    by (rule crc32_steps_shift) (simp add: bit_simps)
  also have "drop_bit 8 (x AND NOT (mask 8)) = drop_bit 8 c"
    by (rule bit_word_eqI) (auto simp: bit_simps x_def dest: bit_imp_le_length)
  finally show ?thesis
    using low by (simp add: crc32_update_def crc32_update_ref_def crc32_table_nth low_byte_mask x_def)
qed

lemma crc32_eq_ref: "crc32 buf = crc32_ref buf"
proof -
  have "crc32_update = crc32_update_ref"
    by (intro ext) (rule crc32_update_eq_ref)
  then show ?thesis by (simp add: crc32_def crc32_ref_def)
qed

text \<open>C10. The table-driven CRC-32 of \<^verbatim>\<open>koe_packet.c\<close> computes the CRC of the
  reflected polynomial 0xEDB88320 as its bit-at-a-time definition does, for
  every buffer.
\<close>

theorem crc32_table_driven_correct: "crc32 buf = crc32_ref buf"
  by (rule crc32_eq_ref)

section \<open>Error detection\<close>

lemma crc32_update_ref_inject:
  "crc32_update_ref c b = crc32_update_ref d b \<longleftrightarrow> c = d"
  by (simp add: crc32_update_ref_def crc32_steps_inject xor_right_cancel)

lemma crc32_fold_inject:
  "foldl crc32_update_ref c xs = foldl crc32_update_ref d xs \<longleftrightarrow> c = d"
  by (induction xs arbitrary: c d) (simp_all add: crc32_update_ref_inject)

text \<open>Up to four bytes enter the register as one little-endian number.\<close>

lemma crc32_fold_word:
  "length xs \<le> 4 \<Longrightarrow> foldl crc32_update_ref c xs = (crc32_step ^^ (8 * length xs)) (c XOR le_dec xs)"
proof (induction xs arbitrary: c)
  case (Cons b bs)
  let ?z = "le_dec bs :: u32"
  have z: "take_bit 24 ?z = ?z"
    using Cons.prems by (intro bit_word_eqI) (auto simp: bit_take_bit_iff bit_le_dec)
  have cons: "c XOR le_dec (b # bs) = (c XOR ucast b) XOR push_bit 8 ?z"
  proof -
    have "ucast b AND push_bit 8 ?z = 0"
      by (rule bit_word_eqI) (auto simp: bit_simps dest: bit_imp_le_length)
    then have "ucast b OR push_bit 8 ?z = ucast b XOR push_bit 8 ?z"
      by (simp add: disjunctive_xor_eq_or)
    then show ?thesis by (simp add: xor.assoc)
  qed
  have "foldl crc32_update_ref c (b # bs) =
      (crc32_step ^^ (8 * length bs)) ((crc32_step ^^ 8) (c XOR ucast b) XOR ?z)"
    using Cons.prems Cons.IH [of "crc32_update_ref c b"]
    by (simp add: crc32_update_ref_def [of c b])
  also have "(crc32_step ^^ 8) (c XOR ucast b) XOR ?z =
      (crc32_step ^^ 8) (c XOR le_dec (b # bs))"
    unfolding cons crc32_steps_xor crc32_steps_push [OF z] ..
  also have "(crc32_step ^^ (8 * length bs)) ((crc32_step ^^ 8) (c XOR le_dec (b # bs))) =
      (crc32_step ^^ (8 * length bs + 8)) (c XOR le_dec (b # bs))"
    by (simp only: funpow_add o_apply)
  finally show ?case by (simp add: add.commute)
qed simp

text \<open>\<open>burst n xs ys\<close>: the buffers have the same length and differ only inside a window
  of at most \<open>n\<close> bytes, where they do differ.\<close>

definition burst :: "nat \<Rightarrow> bytes \<Rightarrow> bytes \<Rightarrow> bool" where
  "burst n xs ys \<longleftrightarrow>
     (\<exists>p u v s. xs = p @ u @ s \<and> ys = p @ v @ s \<and> length u = length v \<and> length u \<le> n \<and> u \<noteq> v)"

lemma le_dec_inject_u32:
  assumes "length u = length v" and "length u \<le> 4" and "(le_dec u :: u32) = le_dec v"
  shows "u = v"
proof (rule nth_equalityI [OF assms(1)])
  fix i assume i: "i < length u"
  show "u ! i = v ! i"
  proof (rule bit_word_eqI)
    fix n assume n: "n < LENGTH(8)"
    then have "bit (le_dec u :: u32) (8 * i + n) \<longleftrightarrow> bit (u ! i) n"
      and "bit (le_dec v :: u32) (8 * i + n) \<longleftrightarrow> bit (v ! i) n"
      using i assms(1,2) by (simp_all add: bit_le_dec)
    with assms(3) show "bit (u ! i) n = bit (v ! i) n" by simp
  qed
qed

lemma crc32_burst:
  assumes "burst 4 xs ys"
  shows "crc32 xs \<noteq> crc32 ys"
proof -
  obtain p u v s where xs: "xs = p @ u @ s" and ys: "ys = p @ v @ s"
    and len: "length u = length v" "length u \<le> 4" and "u \<noteq> v"
    using assms by (auto simp: burst_def)
  let ?c = "foldl crc32_update_ref 0xFFFFFFFF p"
  have "foldl crc32_update_ref ?c u \<noteq> foldl crc32_update_ref ?c v"
  proof
    assume "foldl crc32_update_ref ?c u = foldl crc32_update_ref ?c v"
    then have "?c XOR le_dec u = ?c XOR (le_dec v :: u32)"
      using len by (simp add: crc32_fold_word crc32_steps_inject)
    then have "(le_dec u :: u32) = le_dec v" by (simp add: xor_left_cancel)
    with len \<open>u \<noteq> v\<close> show False by (simp add: le_dec_inject_u32)
  qed
  then have "foldl crc32_update_ref 0xFFFFFFFF xs \<noteq> foldl crc32_update_ref 0xFFFFFFFF ys"
    by (simp add: xs ys crc32_fold_inject)
  then show ?thesis
    by (simp add: crc32_eq_ref crc32_ref_def xor_right_cancel)
qed

end
