(* ===== verification/Koe_Version.thy ===== *)
theory Koe_Version
  imports Koe_Prelude
begin

text \<open>
  Protocol versions (\<^verbatim>\<open>src/koe_version.c\<close>, \<^verbatim>\<open>include/koe_version.h\<close>):
  the compatibility test two peers run on each other's version and the version
  they settle on. The abstract rule \<open>version_rule\<close> is what the comment above
  \<open>koe_version_compatible\<close> states; the lemmas show that the code implements it,
  that both sides of a handshake reach the same verdict and the same version,
  and that the version chosen is the lower of the two.
\<close>

definition KOE_PROTO_MAJOR :: u8 where
  "KOE_PROTO_MAJOR = 0"

definition KOE_PROTO_MINOR :: u8 where
  "KOE_PROTO_MINOR = 1"

record koe_version =
  ver_major :: u8
  ver_minor :: u8

definition koe_version_local :: koe_version where
  "koe_version_local = \<lparr>ver_major = KOE_PROTO_MAJOR, ver_minor = KOE_PROTO_MINOR\<rparr>"

text \<open>\<open>diff\<close> is computed on \<open>int\<close>, after the two bytes have been promoted.\<close>

definition koe_version_compatible :: "koe_version \<Rightarrow> koe_version \<Rightarrow> bool" where
  "koe_version_compatible a b =
     (if ver_major a = ver_major b then True
      else
        let diff = uint (ver_major a) - uint (ver_major b);
            diff = (if diff < 0 then - diff else diff)
        in if diff \<noteq> 1 then False
           else if ver_major a > ver_major b then ver_minor a = 0
           else ver_minor b = 0)"

text \<open>\<open>None\<close> is the return code \<open>-1\<close>; on success the version written to \<open>out\<close>.\<close>

definition koe_version_negotiate :: "koe_version \<Rightarrow> koe_version \<Rightarrow> koe_version option" where
  "koe_version_negotiate local remote =
     (if \<not> koe_version_compatible local remote then None
      else if ver_major local < ver_major remote \<or>
              (ver_major local = ver_major remote \<and> ver_minor local \<le> ver_minor remote)
      then Some local
      else Some remote)"

definition koe_version_string :: "koe_version \<Rightarrow> nat \<Rightarrow> string" where
  "koe_version_string v buf_len =
     snprintf_str buf_len
       (show_dec (unat (ver_major v)) @ ''.'' @ show_dec (unat (ver_minor v)))"

section \<open>The rule the code implements\<close>

text \<open>Same major, or adjacent majors of which the higher one is an \<open>x.0\<close> release.\<close>

definition version_rule :: "koe_version \<Rightarrow> koe_version \<Rightarrow> bool" where
  "version_rule a b \<longleftrightarrow>
     ver_major a = ver_major b \<or>
     (unat (ver_major a) = unat (ver_major b) + 1 \<and> ver_minor a = 0) \<or>
     (unat (ver_major b) = unat (ver_major a) + 1 \<and> ver_minor b = 0)"

lemma koe_version_compatible_rule: "koe_version_compatible a b \<longleftrightarrow> version_rule a b"
proof -
  have eq: "ver_major a = ver_major b \<longleftrightarrow> unat (ver_major a) = unat (ver_major b)"
    by (simp add: word_unat_eq_iff)
  have gt: "ver_major a > ver_major b \<longleftrightarrow> unat (ver_major a) > unat (ver_major b)"
    by (simp add: word_less_nat_alt)
  have dist: "(if int x - int y < 0 then - (int x - int y) else int x - int y) \<noteq> 1 \<longleftrightarrow>
      x \<noteq> y + 1 \<and> y \<noteq> x + 1" for x y :: nat
    by arith
  show ?thesis
    unfolding koe_version_compatible_def version_rule_def Let_def eq gt uint_nat dist
    by auto
qed

lemma koe_version_compatible_sym: "koe_version_compatible a b = koe_version_compatible b a"
  by (auto simp: koe_version_compatible_rule version_rule_def)

lemma koe_version_compatible_refl [simp]: "koe_version_compatible a a"
  by (simp add: koe_version_compatible_def)

text \<open>The order on versions: by major, then by minor.\<close>

instantiation koe_version_ext :: (linorder) linorder
begin

definition less_eq_koe_version_ext :: "'a koe_version_scheme \<Rightarrow> 'a koe_version_scheme \<Rightarrow> bool" where
  "less_eq_koe_version_ext a b \<longleftrightarrow> ver_major a < ver_major b \<or> ver_major a = ver_major b \<and>
     (ver_minor a < ver_minor b \<or> ver_minor a = ver_minor b \<and> koe_version.more a \<le> koe_version.more b)"

definition less_koe_version_ext :: "'a koe_version_scheme \<Rightarrow> 'a koe_version_scheme \<Rightarrow> bool" where
  "less_koe_version_ext a b \<longleftrightarrow> a \<le> b \<and> \<not> b \<le> a"

instance
  by standard (auto simp: less_eq_koe_version_ext_def less_koe_version_ext_def intro: koe_version.equality)

end

lemma version_le_iff:
  "(a :: koe_version) \<le> b \<longleftrightarrow> ver_major a < ver_major b \<or> (ver_major a = ver_major b \<and> ver_minor a \<le> ver_minor b)"
  by (auto simp: less_eq_koe_version_ext_def)

lemma koe_version_negotiate_eq: "koe_version_negotiate a b = (if version_rule a b then Some (min a b) else None)"
  by (simp add: koe_version_negotiate_def koe_version_compatible_rule version_le_iff min_def)

lemma koe_version_negotiate_self [simp]: "koe_version_negotiate a a = Some a"
  by (simp add: koe_version_negotiate_eq version_rule_def)

lemma koe_version_negotiate_local:
  "koe_version_negotiate koe_version_local koe_version_local = Some koe_version_local"
  by simp

text \<open>Version negotiation is symmetric: whichever side runs it, two peers reach the same verdict and, if
  compatible, settle on the same version, the lower of the two; and the verdict is the documented
  rule (same major, or adjacent majors with the higher one an x.0 release).\<close>

theorem negotiate_symmetric:
  "koe_version_negotiate a b = koe_version_negotiate b a \<and>
   koe_version_negotiate a b = (if version_rule a b then Some (min a b) else None)"
proof -
  have "version_rule a b = version_rule b a"
    by (metis koe_version_compatible_rule koe_version_compatible_sym)
  then show ?thesis by (simp add: koe_version_negotiate_eq min.commute)
qed

end
