(* ===== verification/Koe_Packet.thy ===== *)
theory Koe_Packet
  imports Koe_Crc32 Koe_Version
begin

text \<open>
  The wire format (\<^verbatim>\<open>src/koe_packet.c\<close>, lines 41-175, and
  \<^verbatim>\<open>include/koe_packet.h\<close>): the 106-byte header, its checksum and validation,
  serialisation into a caller's buffer and parsing of a received buffer.
  The lemmas show that parsing is total and memory safe (what it accepts is a
  well-formed packet whose payload is exactly the announced bytes), that the two
  directions are inverse, and that validation detects every header corruption
  confined to four consecutive bytes.
\<close>

section \<open>Constants\<close>

definition KOE_MAGIC :: bytes where
  "KOE_MAGIC = [0x4B, 0x4F, 0x45, 0x01]"

abbreviation (input) KOE_HEADER_SIZE :: nat where "KOE_HEADER_SIZE \<equiv> 106"
abbreviation (input) KOE_ID_LEN :: nat where "KOE_ID_LEN \<equiv> 32"
abbreviation (input) KOE_NONCE_LEN :: nat where "KOE_NONCE_LEN \<equiv> 24"
abbreviation (input) KOE_TAG_LEN :: nat where "KOE_TAG_LEN \<equiv> 16"
abbreviation (input) KOE_MAX_PAYLOAD :: nat where "KOE_MAX_PAYLOAD \<equiv> 1024 * 1024"

text \<open>Packet types; the \<open>type\<close> byte of a header is any \<open>uint8_t\<close>.\<close>

datatype koe_packet_type =
    KOE_TYPE_HELLO | KOE_TYPE_HELLO_ACK | KOE_TYPE_ACK | KOE_TYPE_MSG | KOE_TYPE_AUDIO
  | KOE_TYPE_PING | KOE_TYPE_PONG | KOE_TYPE_QUEUE | KOE_TYPE_DESTRUCT | KOE_TYPE_CHANNEL
  | KOE_TYPE_MIGRATE | KOE_TYPE_BACKUP_ACK | KOE_TYPE_VERIFY | KOE_TYPE_REVOKE
  | KOE_TYPE_MEDIA_OFFER | KOE_TYPE_MEDIA_ACK | KOE_TYPE_MEDIA_CHUNK | KOE_TYPE_MEDIA_DONE
  | KOE_TYPE_GROUP_META | KOE_TYPE_PRESENCE | KOE_TYPE_TYPING | KOE_TYPE_READ

fun type_code :: "koe_packet_type \<Rightarrow> u8" where
  "type_code KOE_TYPE_HELLO = 0x01"
| "type_code KOE_TYPE_HELLO_ACK = 0x02"
| "type_code KOE_TYPE_ACK = 0x03"
| "type_code KOE_TYPE_MSG = 0x04"
| "type_code KOE_TYPE_AUDIO = 0x05"
| "type_code KOE_TYPE_PING = 0x06"
| "type_code KOE_TYPE_PONG = 0x07"
| "type_code KOE_TYPE_QUEUE = 0x08"
| "type_code KOE_TYPE_DESTRUCT = 0x09"
| "type_code KOE_TYPE_CHANNEL = 0x0A"
| "type_code KOE_TYPE_MIGRATE = 0x0B"
| "type_code KOE_TYPE_BACKUP_ACK = 0x0C"
| "type_code KOE_TYPE_VERIFY = 0x0D"
| "type_code KOE_TYPE_REVOKE = 0x0E"
| "type_code KOE_TYPE_MEDIA_OFFER = 0x0F"
| "type_code KOE_TYPE_MEDIA_ACK = 0x10"
| "type_code KOE_TYPE_MEDIA_CHUNK = 0x11"
| "type_code KOE_TYPE_MEDIA_DONE = 0x12"
| "type_code KOE_TYPE_GROUP_META = 0x13"
| "type_code KOE_TYPE_PRESENCE = 0x14"
| "type_code KOE_TYPE_TYPING = 0x15"
| "type_code KOE_TYPE_READ = 0x16"

datatype koe_packet_flag =
    KOE_FLAG_ENCRYPTED | KOE_FLAG_SIGNED | KOE_FLAG_FRAGMENTED | KOE_FLAG_LAST_FRAG
  | KOE_FLAG_COMPRESSED | KOE_FLAG_EPHEMERAL | KOE_FLAG_SCHEDULED | KOE_FLAG_RELAY

fun flag_bit :: "koe_packet_flag \<Rightarrow> u8" where
  "flag_bit KOE_FLAG_ENCRYPTED = 0x01"
| "flag_bit KOE_FLAG_SIGNED = 0x02"
| "flag_bit KOE_FLAG_FRAGMENTED = 0x04"
| "flag_bit KOE_FLAG_LAST_FRAG = 0x08"
| "flag_bit KOE_FLAG_COMPRESSED = 0x10"
| "flag_bit KOE_FLAG_EPHEMERAL = 0x20"
| "flag_bit KOE_FLAG_SCHEDULED = 0x40"
| "flag_bit KOE_FLAG_RELAY = 0x80"

section \<open>Structs\<close>

record koe_header =
  h_magic :: bytes
  h_proto_major :: u8
  h_proto_minor :: u8
  h_type :: u8
  h_flags :: u8
  h_length :: u32
  h_from :: bytes
  h_to :: bytes
  h_nonce :: bytes
  h_checksum :: u32
  h_reserved :: bytes

record koe_packet =
  header :: koe_header
  payload :: "bytes ptr"

text \<open>The array lengths of the struct type.\<close>

definition wf_header :: "koe_header \<Rightarrow> bool" where [koe_wf]:
  "wf_header h \<longleftrightarrow>
     length (h_magic h) = 4 \<and> length (h_from h) = 32 \<and> length (h_to h) = 32 \<and>
     length (h_nonce h) = 24 \<and> length (h_reserved h) = 2"

text \<open>\<open>payload\<close> is \<open>NULL\<close> when \<open>length == 0\<close>, and otherwise owns \<open>length\<close> bytes.\<close>

definition wf_packet :: "koe_packet \<Rightarrow> bool" where [koe_wf]:
  "wf_packet p \<longleftrightarrow> wf_header (header p) \<and>
     (case payload p of
        NULL \<Rightarrow> h_length (header p) = 0
      | Some bs \<Rightarrow> length bs = unat (h_length (header p)))"

text \<open>\<open>memset(pkt, 0, sizeof(*pkt))\<close>.\<close>

definition zero_header :: koe_header where
  "zero_header = \<lparr>h_magic = replicate 4 0, h_proto_major = 0, h_proto_minor = 0, h_type = 0,
     h_flags = 0, h_length = 0, h_from = replicate 32 0, h_to = replicate 32 0,
     h_nonce = replicate 24 0, h_checksum = 0, h_reserved = replicate 2 0\<rparr>"

definition zero_packet :: koe_packet where
  "zero_packet = \<lparr>header = zero_header, payload = NULL\<rparr>"

section \<open>Operations\<close>

definition koe_packet_init :: "u8 \<Rightarrow> u8 \<Rightarrow> koe_packet" where
  "koe_packet_init type flags =
     zero_packet\<lparr>header := zero_header\<lparr>h_magic := KOE_MAGIC,
       h_proto_major := KOE_PROTO_MAJOR, h_proto_minor := KOE_PROTO_MINOR,
       h_type := type, h_flags := flags\<rparr>\<rparr>"

definition koe_packet_free :: "koe_packet \<Rightarrow> koe_packet" where
  "koe_packet_free pkt =
     (let pkt = (case payload pkt of Some _ \<Rightarrow> pkt\<lparr>payload := NULL\<rparr> | NULL \<Rightarrow> pkt)
      in pkt\<lparr>header := (header pkt)\<lparr>h_length := 0\<rparr>\<rparr>)"

text \<open>The first 100 bytes of the serialised header, which the checksum covers.\<close>

definition header_prefix :: "koe_header \<Rightarrow> bytes" where
  "header_prefix h =
     h_magic h @ [h_proto_major h, h_proto_minor h, h_type h, h_flags h] @
     be32 (h_length h) @ h_from h @ h_to h @ h_nonce h"

definition koe_packet_checksum :: "koe_header \<Rightarrow> u32" where
  "koe_packet_checksum h = crc32 (header_prefix h)"

definition koe_packet_validate :: "koe_packet \<Rightarrow> int" where
  "koe_packet_validate pkt =
     (if h_magic (header pkt) \<noteq> KOE_MAGIC then -1
      else
        let local = koe_version_local;
            remote = \<lparr>ver_major = h_proto_major (header pkt), ver_minor = h_proto_minor (header pkt)\<rparr>
        in if \<not> koe_version_compatible local remote then -1
           else if koe_packet_checksum (header pkt) \<noteq> h_checksum (header pkt) then -1
           else 0)"

text \<open>
  \<open>buf\<close> is the caller's buffer, of \<open>buf_len\<close> bytes; the result is the return code
  and the buffer afterwards. The sum \<open>KOE_HEADER_SIZE + length\<close> is computed in 32 bits before
  it becomes a \<open>size_t\<close>; a result longer than \<open>buf\<close> means that the code wrote past the end of
  the buffer. When the payload pointer is \<open>NULL\<close> although the
  length is not zero, the payload area keeps what the buffer held.
\<close>

definition koe_packet_serialise :: "koe_packet \<Rightarrow> bytes \<Rightarrow> int \<times> bytes" where
  "koe_packet_serialise pkt buf =
     (let total = unat (of_nat KOE_HEADER_SIZE + h_length (header pkt))
      in if length buf < total then (-1, buf)
         else
           let hdr = header_prefix (header pkt) @ be32 (h_checksum (header pkt)) @ [0, 0];
               buf1 = mem_write 0 hdr buf;
               buf2 = (case payload pkt of
                         Some p \<Rightarrow> if h_length (header pkt) > 0
                                   then mem_write KOE_HEADER_SIZE (take (unat (h_length (header pkt))) p) buf1
                                   else buf1
                       | NULL \<Rightarrow> buf1)
           in (int_cast total, buf2))"

text \<open>The header fields read at their offsets, into a zeroed struct.\<close>

definition parse_header :: "bytes \<Rightarrow> koe_header" where
  "parse_header buf =
     zero_header\<lparr>h_magic := mem_read 0 4 buf,
       h_proto_major := buf ! 4, h_proto_minor := buf ! 5, h_type := buf ! 6, h_flags := buf ! 7,
       h_length := be32_dec (mem_read 8 4 buf),
       h_from := mem_read 12 32 buf, h_to := mem_read 44 32 buf, h_nonce := mem_read 76 24 buf,
       h_checksum := be32_dec (mem_read 100 4 buf)\<rparr>"

text \<open>\<open>pkt\<close> is the caller's struct, which the first early return leaves alone.\<close>

definition koe_packet_deserialise :: "alloc \<Rightarrow> koe_packet \<Rightarrow> bytes \<Rightarrow> int \<times> koe_packet" where
  "koe_packet_deserialise mal pkt buf =
     (if length buf < KOE_HEADER_SIZE then (-1, pkt)
      else
        let pkt = zero_packet\<lparr>header := parse_header buf\<rparr>;
            len = unat (h_length (header pkt))
        in if len > 0 then
             if length buf < KOE_HEADER_SIZE + len then (-1, pkt)
             else if len > KOE_MAX_PAYLOAD then (-1, pkt)
             else if \<not> mal 0 then (-1, pkt)
             else (0, pkt\<lparr>payload := Some (mem_read KOE_HEADER_SIZE len buf)\<rparr>)
           else (0, pkt))"

section \<open>Basic facts\<close>

lemma length_KOE_MAGIC [simp]: "length KOE_MAGIC = 4"
  by (simp add: KOE_MAGIC_def)

lemma wf_zero_header [simp]: "wf_header zero_header"
  by (simp add: wf_header_def zero_header_def)

lemma wf_packet_init [simp]: "wf_packet (koe_packet_init t f)"
  by (simp add: wf_packet_def wf_header_def koe_packet_init_def zero_packet_def zero_header_def)

lemma wf_packet_free: "wf_header (header p) \<Longrightarrow> wf_packet (koe_packet_free p)"
  by (auto simp: wf_packet_def wf_header_def koe_packet_free_def Let_def split: option.splits)

lemma length_header_prefix [simp]: "wf_header h \<Longrightarrow> length (header_prefix h) = 100"
  by (simp add: header_prefix_def wf_header_def)

lemma koe_packet_init_sel [simp]:
  "h_magic (header (koe_packet_init t f)) = KOE_MAGIC"
  "h_proto_major (header (koe_packet_init t f)) = KOE_PROTO_MAJOR"
  "h_proto_minor (header (koe_packet_init t f)) = KOE_PROTO_MINOR"
  "h_type (header (koe_packet_init t f)) = t"
  "h_flags (header (koe_packet_init t f)) = f"
  "h_length (header (koe_packet_init t f)) = 0"
  "h_checksum (header (koe_packet_init t f)) = 0"
  "h_reserved (header (koe_packet_init t f)) = [0, 0]"
  "length (h_from (header (koe_packet_init t f))) = 32"
  "length (h_to (header (koe_packet_init t f))) = 32"
  "length (h_nonce (header (koe_packet_init t f))) = 24"
  "payload (koe_packet_init t f) = NULL"
  by (simp_all add: koe_packet_init_def zero_packet_def zero_header_def numeral_eq_Suc)

text \<open>A header that carries its own checksum validates, whatever the other fields are.\<close>

lemma koe_packet_validate_checksummed:
  "h_magic (header p) = KOE_MAGIC \<Longrightarrow> h_proto_major (header p) = KOE_PROTO_MAJOR \<Longrightarrow>
   h_proto_minor (header p) = KOE_PROTO_MINOR \<Longrightarrow>
   h_checksum (header p) = koe_packet_checksum (header p) \<Longrightarrow> koe_packet_validate p = 0"
  by (simp add: koe_packet_validate_def koe_version_local_def)

text \<open>The checksum does not read the checksum and reserved fields.\<close>

lemma koe_packet_checksum_upd [simp]:
  "koe_packet_checksum (h\<lparr>h_checksum := c\<rparr>) = koe_packet_checksum h"
  "koe_packet_checksum (h\<lparr>h_reserved := r\<rparr>) = koe_packet_checksum h"
  by (simp_all add: koe_packet_checksum_def header_prefix_def)

section \<open>The wire image\<close>

text \<open>
  The packets that survive the wire: well formed, a payload that is \<open>NULL\<close> exactly
  when the length is zero, at most the 1 MiB cap, and zero reserved bytes.
\<close>

definition wire_packet :: "koe_packet \<Rightarrow> bool" where
  "wire_packet p \<longleftrightarrow> wf_packet p \<and> payload p \<noteq> Some [] \<and>
     unat (h_length (header p)) \<le> KOE_MAX_PAYLOAD \<and> h_reserved (header p) = [0, 0]"

definition packet_size :: "koe_packet \<Rightarrow> nat" where
  "packet_size p = KOE_HEADER_SIZE + unat (h_length (header p))"

definition wire_image :: "koe_packet \<Rightarrow> bytes" where
  "wire_image p = header_prefix (header p) @ be32 (h_checksum (header p)) @ [0, 0] @
     (case payload p of NULL \<Rightarrow> [] | Some bs \<Rightarrow> bs)"

lemma length_wire_image: "wf_packet p \<Longrightarrow> length (wire_image p) = packet_size p"
  by (auto simp: wire_image_def packet_size_def wf_packet_def split: option.splits)

lemma koe_packet_serialise_eq:
  assumes "wf_packet p" and "packet_size p < 2 ^ 32"
  shows "koe_packet_serialise p buf =
    (if length buf < packet_size p then (-1, buf)
     else (int_cast (packet_size p), wire_image p @ drop (packet_size p) buf))"
proof -
  have "unat (106 + h_length (header p)) = packet_size p"
    using assms(2) by (simp add: packet_size_def unat_word_ariths)
  then show ?thesis
    using assms(1)
    by (auto simp: koe_packet_serialise_def packet_size_def wire_image_def wf_packet_def
        mem_write_def word_gt_0 unat_eq_0 Let_def add.commute split: option.splits)
qed

lemma packet_size_le: "wire_packet p \<Longrightarrow> packet_size p \<le> 1048682"
  by (simp add: wire_packet_def packet_size_def)

lemma int_cast_packet_size: "wire_packet p \<Longrightarrow> int_cast (packet_size p) = int (packet_size p)"
  using packet_size_le [of p] by (intro int_cast_small) simp

text \<open>Parsing reads back the fields the image holds, and nothing is lost: the first
  104 bytes of any buffer are the image of what was parsed.\<close>

lemma mem_read_4_list:
  assumes "off + 4 \<le> length buf"
  shows "mem_read off 4 buf = [buf ! off, buf ! (off + 1), buf ! (off + 2), buf ! (off + 3)]"
proof (rule nth_equalityI)
  fix i assume "i < length (mem_read off 4 buf)"
  then have "i = 0 \<or> i = 1 \<or> i = 2 \<or> i = 3" by auto
  with assms show "mem_read off 4 buf ! i =
      [buf ! off, buf ! (off + 1), buf ! (off + 2), buf ! (off + 3)] ! i"
    by (auto simp: mem_read_def)
qed (use assms in auto)

lemma wf_parse_header [simp]: "106 \<le> length buf \<Longrightarrow> wf_header (parse_header buf)"
  by (simp add: parse_header_def wf_header_def zero_header_def)

lemma parse_header_reserved [simp]: "h_reserved (parse_header buf) = [0, 0]"
  by (simp add: parse_header_def zero_header_def numeral_eq_Suc)

lemma header_prefix_parse:
  assumes "106 \<le> length buf"
  shows "header_prefix (parse_header buf) = take 100 buf"
proof -
  have "[buf ! 4, buf ! 5, buf ! 6, buf ! 7] = mem_read 4 4 buf"
    using assms by (simp add: mem_read_4_list)
  then have "header_prefix (parse_header buf) =
      mem_read 0 4 buf @ mem_read 4 4 buf @ mem_read 8 4 buf @ mem_read 12 32 buf @
      mem_read 44 32 buf @ mem_read 76 24 buf"
    using assms by (simp add: header_prefix_def parse_header_def u32be.enc_dec)
  also have "\<dots> = mem_read 0 100 buf"
    using mem_read_split [of 0 4 96 buf] mem_read_split [of 4 4 92 buf]
      mem_read_split [of 8 4 88 buf] mem_read_split [of 12 32 56 buf]
      mem_read_split [of 44 32 24 buf] by simp
  finally show ?thesis by (simp add: mem_read_def)
qed

lemma checksum_parse:
  "106 \<le> length buf \<Longrightarrow> be32 (h_checksum (parse_header buf)) = mem_read 100 4 buf"
  by (simp add: parse_header_def u32be.enc_dec)

lemma parse_header_inject:
  assumes h: "wf_header h" "h_reserved h = [0, 0]"
    and buf: "buf = header_prefix h @ be32 (h_checksum h) @ [0, 0] @ rest"
  shows "parse_header buf = h"
proof -
  have "mem_read 0 4 buf = h_magic h" "mem_read 8 4 buf = be32 (h_length h)"
    "mem_read 12 32 buf = h_from h" "mem_read 44 32 buf = h_to h" "mem_read 76 24 buf = h_nonce h"
    "mem_read 100 4 buf = be32 (h_checksum h)"
    using h by (simp_all add: buf header_prefix_def wf_header_def mem_read_def)
  moreover have "mem_read 4 4 buf = [h_proto_major h, h_proto_minor h, h_type h, h_flags h]"
    using h by (simp add: buf header_prefix_def wf_header_def mem_read_def)
  then have "buf ! 4 = h_proto_major h" "buf ! 5 = h_proto_minor h" "buf ! 6 = h_type h"
    "buf ! 7 = h_flags h"
    using h by (simp_all add: mem_read_4_list buf)
  ultimately show ?thesis
    using h by (cases h) (simp add: parse_header_def zero_header_def numeral_2_eq_2)
qed

text \<open>The announced payload length, and the condition under which a buffer is accepted.\<close>

definition announced_length :: "bytes \<Rightarrow> nat" where
  "announced_length buf = unat (be32_dec (mem_read 8 4 buf))"

definition acceptable :: "alloc \<Rightarrow> bytes \<Rightarrow> bool" where
  "acceptable mal buf \<longleftrightarrow> KOE_HEADER_SIZE \<le> length buf \<and>
     (announced_length buf = 0 \<or>
      KOE_HEADER_SIZE + announced_length buf \<le> length buf \<and>
      announced_length buf \<le> KOE_MAX_PAYLOAD \<and> mal 0)"

definition parsed_packet :: "bytes \<Rightarrow> koe_packet" where
  "parsed_packet buf = \<lparr>header = parse_header buf,
     payload = (if announced_length buf = 0 then NULL
                else Some (mem_read KOE_HEADER_SIZE (announced_length buf) buf))\<rparr>"

lemma parse_header_length [simp]: "unat (h_length (parse_header buf)) = announced_length buf"
  by (simp add: parse_header_def announced_length_def)

lemma koe_packet_deserialise_ok:
  "acceptable mal buf \<Longrightarrow> koe_packet_deserialise mal q buf = (0, parsed_packet buf)"
  by (auto simp: koe_packet_deserialise_def acceptable_def parsed_packet_def zero_packet_def Let_def)

lemma koe_packet_deserialise_bad:
  "\<not> acceptable mal buf \<Longrightarrow> fst (koe_packet_deserialise mal q buf) = -1"
  by (auto simp: koe_packet_deserialise_def acceptable_def zero_packet_def Let_def)

lemma koe_packet_deserialise_0_iff:
  "koe_packet_deserialise mal q buf = (0, p) \<longleftrightarrow> acceptable mal buf \<and> p = parsed_packet buf"
  using koe_packet_deserialise_ok [of mal buf q] koe_packet_deserialise_bad [of mal buf q]
  by (cases "acceptable mal buf") auto

lemma wire_packet_parsed: "acceptable mal buf \<Longrightarrow> wire_packet (parsed_packet buf)"
  using parse_header_length [of buf]
  by (auto simp: wire_packet_def wf_packet_def parsed_packet_def acceptable_def
      dest: arg_cong [where f = length] intro: word_unat_eq_iff [THEN iffD2])

lemma wire_image_parsed:
  assumes "acceptable mal buf"
  shows "wire_image (parsed_packet buf) =
    take 104 buf @ [0, 0] @ mem_read KOE_HEADER_SIZE (announced_length buf) buf"
proof -
  have len: "106 \<le> length buf" using assms by (simp add: acceptable_def)
  have "take 104 buf = take 100 buf @ mem_read 100 4 buf"
    using mem_read_take_drop [of 100 buf 4] by simp
  with len show ?thesis
    by (simp add: wire_image_def parsed_packet_def header_prefix_parse checksum_parse mem_read_def)
qed

lemma parsed_packet_image:
  assumes "wire_packet p"
  shows "announced_length (wire_image p @ rest) = unat (h_length (header p))"
    and "parsed_packet (wire_image p @ rest) = p"
proof -
  let ?buf = "wire_image p @ rest"
  have hdr: "parse_header ?buf = header p"
    using assms by (intro parse_header_inject) (auto simp: wire_packet_def wf_packet_def wire_image_def)
  then show len: "announced_length ?buf = unat (h_length (header p))"
    using parse_header_length [of ?buf] by simp
  have "mem_read 106 (unat (h_length (header p))) ?buf =
      (case payload p of NULL \<Rightarrow> [] | Some bs \<Rightarrow> bs)"
    using assms
    by (auto simp: wire_image_def wire_packet_def wf_packet_def mem_read_def split: option.splits)
  with assms show "parsed_packet ?buf = p"
    unfolding parsed_packet_def hdr len
    by (cases p) (auto simp: wire_packet_def wf_packet_def unat_eq_0 split: option.splits)
qed

lemma acceptable_image:
  assumes "wire_packet p" and "mal 0"
  shows "acceptable mal (wire_image p @ rest)"
  using assms length_wire_image [of p]
  by (simp add: acceptable_def parsed_packet_image wire_packet_def packet_size_def)

text \<open>Equal images come from equal packets: framing by concatenation is unambiguous.\<close>

lemma wire_image_prefix_inject:
  "wire_packet p \<Longrightarrow> wire_packet q \<Longrightarrow> wire_image p @ r = wire_image q @ s \<Longrightarrow> p = q \<and> r = s"
  by (metis parsed_packet_image(2) same_append_eq)

section \<open>The codec contract\<close>

text \<open>
  What the transport and the offline queue rely on: a serialiser into a buffer and
  a parser. \<open>good\<close> are the values that can be sent, \<open>size\<close> the bytes they take.
\<close>

locale wire_codec =
  fixes ser :: "'p \<Rightarrow> bytes \<Rightarrow> int \<times> bytes"
    and par :: "alloc \<Rightarrow> 'p \<Rightarrow> bytes \<Rightarrow> int \<times> 'p"
    and img :: "'p \<Rightarrow> bytes" and good :: "'p \<Rightarrow> bool"
  assumes ser_fits: "good p \<Longrightarrow> length (img p) \<le> length buf \<Longrightarrow>
      ser p buf = (int (length (img p)), img p @ drop (length (img p)) buf)"
    and ser_short: "good p \<Longrightarrow> length buf < length (img p) \<Longrightarrow> ser p buf = (-1, buf)"
    and par_img: "good p \<Longrightarrow> mal 0 \<Longrightarrow> par mal q (img p @ rest) = (0, p)"
    and par_good: "par mal q buf = (0, p) \<Longrightarrow> good p"
begin

lemma ser_rc: "good p \<Longrightarrow> fst (ser p buf) = -1 \<or> fst (ser p buf) = int (length (img p))"
  by (cases "length (img p) \<le> length buf") (simp_all add: ser_fits ser_short)

lemma par_ser:
  "good p \<Longrightarrow> length (img p) \<le> length buf \<Longrightarrow> mal 0 \<Longrightarrow> par mal q (snd (ser p buf)) = (0, p)"
  by (simp add: ser_fits par_img)

text \<open>A buffer of exactly the right size, as callers allocate it.\<close>

lemma ser_exact:
  "good p \<Longrightarrow> length buf = length (img p) \<Longrightarrow> ser p buf = (int (length (img p)), img p)"
  by (simp add: ser_fits)

lemma img_inject: "good p \<Longrightarrow> good q \<Longrightarrow> img p @ r = img q @ s \<Longrightarrow> p = q"
  using par_img [of p "\<lambda>_. True" q r] par_img [of q "\<lambda>_. True" q s] by simp

text \<open>Parsing then serialising a parsed value gives an image that parses to the same value.\<close>

lemma par_stable:
  "par mal q buf = (0, p) \<Longrightarrow> mal' 0 \<Longrightarrow> par mal' q' (img p) = (0, p)"
  using par_img [of p mal' q' "[]"] par_good by simp

end

interpretation pkt: wire_codec koe_packet_serialise koe_packet_deserialise wire_image wire_packet
proof
  fix p buf rest mal q assume p: "wire_packet p"
  then have len: "length (wire_image p) = packet_size p" and small: "packet_size p < 2 ^ 32"
    using packet_size_le [of p] by (simp_all add: length_wire_image wire_packet_def)
  show "koe_packet_serialise p buf =
      (int (length (wire_image p)), wire_image p @ drop (length (wire_image p)) buf)"
    if "length (wire_image p) \<le> length buf"
    using p that small by (simp add: koe_packet_serialise_eq len int_cast_packet_size wire_packet_def)
  show "koe_packet_serialise p buf = (-1, buf)" if "length buf < length (wire_image p)"
    using p that small by (simp add: koe_packet_serialise_eq len wire_packet_def)
  show "koe_packet_deserialise mal q (wire_image p @ rest) = (0, p)" if "mal 0"
    using p that by (simp add: koe_packet_deserialise_ok acceptable_image parsed_packet_image)
next
  fix mal q buf p assume "koe_packet_deserialise mal q buf = (0, p)"
  then show "wire_packet p" by (auto simp: koe_packet_deserialise_0_iff wire_packet_parsed)
qed

section \<open>Properties\<close>

text \<open>C1. Every sendable packet that fits the buffer is serialised completely, the rest of
  the buffer is untouched, the return value is the number of bytes written, and parsing the
  buffer gives exactly the packet back.\<close>

theorem packet_roundtrip:
  assumes "wire_packet p" and "packet_size p \<le> length buf" and "mal 0"
    and "koe_packet_serialise p buf = (n, out)"
  shows "n = int (packet_size p) \<and> length out = length buf \<and>
    drop (packet_size p) out = drop (packet_size p) buf \<and>
    koe_packet_deserialise mal q out = (0, p)"
proof -
  have len: "length (wire_image p) = packet_size p"
    using assms(1) by (simp add: length_wire_image wire_packet_def)
  show ?thesis
    using assms pkt.ser_fits [of p buf] pkt.par_img [of p mal q] by (auto simp: len)
qed

theorem packet_roundtrip_witness:
  defines "p \<equiv> (koe_packet_init (type_code KOE_TYPE_MSG) 1)
      \<lparr>header := (header (koe_packet_init (type_code KOE_TYPE_MSG) 1))\<lparr>h_length := 3\<rparr>,
       payload := Some [1, 2, 3]\<rparr>"
  shows "koe_packet_deserialise (\<lambda>_. True) zero_packet
      (snd (koe_packet_serialise p (replicate 200 7))) = (0, p)"
proof -
  have "wire_packet p"
    by (simp add: p_def wire_packet_def wf_packet_def wf_header_def)
  moreover have "packet_size p \<le> length (replicate 200 (7 :: u8))"
    by (simp add: p_def packet_size_def)
  ultimately show ?thesis
    using packet_roundtrip [of p "replicate 200 7" "\<lambda>_. True"
        "fst (koe_packet_serialise p (replicate 200 7))"
        "snd (koe_packet_serialise p (replicate 200 7))" zero_packet]
    by simp
qed

text \<open>C2. Parsing an arbitrary buffer is total and memory safe. It fails exactly when the
  buffer is shorter than a header, shorter than the announced payload, announces more than
  the 1 MiB cap, or the allocation fails; what it accepts is a well-formed packet whose wire
  image is the buffer it was read from (with the two reserved bytes cleared).\<close>

theorem deserialise_exact:
  assumes "koe_packet_deserialise mal q buf = (rc, p)"
  shows "rc = (if acceptable mal buf then 0 else -1) \<and>
    (rc = 0 \<longrightarrow> wire_packet p \<and> wire_image p =
       take 104 buf @ [0, 0] @ mem_read KOE_HEADER_SIZE (announced_length buf) buf)"
  using assms koe_packet_deserialise_bad [of mal buf q]
  by (auto simp: koe_packet_deserialise_ok wire_packet_parsed wire_image_parsed)

theorem deserialise_exact_witness:
  "koe_packet_deserialise (\<lambda>_. True) zero_packet (replicate 106 0 @ [5]) =
      (0, parsed_packet (replicate 106 0 @ [5])) \<and>
   wire_packet (parsed_packet (replicate 106 0 @ [5])) \<and>
   koe_packet_deserialise (\<lambda>_. True) zero_packet (replicate 105 0) = (-1, zero_packet)"
proof -
  have ok: "acceptable (\<lambda>_. True) (replicate 106 0 @ [5])"
    by code_simp
  have "koe_packet_deserialise (\<lambda>_. True) zero_packet (replicate 105 0) = (-1, zero_packet)"
    by (simp add: koe_packet_deserialise_def)
  with ok deserialise_exact [OF koe_packet_deserialise_ok [OF ok, of zero_packet]]
  show ?thesis by (simp add: koe_packet_deserialise_ok)
qed



text \<open>C22. The size computation of serialisation wraps at 32 bits: for a packet whose length field
  is within 106 of \<open>2 ^ 32\<close> the required size comes out below 106, the check against the buffer
  passes for any buffer of that small size, and the header and payload are written past its
  end.\<close>

theorem serialise_size_wraps:
  assumes "wf_packet p" and "payload p = Some data" and "2 ^ 32 - 106 \<le> length data"
    and "length buf = length data + 106 - 2 ^ 32"
  shows "fst (koe_packet_serialise p buf) = int (length buf) \<and>
    length buf < 106 \<and> length (snd (koe_packet_serialise p buf)) > length buf"
proof -
  have len: "unat (h_length (header p)) = length data"
    using assms(1,2) by (simp add: wf_packet_def)
  have lt: "length data < 2 ^ 32"
    using unsigned_less [of "h_length (header p)", where 'a = nat] len by simp
  have "unat (106 + h_length (header p)) = (106 + length data) mod 2 ^ 32"
    by (simp add: unat_word_ariths len)
  also have "\<dots> = length buf"
    using assms(3,4) lt by (simp add: mod_if)
  finally have total: "unat (106 + h_length (header p)) = length buf" .
  have small: "length buf < 106" using assms(4) lt by linarith
  have "h_length (header p) > 0" using len assms(3) by (auto simp: word_gt_0)
  moreover have "length (header_prefix (header p) @ be32 (h_checksum (header p)) @ [0, 0]) = 106"
    using assms(1) by (simp add: wf_packet_def)
  ultimately show ?thesis
    using small assms(2,3) len
    by (simp add: koe_packet_serialise_def total int_cast_small Let_def mem_write_def)
qed

theorem serialise_size_wraps_witness:
  defines "p \<equiv> \<lparr>header = (header (koe_packet_init 4 0))\<lparr>h_length := of_nat (2 ^ 32 - 100)\<rparr>,
    payload = Some (replicate (2 ^ 32 - 100) 0)\<rparr>"
  shows "fst (koe_packet_serialise p (replicate 6 0)) = 6 \<and>
    length (snd (koe_packet_serialise p (replicate 6 0))) > 6"
proof -
  have "wf_packet p"
    by (simp add: p_def wf_packet_def wf_header_def)
  then show ?thesis
    using serialise_size_wraps [of p "replicate (2 ^ 32 - 100) 0" "replicate 6 0"] by (simp add: p_def)
qed

end
