(* ===== verification/Koe_Fragment.thy ===== *)
theory Koe_Fragment
  imports Koe_Packet "HOL-Library.Multiset"
begin

text \<open>
  Fragmentation and reassembly (\<^verbatim>\<open>src/koe_packet.c\<close>, lines 177-281). A fragment's
  payload is a 16-byte message id, the fragment index, the fragment count and the data.
  The lemmas show which bytes the fragments carry, that feeding all fragments of a message
  to a fresh reassembly context in any order gives the message back, and what happens when
  the 8-bit fragment count overflows or a fragment is received twice.
\<close>

section \<open>Model\<close>

abbreviation (input) KOE_MAX_FRAGMENTS :: nat where "KOE_MAX_FRAGMENTS \<equiv> 256"

record koe_reassembly =
  ra_msg_id :: bytes
  ra_total_fragments :: u8
  ra_received :: u8
  ra_fragments :: "bytes ptr list"
  ra_frag_lengths :: "u32 list"

definition zero_reassembly :: koe_reassembly where
  "zero_reassembly = \<lparr>ra_msg_id = replicate 16 0, ra_total_fragments = 0, ra_received = 0,
     ra_fragments = replicate KOE_MAX_FRAGMENTS NULL,
     ra_frag_lengths = replicate KOE_MAX_FRAGMENTS 0\<rparr>"

text \<open>One fragment, from the header of the original packet and one chunk of its payload.\<close>

definition make_fragment :: "koe_packet \<Rightarrow> bytes \<Rightarrow> nat \<Rightarrow> u8 \<Rightarrow> bytes \<Rightarrow> koe_packet" where
  "make_fragment pkt msg_id i total_frags chunk_data =
     (let pay_len = size_t (18 + length chunk_data);
          hdr = (header pkt)\<lparr>h_length := of_nat pay_len,
                  h_flags := h_flags (header pkt) OR flag_bit KOE_FLAG_FRAGMENTED\<rparr>;
          hdr = (if int i = uint total_frags - 1
                 then hdr\<lparr>h_flags := h_flags hdr OR flag_bit KOE_FLAG_LAST_FRAG\<rparr> else hdr);
          hdr = hdr\<lparr>h_checksum := koe_packet_checksum hdr\<rparr>
      in \<lparr>header = hdr, payload = Some (msg_id @ [of_nat i, total_frags] @ chunk_data)\<rparr>)"

text \<open>
  The loop over the fragment indices; \<open>frags\<close> is the part of \<open>out_frags\<close> written so far
  (\<open>count\<close> is its length). \<open>mal i\<close> is the allocation of fragment \<open>i\<close>.
\<close>

fun fragment_loop ::
  "alloc \<Rightarrow> koe_packet \<Rightarrow> bytes \<Rightarrow> bytes \<Rightarrow> nat \<Rightarrow> u8 \<Rightarrow> nat \<Rightarrow> nat list \<Rightarrow> koe_packet list \<Rightarrow>
   int \<times> koe_packet list" where
  "fragment_loop mal pkt data msg_id frag_size total_frags offset [] frags =
     (int (length frags), frags)"
| "fragment_loop mal pkt data msg_id frag_size total_frags offset (i # is) frags =
     (let total = length data;
          chunk = (if size_t (offset + frag_size) > total then total - offset else frag_size)
      in if \<not> mal i then (-1, frags)
         else fragment_loop mal pkt data msg_id frag_size total_frags (offset + chunk) is
                (frags @ [make_fragment pkt msg_id i total_frags (mem_read offset chunk data)]))"

text \<open>
  \<open>msg_id\<close> are the 16 random bytes. The result \<open>None\<close> is the division by zero of \<open>mtu = 0\<close>;
  otherwise the return code and the fragments written to \<open>out_frags\<close>.
\<close>

definition koe_packet_fragment ::
  "alloc \<Rightarrow> bytes \<Rightarrow> koe_packet \<Rightarrow> int \<Rightarrow> nat \<Rightarrow> (int \<times> koe_packet list) option" where
  "koe_packet_fragment mal msg_id pkt max_frags mtu =
     (case payload pkt of
        NULL \<Rightarrow> Some (-1, [])
      | Some data \<Rightarrow>
          if h_length (header pkt) = 0 then Some (-1, [])
          else if mtu = 0 then None
          else
            let total = unat (h_length (header pkt));
                total_frags = (of_nat (size_t (total + mtu - 1) div mtu) :: u8)
            in if uint total_frags > max_frags \<or> total_frags = 0 then Some (-1, [])
               else Some (fragment_loop mal pkt (take total data) msg_id mtu total_frags 0
                            [0..<unat total_frags] []))"

text \<open>
  The copy loop of the reassembly. A \<open>NULL\<close> fragment with a length of zero copies nothing;
  one with a non-zero length is a \<open>memcpy\<close> from \<open>NULL\<close>, the result \<open>None\<close>.
\<close>

fun gather :: "bytes ptr list \<Rightarrow> u32 list \<Rightarrow> nat list \<Rightarrow> bytes option" where
  "gather fragments lengths [] = Some []"
| "gather fragments lengths (i # is) =
     (case fragments ! i of
        NULL \<Rightarrow> if lengths ! i = 0 then gather fragments lengths is else None
      | Some d \<Rightarrow> map_option ((@) (take (unat (lengths ! i)) d)) (gather fragments lengths is))"

text \<open>
  The last part of the reassembly, once enough fragments have been counted: sum the
  lengths, allocate (\<open>mal 1\<close>), copy the fragments in index order, free them, and rebuild the
  header from the last fragment's.
\<close>

definition reassemble_finish ::
  "alloc \<Rightarrow> koe_reassembly \<Rightarrow> koe_packet \<Rightarrow> (int \<times> koe_reassembly \<times> koe_packet) option" where
  "reassemble_finish mal ctx frag =
     (let idx = [0..<unat (ra_total_fragments ctx)];
          total_len = sum_list (map (\<lambda>i. unat (ra_frag_lengths ctx ! i)) idx)
      in if \<not> mal 1 then Some (-1, ctx, frag\<lparr>payload := NULL\<rparr>)
         else case gather (ra_fragments ctx) (ra_frag_lengths ctx) idx of
           None \<Rightarrow> None
         | Some data \<Rightarrow>
             let hdr = (header frag)\<lparr>h_length := of_nat total_len,
                   h_flags := h_flags (header frag) AND
                     NOT (flag_bit KOE_FLAG_FRAGMENTED OR flag_bit KOE_FLAG_LAST_FRAG)\<rparr>
             in Some (1, ctx\<lparr>ra_fragments := fold (\<lambda>i fs. fs[i := NULL]) idx (ra_fragments ctx)\<rparr>,
                      \<lparr>header = hdr\<lparr>h_checksum := koe_packet_checksum hdr\<rparr>, payload = Some data\<rparr>))"

text \<open>
  \<open>mal 0\<close> is the copy of the fragment data; \<open>out_pkt\<close> is the caller's packet. The fragment
  index is a byte, so the 256-entry arrays are never overrun.
\<close>

definition koe_packet_reassemble ::
  "alloc \<Rightarrow> koe_reassembly \<Rightarrow> koe_packet \<Rightarrow> koe_packet \<Rightarrow>
   (int \<times> koe_reassembly \<times> koe_packet) option" where
  "koe_packet_reassemble mal ctx frag out_pkt =
     (case payload frag of
        NULL \<Rightarrow> Some (-1, ctx, out_pkt)
      | Some pay \<Rightarrow>
        if h_length (header frag) < 18 then Some (-1, ctx, out_pkt)
        else
          let frag_index = unat (pay ! 16); total = pay ! 17; msg_id = take 16 pay in
          if ra_received ctx \<noteq> 0 \<and> ra_msg_id ctx \<noteq> msg_id then Some (-1, ctx, out_pkt)
          else
            let ctx = (if ra_received ctx = 0
                       then ctx\<lparr>ra_msg_id := msg_id, ra_total_fragments := total\<rparr> else ctx);
                data_len = unat (h_length (header frag)) - 18
            in if \<not> mal 0 then Some (-1, ctx, out_pkt)
               else
                 let ctx = ctx\<lparr>
                       ra_fragments := (ra_fragments ctx)[frag_index := Some (mem_read 18 data_len pay)],
                       ra_frag_lengths := (ra_frag_lengths ctx)[frag_index := of_nat data_len],
                       ra_received := ra_received ctx + 1\<rparr>
                 in if ra_received ctx < ra_total_fragments ctx then Some (0, ctx, out_pkt)
                    else reassemble_finish mal ctx frag)"

text \<open>A receiver that feeds fragments in the order they arrive: the return codes, the final
  context and the output packet.\<close>

fun reassemble_all ::
  "alloc \<Rightarrow> koe_reassembly \<Rightarrow> koe_packet \<Rightarrow> koe_packet list \<Rightarrow>
   (int list \<times> koe_reassembly \<times> koe_packet) option" where
  "reassemble_all mal ctx out [] = Some ([], ctx, out)"
| "reassemble_all mal ctx out (f # fs) =
     (case koe_packet_reassemble mal ctx f out of
        None \<Rightarrow> None
      | Some (rc, ctx, out) \<Rightarrow>
          map_option (\<lambda>(rcs, ctx, out). (rc # rcs, ctx, out)) (reassemble_all mal ctx out fs))"

section \<open>What the fragments carry\<close>

definition frag_data :: "koe_packet \<Rightarrow> bytes" where
  "frag_data f = (case payload f of NULL \<Rightarrow> [] | Some pay \<Rightarrow> drop 18 pay)"

definition frag_chunk :: "nat \<Rightarrow> bytes \<Rightarrow> nat \<Rightarrow> bytes" where
  "frag_chunk mtu data i = mem_read (i * mtu) mtu data"

lemma concat_frag_chunks:
  "concat (map (frag_chunk mtu data) [0..<n]) = take (n * mtu) data"
proof (induction n)
  case (Suc n)
  have "take (n * mtu) data @ frag_chunk mtu data n = take (n * mtu + mtu) data"
    by (simp only: frag_chunk_def mem_read_take_drop)
  with Suc show ?case by (simp add: add.commute)
qed simp

lemma frag_data_make [simp]: "length mid = 16 \<Longrightarrow> frag_data (make_fragment p mid i tf d) = d"
  by (simp add: frag_data_def make_fragment_def Let_def)

text \<open>With the memory to do so, the loop emits one fragment per index.\<close>

lemma fragment_loop_eq:
  assumes "\<forall>i. mal i" and "length data + mtu < 2 ^ 64"
  shows "fragment_loop mal p data mid mtu tf (min (k * mtu) (length data)) [k..<n] frags =
    (let fs = frags @ map (\<lambda>i. make_fragment p mid i tf (frag_chunk mtu data i)) [k..<n]
     in (int (length fs), fs))"
proof (induction "n - k" arbitrary: k frags)
  case (Suc d)
  then have k: "[k..<n] = k # [Suc k..<n]" by (simp add: upt_conv_Cons)
  let ?off = "min (k * mtu) (length data)"
  let ?chunk = "if size_t (?off + mtu) > length data then length data - ?off else mtu"
  have "?off + mtu < 2 ^ 64" using assms(2) by linarith
  then have c: "?chunk = (if ?off + mtu > length data then length data - ?off else mtu)"
    by simp
  then have "?off + ?chunk = min (Suc k * mtu) (length data)" by (auto simp: min_def)
  moreover have "mem_read ?off ?chunk data = frag_chunk mtu data k"
    unfolding c by (auto simp: frag_chunk_def mem_read_def min_def)
  moreover have "d = n - Suc k" using Suc.hyps(2) by simp
  ultimately show ?case
    using Suc.hyps(1) [of "Suc k"] assms(1) by (simp add: k Let_def)
qed simp

definition num_frags :: "nat \<Rightarrow> nat \<Rightarrow> nat" where
  "num_frags len mtu = (len + mtu - 1) div mtu"

definition all_frags :: "koe_packet \<Rightarrow> bytes \<Rightarrow> nat \<Rightarrow> bytes \<Rightarrow> nat \<Rightarrow> koe_packet list" where
  "all_frags p mid mtu data n =
     map (\<lambda>i. make_fragment p mid i (of_nat n) (frag_chunk mtu data i)) [0..<n]"

text \<open>What the code computes: the count is the number of chunks modulo 256.\<close>

lemma koe_packet_fragment_eq:
  assumes "wf_packet p" and "payload p = Some data" and "data \<noteq> []" and "0 < mtu"
    and "length data + mtu < 2 ^ 64" and "\<forall>i. mal i"
  shows "koe_packet_fragment mal mid p max_frags mtu =
    (let n = num_frags (length data) mtu mod 256
     in if int n > max_frags \<or> n = 0 then Some (-1, [])
        else Some (int n, all_frags p mid mtu data n))"
proof -
  have len: "length data = unat (h_length (header p))"
    using assms(1,2) by (simp add: wf_packet_def)
  define m where "m = num_frags (length data) mtu"
  have "size_t (unat (h_length (header p)) + mtu - 1) div mtu = m"
    using assms(5) by (simp add: m_def num_frags_def flip: len)
  moreover have n: "unat (of_nat m :: u8) = m mod 256"
    by (simp add: unat_of_nat)
  moreover have tf: "(of_nat (m mod 256) :: u8) = of_nat m"
    by (simp add: word_unat_eq_iff unat_of_nat)
  moreover have "uint (of_nat m :: u8) = int (m mod 256)"
    unfolding n [symmetric] by (rule uint_nat)
  moreover have "(of_nat m :: u8) = 0 \<longleftrightarrow> m mod 256 = 0"
    by (simp add: word_unat_eq_iff unat_of_nat)
  moreover have "h_length (header p) \<noteq> 0"
    using len assms(3) by auto
  moreover have "fragment_loop mal p data mid mtu tf 0 [0..<k] [] =
      (int k, map (\<lambda>i. make_fragment p mid i tf (frag_chunk mtu data i)) [0..<k])" for tf k
    using fragment_loop_eq [OF assms(6,5), of p mid tf 0 k "[]"] by simp
  ultimately show ?thesis
    using assms(2,4) by (simp add: koe_packet_fragment_def all_frags_def Let_def m_def len)
qed

section \<open>Reassembly\<close>

definition ra_store :: "koe_reassembly \<Rightarrow> bytes \<Rightarrow> u8 \<Rightarrow> nat \<Rightarrow> bytes \<Rightarrow> koe_reassembly" where
  "ra_store ctx mid tf i d = ctx\<lparr>ra_msg_id := mid,
     ra_total_fragments := (if ra_received ctx = 0 then tf else ra_total_fragments ctx),
     ra_received := ra_received ctx + 1,
     ra_fragments := (ra_fragments ctx)[i := Some d],
     ra_frag_lengths := (ra_frag_lengths ctx)[i := of_nat (length d)]\<rparr>"

text \<open>The packet a complete reassembly should deliver: the original without the two
  fragmentation flags, with its checksum recomputed.\<close>

definition restored :: "koe_packet \<Rightarrow> bytes \<Rightarrow> koe_packet" where
  "restored p data =
     (let hdr = (header p)\<lparr>h_length := of_nat (length data),
        h_flags := h_flags (header p) AND NOT (flag_bit KOE_FLAG_FRAGMENTED OR flag_bit KOE_FLAG_LAST_FRAG)\<rparr>
      in \<lparr>header = hdr\<lparr>h_checksum := koe_packet_checksum hdr\<rparr>, payload = Some data\<rparr>)"

lemma clear_frag_flags:
  "(w OR 4) AND - 13 = w AND (- 13 :: u8)" "((w OR 4) OR 8) AND - 13 = w AND (- 13 :: u8)"
  by (simp_all add: bit.conj_disj_distrib2)

lemma make_fragment_sel:
  assumes "length mid = 16" and "18 + length d < 2 ^ 32" and "i < 256"
  shows "payload (make_fragment p mid i tf d) = Some (mid @ [of_nat i, tf] @ d)"
    and "unat (h_length (header (make_fragment p mid i tf d))) = 18 + length d"
    and "\<not> h_length (header (make_fragment p mid i tf d)) < 18"
proof -
  show len: "unat (h_length (header (make_fragment p mid i tf d))) = 18 + length d"
    using assms take_bit_nat_eq_self [of "18 + length d" 32]
      unat_of_nat [where 'a = 32 and x = "18 + length d"]
    by (simp add: make_fragment_def Let_def)
  then show "\<not> h_length (header (make_fragment p mid i tf d)) < 18"
    by (simp add: word_less_nat_alt)
qed (simp add: make_fragment_def Let_def)

lemma make_fragment_restored:
  "\<exists>c. (header (make_fragment p mid i tf d))\<lparr>h_length := len,
      h_flags := h_flags (header (make_fragment p mid i tf d)) AND - 13\<rparr> =
    (header p)\<lparr>h_length := len, h_flags := h_flags (header p) AND - 13, h_checksum := c\<rparr>"
  by (rule exI [of _ "h_checksum (header (make_fragment p mid i tf d))"], cases "header p")
    (simp add: make_fragment_def Let_def clear_frag_flags)

lemma koe_packet_reassemble_fragment:
  assumes "length mid = 16" and "18 + length d < 2 ^ 32" and "i < 256" and "mal 0"
    and "ra_received ctx \<noteq> 0 \<longrightarrow> ra_msg_id ctx = mid"
  shows "koe_packet_reassemble mal ctx (make_fragment p mid i tf d) out =
    (let ctx' = ra_store ctx mid tf i d
     in if ra_received ctx' < ra_total_fragments ctx' then Some (0, ctx', out)
        else reassemble_finish mal ctx' (make_fragment p mid i tf d))"
proof -
  let ?pay = "mid @ of_nat i # tf # d"
  have sel: "take 16 ?pay = mid" "?pay ! 16 = of_nat i" "?pay ! 17 = tf" "mem_read 18 (length d) ?pay = d"
    using assms(1) by (simp_all add: nth_append mem_read_def)
  have idx: "unat (of_nat i :: u8) = i" using assms(3) by (simp add: unat_of_nat)
  show ?thesis
    using assms(4,5)
    by (cases ctx) (simp add: koe_packet_reassemble_def make_fragment_sel [OF assms(1-3)] assms(1) sel idx
        Let_def ra_store_def)
qed

lemma reassemble_finish_make:
  assumes "mal 1" and idx: "idx = [0..<unat (ra_total_fragments ctx)]"
    and "gather (ra_fragments ctx) (ra_frag_lengths ctx) idx = Some data"
    and "sum_list (map (\<lambda>i. unat (ra_frag_lengths ctx ! i)) idx) = length data"
  shows "reassemble_finish mal ctx (make_fragment p mid i tf d) =
    Some (1, ctx\<lparr>ra_fragments := fold (\<lambda>i fs. fs[i := NULL]) idx (ra_fragments ctx)\<rparr>, restored p data)"
proof -
  obtain c where "(header (make_fragment p mid i tf d))\<lparr>h_length := of_nat (length data),
      h_flags := h_flags (header (make_fragment p mid i tf d)) AND - 13\<rparr> =
    (header p)\<lparr>h_length := of_nat (length data), h_flags := h_flags (header p) AND - 13, h_checksum := c\<rparr>"
    using make_fragment_restored by blast
  with assms show ?thesis
    by (simp add: reassemble_finish_def restored_def Let_def)
qed

text \<open>The context after the fragments with the indices \<open>D\<close> of an \<open>n\<close>-fragment message.\<close>

definition frag_inv :: "nat \<Rightarrow> bytes \<Rightarrow> (nat \<Rightarrow> bytes) \<Rightarrow> nat set \<Rightarrow> koe_reassembly \<Rightarrow> bool" where
  "frag_inv n mid chunk D ctx \<longleftrightarrow>
     length (ra_fragments ctx) = 256 \<and> length (ra_frag_lengths ctx) = 256 \<and>
     ra_received ctx = of_nat (card D) \<and>
     (D \<noteq> {} \<longrightarrow> ra_msg_id ctx = mid \<and> ra_total_fragments ctx = of_nat n) \<and>
     (\<forall>i\<in>D. ra_fragments ctx ! i = Some (chunk i) \<and>
        ra_frag_lengths ctx ! i = of_nat (length (chunk i)))"

lemma frag_inv_fresh: "frag_inv n mid chunk {} zero_reassembly"
  by (simp add: frag_inv_def zero_reassembly_def)

lemma frag_inv_store:
  assumes inv: "frag_inv n mid chunk D ctx" and D: "D \<subseteq> {..<n}" and i: "i < n" "i \<notin> D" and n: "n \<le> 255"
  shows "ra_received ctx \<noteq> 0 \<longrightarrow> ra_msg_id ctx = mid"
    and "frag_inv n mid chunk (insert i D) (ra_store ctx mid (of_nat n) i (chunk i))"
proof -
  have fin: "finite D" using D finite_subset by blast
  have "card D \<le> n" using card_mono [OF _ D] by simp
  then have z: "(of_nat (card D) :: u8) = 0 \<longleftrightarrow> D = {}"
    using n fin by (simp add: word_unat_eq_iff unat_of_nat)
  with inv show "ra_received ctx \<noteq> 0 \<longrightarrow> ra_msg_id ctx = mid" by (auto simp: frag_inv_def)
  from inv z fin i n show "frag_inv n mid chunk (insert i D) (ra_store ctx mid (of_nat n) i (chunk i))"
    by (auto simp: frag_inv_def ra_store_def nth_list_update add.commute)
qed

lemma gather_frag_inv:
  assumes "frag_inv n mid chunk {..<n} ctx" and "\<forall>i<n. length (chunk i) < 2 ^ 32" and "k \<le> n"
  shows "gather (ra_fragments ctx) (ra_frag_lengths ctx) [0..<k] = Some (concat (map chunk [0..<k]))"
    and "sum_list (map (\<lambda>i. unat (ra_frag_lengths ctx ! i)) [0..<k]) = length (concat (map chunk [0..<k]))"
proof -
  have at: "ra_fragments ctx ! i = Some (chunk i)" "unat (ra_frag_lengths ctx ! i) = length (chunk i)"
    if "i < k" for i
    using assms that by (auto simp: frag_inv_def unat_of_nat)
  have "set is \<subseteq> {..<k} \<Longrightarrow>
      gather (ra_fragments ctx) (ra_frag_lengths ctx) is = Some (concat (map chunk is))" for "is"
    by (induction "is") (auto simp: at)
  then show "gather (ra_fragments ctx) (ra_frag_lengths ctx) [0..<k] = Some (concat (map chunk [0..<k]))"
    by (simp add: atLeast0LessThan)
  show "sum_list (map (\<lambda>i. unat (ra_frag_lengths ctx ! i)) [0..<k]) = length (concat (map chunk [0..<k]))"
    unfolding length_concat map_map by (intro arg_cong [where f = sum_list] map_cong) (simp_all add: at)
qed

lemma reassemble_any_order:
  assumes mid: "length mid = 16" and chunk: "\<forall>i<n. 18 + length (chunk i) < 2 ^ 32" and n: "n \<le> 255"
    and mal: "mal 0" "mal 1"
  shows "frag_inv n mid chunk D ctx \<Longrightarrow> distinct ks \<Longrightarrow> ks \<noteq> [] \<Longrightarrow> set ks \<inter> D = {} \<Longrightarrow>
    set ks \<union> D = {..<n} \<Longrightarrow> \<exists>ctx'. reassemble_all mal ctx out
      (map (\<lambda>i. make_fragment p mid i (of_nat n) (chunk i)) ks) =
      Some (replicate (length ks - 1) 0 @ [1], ctx', restored p (concat (map chunk [0..<n])))"
proof (induction ks arbitrary: D ctx)
  case (Cons i ks)
  let ?f = "\<lambda>i. make_fragment p mid i (of_nat n) (chunk i)"
  let ?ctx = "ra_store ctx mid (of_nat n) i (chunk i)"
  have i: "i < n" "i \<notin> D" "D \<subseteq> {..<n}" using Cons.prems by auto
  note store = frag_inv_store [OF Cons.prems(1) i(3,1,2) n]
  have step: "koe_packet_reassemble mal ctx (?f i) out =
    (if ra_received ?ctx < ra_total_fragments ?ctx then Some (0, ?ctx, out)
     else reassemble_finish mal ?ctx (?f i))"
    using koe_packet_reassemble_fragment [OF mid, of "chunk i" i mal ctx] chunk i(1) n mal(1) store(1)
    by (simp add: Let_def)
  have fin: "finite D" using i(3) finite_subset by blast
  have card: "card (insert i D) \<le> n" using card_mono [of "{..<n}" "insert i D"] i by simp
  then have lt: "ra_received ?ctx < ra_total_fragments ?ctx \<longleftrightarrow> card (insert i D) < n"
    using store(2) n by (simp add: frag_inv_def word_less_nat_alt unat_of_nat)
  show ?case
  proof (cases "ks = []")
    case True
    then have "insert i D = {..<n}" using Cons.prems by auto
    then have inv: "frag_inv n mid chunk {..<n} ?ctx" using store(2) by simp
    then have "unat (ra_total_fragments ?ctx) = n"
      using i(1) n by (auto simp: frag_inv_def unat_of_nat)
    moreover have "\<forall>i<n. length (chunk i) < 2 ^ 32" using chunk by auto
    note gather_frag_inv [OF inv this le_refl]
    ultimately have "reassemble_finish mal ?ctx (?f i) =
        Some (1, ?ctx\<lparr>ra_fragments := fold (\<lambda>i fs. fs[i := NULL]) [0..<n] (ra_fragments ?ctx)\<rparr>,
              restored p (concat (map chunk [0..<n])))"
      using mal(2) by (intro reassemble_finish_make) simp_all
    with step lt \<open>insert i D = {..<n}\<close> True show ?thesis by simp
  next
    case False
    then obtain j where "j \<in> set ks" by (cases ks) auto
    moreover have "j \<notin> insert i D" "j \<in> {..<n}"
      using \<open>j \<in> set ks\<close> Cons.prems(2,4) by (auto simp flip: Cons.prems(5))
    ultimately have "insert i D \<subset> {..<n}" using i by blast
    then have "card (insert i D) < n" using psubset_card_mono [of "{..<n}" "insert i D"] by simp
    moreover obtain ctx' where "reassemble_all mal ?ctx out (map ?f ks) =
        Some (replicate (length ks - 1) 0 @ [1], ctx', restored p (concat (map chunk [0..<n])))"
      using Cons.IH [OF store(2) _ False] Cons.prems(2,4,5) by auto
    ultimately show ?thesis
      using step lt False by (cases ks) simp_all
  qed
qed simp

section \<open>Properties\<close>

lemma num_frags_bounds:
  assumes "0 < mtu"
  shows "len \<le> num_frags len mtu * mtu" and "num_frags len mtu \<le> k \<longleftrightarrow> len \<le> k * mtu"
    and "0 < len \<Longrightarrow> 0 < num_frags len mtu"
proof -
  have le: "num_frags len mtu \<le> k \<longleftrightarrow> len \<le> k * mtu" for k
  proof -
    have "num_frags len mtu \<le> k \<longleftrightarrow> len + mtu - 1 < Suc k * mtu"
      unfolding num_frags_def less_Suc_eq_le [symmetric] by (rule div_less_iff_less_mult [OF assms])
    also have "\<dots> \<longleftrightarrow> len \<le> k * mtu" using assms by auto
    finally show ?thesis .
  qed
  then show "num_frags len mtu \<le> k \<longleftrightarrow> len \<le> k * mtu" .
  show "len \<le> num_frags len mtu * mtu" using le by blast
  show "0 < num_frags len mtu" if "0 < len" using le [of 0] that by auto
qed

text \<open>C12. Fragmentation and reassembly are inverse in any order of arrival: if a message needs
  at most 255 fragments, which fit the caller's array, then fragmenting it succeeds, and
  feeding any permutation of the fragments to a fresh reassembly context reports completion
  exactly at the last one and delivers the original packet (fragmentation flags cleared,
  checksum recomputed) with the original payload.\<close>

theorem fragment_reassemble:
  assumes p: "wf_packet p" "payload p = Some data" "data \<noteq> []"
    and mtu: "0 < mtu" "mtu < 2 ^ 31" "length data \<le> 255 * mtu" and mid: "length mid = 16"
    and max: "int (num_frags (length data) mtu) \<le> max_frags"
    and mal: "\<forall>i. mal i"
  shows "\<exists>frags. koe_packet_fragment mal mid p max_frags mtu =
        Some (int (num_frags (length data) mtu), frags) \<and>
      length frags = num_frags (length data) mtu \<and>
      (\<forall>arrived. mset arrived = mset frags \<longrightarrow>
        (\<exists>ctx. reassemble_all mal zero_reassembly out arrived =
          Some (replicate (length frags - 1) 0 @ [1], ctx, restored p data)))"
proof -
  define n where "n = num_frags (length data) mtu"
  have n: "0 < n" "n \<le> 255" "length data \<le> n * mtu"
    using num_frags_bounds [OF mtu(1)] mtu(3) p(3) by (auto simp: n_def)
  have "length data < 2 ^ 32" using p unsigned_less [of "h_length (header p)", where 'a = nat] by (simp add: wf_packet_def)
  then have "koe_packet_fragment mal mid p max_frags mtu = Some (int n, all_frags p mid mtu data n)"
    using koe_packet_fragment_eq [OF p mtu(1) _ mal, of mid max_frags] mtu(2) n max
    by (simp add: n_def Let_def)
  moreover have "\<exists>ctx. reassemble_all mal zero_reassembly out arrived =
      Some (replicate (n - 1) 0 @ [1], ctx, restored p data)"
    if arr: "mset arrived = mset (all_frags p mid mtu data n)" for arrived
  proof -
    let ?f = "\<lambda>i. make_fragment p mid i (of_nat n) (frag_chunk mtu data i)"
    define idx where "idx f = unat (the (payload f) ! 16)" for f :: koe_packet
    have idx: "idx (?f i) = i" if "i < n" for i
      using that n(2) mid by (simp add: idx_def make_fragment_def Let_def nth_append unat_of_nat)
    have "mset (map idx arrived) = mset (map idx (map ?f [0..<n]))"
      using arr by (simp only: mset_map all_frags_def)
    also have "map idx (map ?f [0..<n]) = [0..<n]" unfolding map_map by (intro map_idI) (simp add: idx)
    finally have perm: "mset (map idx arrived) = mset [0..<n]" .
    have "set arrived = ?f ` {..<n}"
      using mset_eq_setD [OF arr] by (auto simp: all_frags_def)
    then have arrived: "map ?f (map idx arrived) = arrived"
      by (auto simp: idx intro!: map_idI)
    have "distinct (map idx arrived)" "set (map idx arrived) = {..<n}"
      using mset_eq_imp_distinct_iff [OF perm] mset_eq_setD [OF perm] by auto
    moreover from this have "length arrived = n"
      using distinct_card [of "map idx arrived"] by simp
    moreover have "\<forall>i<n. 18 + length (frag_chunk mtu data i) < 2 ^ 32"
      using mtu(2) by (auto simp: frag_chunk_def)
    moreover have "concat (map (frag_chunk mtu data) [0..<n]) = data"
      using n(3) by (simp add: concat_frag_chunks)
    ultimately show ?thesis
      using reassemble_any_order [OF mid _ n(2), where mal = mal and D = "{}"
          and ks = "map idx arrived" and chunk = "frag_chunk mtu data" and p = p and out = out]
        mal frag_inv_fresh n(1) arrived by auto
  qed
  ultimately show ?thesis by (auto simp: n_def all_frags_def)
qed

text \<open>A two-and-a-half chunk message, for the witnesses.\<close>

definition sample_packet :: "bytes \<Rightarrow> koe_packet" where
  "sample_packet data = \<lparr>header = (header (koe_packet_init (type_code KOE_TYPE_MSG) 1))
     \<lparr>h_length := of_nat (length data)\<rparr>, payload = Some data\<rparr>"

lemma wf_sample_packet [simp]: "length data < 2 ^ 32 \<Longrightarrow> wf_packet (sample_packet data)"
  by (simp add: sample_packet_def wf_packet_def wf_header_def unat_of_nat)

lemma payload_sample_packet [simp]: "payload (sample_packet data) = Some data"
  by (simp add: sample_packet_def)

theorem fragment_reassemble_witness:
  "\<exists>frags. koe_packet_fragment (\<lambda>_. True) (replicate 16 9) (sample_packet [1, 2, 3, 4, 5]) 10 2 =
      Some (3, frags) \<and>
    (\<exists>ctx. reassemble_all (\<lambda>_. True) zero_reassembly zero_packet (rev frags) =
      Some ([0, 0, 1], ctx, restored (sample_packet [1, 2, 3, 4, 5]) [1, 2, 3, 4, 5]))"
proof -
  have n: "num_frags (length [1, 2, 3, 4, 5 :: u8]) 2 = 3" by (simp add: num_frags_def)
  obtain frags where "koe_packet_fragment (\<lambda>_. True) (replicate 16 9) (sample_packet [1, 2, 3, 4, 5]) 10 2 =
      Some (3, frags)" and "length frags = 3"
    and "\<forall>arrived. mset arrived = mset frags \<longrightarrow>
      (\<exists>ctx. reassemble_all (\<lambda>_. True) zero_reassembly zero_packet arrived =
        Some (replicate (length frags - 1) 0 @ [1], ctx, restored (sample_packet [1, 2, 3, 4, 5]) [1, 2, 3, 4, 5]))"
    using fragment_reassemble [of "sample_packet [1, 2, 3, 4, 5]" "[1, 2, 3, 4, 5]" 2 "replicate 16 9" 10
        "\<lambda>_. True" zero_packet]
    unfolding n by auto
  then show ?thesis
    by (intro exI [of _ frags] conjI) (simp_all add: numeral_2_eq_2)
qed

text \<open>Which bytes the fragments carry: a successful fragmentation returns the number of
  fragments written, their data is a prefix of the payload, and it is the whole payload
  exactly when the message needs at most 255 fragments. A longer message is cut silently,
  because the fragment count is stored in a \<open>uint8_t\<close>.\<close>

theorem fragment_data_exact:
  assumes p: "wf_packet p" "payload p = Some data" "data \<noteq> []"
    and mtu: "0 < mtu" "mtu < 2 ^ 31" and mid: "length mid = 16" and mal: "\<forall>i. mal i"
    and res: "koe_packet_fragment mal mid p max_frags mtu = Some (r, frags)" "0 \<le> r"
  shows "r = int (length frags) \<and> r \<le> max_frags \<and>
    concat (map frag_data frags) = take (num_frags (length data) mtu mod 256 * mtu) data \<and>
    (concat (map frag_data frags) = data \<longleftrightarrow> length data \<le> 255 * mtu)"
proof -
  define n where "n = num_frags (length data) mtu mod 256"
  have "length data < 2 ^ 32"
    using p unsigned_less [of "h_length (header p)", where 'a = nat] by (simp add: wf_packet_def)
  then have rf: "r = int n" "frags = all_frags p mid mtu data n" "int n \<le> max_frags"
    using koe_packet_fragment_eq [OF p mtu(1) _ mal, of mid max_frags] mtu(2) res
    by (auto simp: n_def Let_def split: if_splits)
  have "map frag_data frags = map (frag_chunk mtu data) [0..<n]"
    using mid by (simp add: rf all_frags_def)
  then have cat: "concat (map frag_data frags) = take (n * mtu) data"
    by (simp add: concat_frag_chunks)
  have "length data \<le> n * mtu \<longleftrightarrow> length data \<le> 255 * mtu"
  proof
    assume "length data \<le> 255 * mtu"
    then have "num_frags (length data) mtu \<le> 255" using num_frags_bounds(2) [OF mtu(1)] by simp
    then show "length data \<le> n * mtu" using num_frags_bounds(1) [OF mtu(1)] by (simp add: n_def)
  next
    have "n \<le> 255" by (simp add: n_def)
    then have "n * mtu \<le> 255 * mtu" by (rule mult_le_mono1)
    moreover assume "length data \<le> n * mtu"
    ultimately show "length data \<le> 255 * mtu" by linarith
  qed
  moreover have "take (n * mtu) data = data \<longleftrightarrow> length data \<le> n * mtu"
    by (metis length_take min.cobounded2 take_all)
  ultimately show ?thesis using rf cat by (simp add: all_frags_def n_def)
qed

theorem fragment_data_exact_witness:
  "\<exists>frags. koe_packet_fragment (\<lambda>_. True) (replicate 16 9) (sample_packet (replicate 300 7)) 64 1 =
      Some (44, frags) \<and>
    concat (map frag_data frags) = replicate 44 7 \<and> concat (map frag_data frags) \<noteq> replicate 300 7"
proof -
  let ?d = "replicate 300 7 :: bytes"
  have n: "num_frags (length ?d) 1 mod 256 = 44" by (simp add: num_frags_def)
  have wf: "wf_packet (sample_packet ?d)" by simp
  obtain frags where f: "koe_packet_fragment (\<lambda>_. True) (replicate 16 9) (sample_packet ?d) 64 1 =
      Some (44, frags)"
    using koe_packet_fragment_eq [OF wf, of ?d 1 "\<lambda>_. True" "replicate 16 9" 64]
    unfolding n by (simp add: Let_def)
  show ?thesis
    using fragment_data_exact [OF wf _ _ _ _ _ _ f, of ?d] f unfolding n by simp
qed

text \<open>A fragment received twice is counted twice: when a two-fragment message's first
  fragment is delivered in duplicate, the reassembly reports completion and delivers only the
  first chunk as the whole message, although the second fragment never arrived.\<close>

theorem duplicate_fragment_completes:
  assumes "wf_packet p" and "payload p = Some data" and "mtu < length data" and "length data \<le> 2 * mtu"
    and "mtu < 2 ^ 31" and "length mid = 16" and "\<forall>i. mal i" and "2 \<le> max_frags"
  shows "\<exists>f0 f1 ctx. koe_packet_fragment mal mid p max_frags mtu = Some (2, [f0, f1]) \<and>
    reassemble_all mal zero_reassembly out [f0, f0] = Some ([0, 1], ctx, restored p (take mtu data))"
proof -
  have mtu: "0 < mtu" "data \<noteq> []" using assms(3,4) by auto
  have n: "num_frags (length data) mtu = 2"
    using num_frags_bounds(2) [OF mtu(1), of "length data" 1] num_frags_bounds(2) [OF mtu(1), of "length data" 2]
      assms(3,4) by simp
  let ?f = "\<lambda>i. make_fragment p mid i 2 (frag_chunk mtu data i)"
  have "length data < 2 ^ 32"
    using assms(1,2) unsigned_less [of "h_length (header p)", where 'a = nat] by (simp add: wf_packet_def)
  then have frag: "koe_packet_fragment mal mid p max_frags mtu = Some (2, [?f 0, ?f 1])"
    using koe_packet_fragment_eq [OF assms(1,2) mtu(2,1) _ assms(7), of mid max_frags] assms(5,8)
    unfolding n by (simp add: all_frags_def upt_rec)
  let ?d = "take mtu data"
  have d: "frag_chunk mtu data 0 = ?d" by (simp add: frag_chunk_def mem_read_def)
  have len: "length ?d = mtu" using assms(3) by simp
  let ?c1 = "ra_store zero_reassembly mid 2 0 ?d"
  let ?c2 = "ra_store ?c1 mid 2 0 ?d"
  have idx: "[0..<unat (ra_total_fragments ?c2)] = [0, 1]" by (simp add: ra_store_def upt_rec zero_reassembly_def)
  have "gather (ra_fragments ?c2) (ra_frag_lengths ?c2) [0, 1] = Some ?d"
    using assms(5) len by (simp add: ra_store_def zero_reassembly_def unat_of_nat)
  moreover have "sum_list (map (\<lambda>i. unat (ra_frag_lengths ?c2 ! i)) [0, 1]) = length ?d"
    using assms(5) len by (simp add: ra_store_def zero_reassembly_def unat_of_nat)
  ultimately have fin: "reassemble_finish mal ?c2 (make_fragment p mid 0 2 ?d) = Some (1,
      ?c2\<lparr>ra_fragments := fold (\<lambda>i fs. fs[i := NULL]) [0, 1] (ra_fragments ?c2)\<rparr>, restored p ?d)"
    using assms(7) idx by (intro reassemble_finish_make) simp_all
  have sel: "ra_received zero_reassembly = 0" "ra_received ?c1 = 1" "ra_total_fragments ?c1 = 2"
    "ra_msg_id ?c1 = mid" "ra_received ?c2 = 2" "ra_total_fragments ?c2 = 2"
    by (simp_all add: ra_store_def zero_reassembly_def)
  have "koe_packet_reassemble mal zero_reassembly (?f 0) out = Some (0, ?c1, out)"
    "koe_packet_reassemble mal ?c1 (?f 0) out = reassemble_finish mal ?c2 (?f 0)"
    using koe_packet_reassemble_fragment [of mid ?d 0 mal zero_reassembly p 2 out]
      koe_packet_reassemble_fragment [of mid ?d 0 mal ?c1 p 2 out] assms(5-7) len
    by (simp_all add: d sel Let_def)
  with frag fin show ?thesis by (simp add: d)
qed

theorem duplicate_fragment_completes_witness:
  "\<exists>f0 f1 ctx. koe_packet_fragment (\<lambda>_. True) (replicate 16 9) (sample_packet [1, 2, 3]) 8 2 =
      Some (2, [f0, f1]) \<and>
    reassemble_all (\<lambda>_. True) zero_reassembly zero_packet [f0, f0] =
      Some ([0, 1], ctx, restored (sample_packet [1, 2, 3]) [1, 2])"
  using duplicate_fragment_completes [of "sample_packet [1, 2, 3]" "[1, 2, 3]" 2 "replicate 16 9"
      "\<lambda>_. True" 8 zero_packet]
  by simp

end
