(* ===== verification/Koe_Event.thy ===== *)
theory Koe_Event
  imports Koe_Prelude
begin

text \<open>
  The event loop (\<^verbatim>\<open>src/koe_event.c\<close>): a ring of 512 events with free-running 32-bit head
  and tail counters, the listener table and the poll loop. Here posting and
  polling happen one after the other; \<open>Koe_Ring\<close> has the overlapping case. Listeners are
  function pointers; what a call does to the application state \<open>'s\<close> and to the loop itself is given by the parameter \<open>run\<close>, so a listener may post, register or
  unregister. A poll may then never return, so both loops are partial functions. The lemmas
  show that the ring implements a bounded queue that drops the oldest entry, that a poll
  delivers the pending events to the listeners in order, and what unregistering does to that
  order. The four timer pumps have empty bodies.
\<close>

section \<open>Events\<close>

datatype koe_event_type =
    KOE_EV_NONE
  | KOE_EV_MSG_RECEIVED | KOE_EV_MSG_DELIVERED | KOE_EV_MSG_READ | KOE_EV_MSG_FAILED
  | KOE_EV_PEER_ONLINE | KOE_EV_PEER_OFFLINE | KOE_EV_PEER_DISCOVERED
  | KOE_EV_PEER_TYPING | KOE_EV_PEER_STOPPED_TYPING
  | KOE_EV_HANDSHAKE_DONE | KOE_EV_SESSION_EXPIRED
  | KOE_EV_CALL_INCOMING | KOE_EV_CALL_ACCEPTED | KOE_EV_CALL_REJECTED | KOE_EV_CALL_ENDED
  | KOE_EV_CALL_AUDIO_FRAME
  | KOE_EV_CONTACT_REQUEST | KOE_EV_CONTACT_ACCEPTED | KOE_EV_CONTACT_BLOCKED | KOE_EV_CONTACT_VERIFIED
  | KOE_EV_MEDIA_OFFER | KOE_EV_MEDIA_ACCEPTED | KOE_EV_MEDIA_REJECTED | KOE_EV_MEDIA_PROGRESS
  | KOE_EV_MEDIA_DONE | KOE_EV_MEDIA_FAILED
  | KOE_EV_KEY_REVOKED | KOE_EV_IDENTITY_SWITCHED
  | KOE_EV_DESTRUCT_FIRED | KOE_EV_SCHEDULED_DUE
  | KOE_EV_QUEUE_DRAINED
  | KOE_EV_GROUP_MSG | KOE_EV_GROUP_MEMBER_JOIN | KOE_EV_GROUP_MEMBER_LEAVE | KOE_EV_GROUP_KICKED
  | KOE_EV_GROUP_META_UPDATE
  | KOE_EV_ERROR

record koe_ev_message =
  em_message_id :: u64
  em_from :: bytes
  em_body :: bytes
  em_body_len :: nat
  em_is_secret :: int
  em_sent_at :: unix_time
  em_destruct_ttl :: int

record koe_ev_peer =
  ep_pk :: bytes
  ep_transport :: int
  ep_addr :: string

record koe_ev_delivery =
  ed_message_id :: u64
  ed_error_code :: int

record koe_ev_typing =
  et_from :: bytes
  et_is_typing :: int

record koe_ev_media_offer =
  eo_from :: bytes
  eo_transfer_id :: string
  eo_filename :: string
  eo_mime_type :: string
  eo_file_size :: u64

record koe_ev_media_progress =
  eg_transfer_id :: string
  eg_chunks_done :: u32
  eg_chunks_total :: u32

record koe_ev_media_done =
  ef_transfer_id :: string
  ef_save_path :: string

record koe_ev_audio_frame =
  ea_samples :: "16 word list"
  ea_sample_count :: int

record koe_ev_group_msg =
  er_room_id :: string
  er_sender_pk :: bytes
  er_body :: bytes
  er_body_len :: nat

text \<open>The union of the payloads, tagged by the member last written.\<close>

datatype koe_event_data =
    EvZero
  | EvMessage koe_ev_message
  | EvPeer koe_ev_peer
  | EvDelivery koe_ev_delivery
  | EvTyping koe_ev_typing
  | EvMediaOffer koe_ev_media_offer
  | EvMediaProgress koe_ev_media_progress
  | EvMediaDone koe_ev_media_done
  | EvCall bytes
  | EvAudio koe_ev_audio_frame
  | EvGroupMsg koe_ev_group_msg
  | EvGroupMember string string
  | EvGroupMeta string string string
  | EvDestruct u64
  | EvError int string

record koe_event =
  ev_type :: koe_event_type
  ev_timestamp :: unix_time
  ev_suppressed :: int
  ev_data :: koe_event_data

definition zero_event :: koe_event where
  "zero_event = \<lparr>ev_type = KOE_EV_NONE, ev_timestamp = 0, ev_suppressed = 0, ev_data = EvZero\<rparr>"

section \<open>The ring\<close>

abbreviation (input) RING_SIZE :: nat where "RING_SIZE \<equiv> 512"

text \<open>\<open>tail & RING_MASK\<close>.\<close>

definition ring_slot :: "u32 \<Rightarrow> nat" where
  "ring_slot i = unat (i AND 511)"

record koe_ring =
  rg_events :: "koe_event list"
  rg_head :: u32
  rg_tail :: u32

definition ring_init :: koe_ring where
  "ring_init = \<lparr>rg_events = replicate RING_SIZE zero_event, rg_head = 0, rg_tail = 0\<rparr>"

definition ring_post :: "unix_time \<Rightarrow> koe_event \<Rightarrow> koe_ring \<Rightarrow> koe_ring" where
  "ring_post now ev r =
     (let tail = rg_tail r; head = rg_head r;
          r = (if tail - head \<ge> of_nat RING_SIZE then r\<lparr>rg_head := rg_head r + 1\<rparr> else r)
      in r\<lparr>rg_events := (rg_events r)[ring_slot tail := ev\<lparr>ev_timestamp := now\<rparr>], rg_tail := rg_tail r + 1\<rparr>)"

text \<open>The part of the poll loop that takes one event off the ring.\<close>

definition ring_pop :: "koe_ring \<Rightarrow> (koe_event \<times> koe_ring) option" where
  "ring_pop r =
     (let head = rg_head r; tail = rg_tail r
      in if head = tail then None
         else Some (rg_events r ! ring_slot head, r\<lparr>rg_head := head + 1\<rparr>))"

section \<open>Listeners and the loop\<close>

abbreviation (input) KOE_MAX_LISTENERS :: nat where "KOE_MAX_LISTENERS \<equiv> 32"

record koe_listener =
  ls_fn :: nat
  ls_ctx :: nat

record koe_loop =
  lp_ring :: koe_ring
  lp_listeners :: "koe_listener list"
  lp_listener_count :: nat
  lp_initialised :: bool

definition loop_start :: koe_loop where
  "loop_start = \<lparr>lp_ring = ring_init, lp_listeners = replicate KOE_MAX_LISTENERS \<lparr>ls_fn = 0, ls_ctx = 0\<rparr>,
     lp_listener_count = 0, lp_initialised = False\<rparr>"

definition ensure_init :: "koe_loop \<Rightarrow> koe_loop" where
  "ensure_init lp = (if \<not> lp_initialised lp then lp\<lparr>lp_ring := ring_init, lp_initialised := True\<rparr> else lp)"

definition koe_event_register :: "nat \<Rightarrow> nat \<Rightarrow> koe_loop \<Rightarrow> int \<times> koe_loop" where
  "koe_event_register cb ctx lp =
     (let lp = ensure_init lp
      in if lp_listener_count lp \<ge> KOE_MAX_LISTENERS then (-1, lp)
         else (0, lp\<lparr>lp_listeners := (lp_listeners lp)[lp_listener_count lp := \<lparr>ls_fn = cb, ls_ctx = ctx\<rparr>],
                     lp_listener_count := lp_listener_count lp + 1\<rparr>))"

definition koe_event_unregister :: "nat \<Rightarrow> koe_loop \<Rightarrow> int \<times> koe_loop" where
  "koe_event_unregister cb lp =
     (case find_idx (\<lambda>l. ls_fn l = cb) (take (lp_listener_count lp) (lp_listeners lp)) of
        None \<Rightarrow> (-1, lp)
      | Some i \<Rightarrow>
          let n = lp_listener_count lp - 1
          in (0, lp\<lparr>lp_listener_count := n, lp_listeners := (lp_listeners lp)[i := lp_listeners lp ! n]\<rparr>))"

definition koe_event_post :: "unix_time \<Rightarrow> koe_event \<Rightarrow> koe_loop \<Rightarrow> int \<times> koe_loop" where
  "koe_event_post now ev lp =
     (let lp = ensure_init lp in (0, lp\<lparr>lp_ring := ring_post now ev (lp_ring lp)\<rparr>))"

text \<open>\<open>run fn ev ctx s lp\<close> is the effect of calling the function pointer \<open>fn\<close>.\<close>

type_synonym 's listener_env = "nat \<Rightarrow> koe_event \<Rightarrow> nat \<Rightarrow> 's \<Rightarrow> koe_loop \<Rightarrow> 's \<times> koe_loop"

partial_function (option) call_listeners ::
  "'s listener_env \<Rightarrow> koe_event \<Rightarrow> nat \<Rightarrow> 's \<Rightarrow> koe_loop \<Rightarrow> ('s \<times> koe_loop) option" where
  "call_listeners run ev i s lp =
     (if i < lp_listener_count lp
      then case run (ls_fn (lp_listeners lp ! i)) ev (ls_ctx (lp_listeners lp ! i)) s lp of
             (s, lp) \<Rightarrow> call_listeners run ev (Suc i) s lp
      else Some (s, lp))"

text \<open>\<open>plug\<close> is \<open>koe_plugin_dispatch\<close> on the registry, if one is set.\<close>

partial_function (option) poll_loop ::
  "'s listener_env \<Rightarrow> (koe_event \<Rightarrow> koe_event) option \<Rightarrow> 's \<Rightarrow> koe_loop \<Rightarrow> int \<Rightarrow> (int \<times> 's \<times> koe_loop) option" where
  "poll_loop run plug s lp dispatched =
     (case ring_pop (lp_ring lp) of
        None \<Rightarrow> Some (dispatched, s, lp)
      | Some (ev, r) \<Rightarrow>
          let lp = lp\<lparr>lp_ring := r\<rparr>;
              ev = (if ev_type ev = KOE_EV_MSG_RECEIVED \<or> ev_type ev = KOE_EV_MEDIA_OFFER
                    then (case plug of None \<Rightarrow> ev | Some f \<Rightarrow> f ev) else ev)
          in Option.bind (if ev_suppressed ev = 0 then call_listeners run ev 0 s lp else Some (s, lp))
               (\<lambda>(s, lp). poll_loop run plug s lp (dispatched + 1)))"

definition koe_event_poll ::
  "'s listener_env \<Rightarrow> (koe_event \<Rightarrow> koe_event) option \<Rightarrow> 's \<Rightarrow> koe_loop \<Rightarrow> (int \<times> 's \<times> koe_loop) option" where
  "koe_event_poll run plug s lp = poll_loop run plug s lp 0"

section \<open>The ring as a bounded queue\<close>

text \<open>A queue of bounded capacity whose push drops the oldest entry when it is full.\<close>

locale dropping_fifo =
  fixes ok :: "'q \<Rightarrow> bool"
    and items :: "'q \<Rightarrow> 'a list"
    and cap :: nat
    and push :: "'a \<Rightarrow> 'q \<Rightarrow> 'q"
    and pop :: "'q \<Rightarrow> ('a \<times> 'q) option"
  assumes cap_pos: "0 < cap"
    and items_cap: "ok q \<Longrightarrow> length (items q) \<le> cap"
    and push_ok: "ok q \<Longrightarrow> ok (push x q)"
    and push_items: "ok q \<Longrightarrow> items (push x q) = (if length (items q) = cap then tl (items q) else items q) @ [x]"
    and pop_empty: "ok q \<Longrightarrow> pop q = None \<longleftrightarrow> items q = []"
    and pop_some: "ok q \<Longrightarrow> pop q = Some (x, q') \<Longrightarrow> ok q' \<and> items q = x # items q'"
begin

lemma push_all:
  "ok q \<Longrightarrow> ok (fold push xs q)
     \<and> items (fold push xs q) = drop (length (items q) + length xs - cap) (items q @ xs)"
proof (induction xs arbitrary: q)
  case Nil
  then show ?case using items_cap [OF Nil] by simp
next
  case (Cons x xs)
  note IH = Cons.IH [OF push_ok [OF Cons.prems, of x]]
  show ?case
  proof (cases "length (items q) = cap")
    case True
    then obtain y ys where ys: "items q = y # ys" using cap_pos by (cases "items q") auto
    then have "cap = Suc (length ys)" using True by simp
    then show ?thesis using IH ys push_items [OF Cons.prems, of x] by simp
  next
    case False
    then show ?thesis using IH push_items [OF Cons.prems, of x] by simp
  qed
qed

lemma pop_cases:
  assumes "ok q"
  obtains "items q = []" "pop q = None"
    | x q' where "pop q = Some (x, q')" "ok q'" "items q = x # items q'"
  using assms pop_empty [OF assms] pop_some [OF assms] by (cases "pop q") auto

end

definition ring_ok :: "koe_ring \<Rightarrow> bool" where
  "ring_ok r \<longleftrightarrow> length (rg_events r) = RING_SIZE \<and> unat (rg_tail r - rg_head r) \<le> RING_SIZE"

definition ring_items :: "koe_ring \<Rightarrow> koe_event list" where
  "ring_items r = map (\<lambda>k. rg_events r ! ring_slot (rg_head r + of_nat k)) [0..<unat (rg_tail r - rg_head r)]"

lemma ring_slot_eq: "ring_slot w = unat w mod 512"
  using arg_cong [OF take_bit_eq_mask [of 9 w], of unat]
  by (simp add: ring_slot_def mask_eq_exp_minus_1 unsigned_take_bit_eq take_bit_eq_mod unat_mod)

lemma ring_slot_less [simp]: "ring_slot w < 512"
  by (simp add: ring_slot_eq)

lemma ring_slot_add: "ring_slot (w + of_nat k) = (ring_slot w + k) mod 512"
proof -
  have "unat (w + of_nat k) mod 512 = (unat w + k) mod 512"
    by (simp add: unat_word_ariths unat_of_nat mod_mod_cancel mod_add_right_eq)
  then show ?thesis by (simp add: ring_slot_eq mod_add_left_eq)
qed

lemma ring_init_ok: "ring_ok ring_init \<and> ring_items ring_init = []"
  by (simp add: ring_ok_def ring_items_def ring_init_def)

lemma ring_items_length: "length (ring_items r) = unat (rg_tail r - rg_head r)"
  by (simp add: ring_items_def)

lemma ring_ok_cap: "ring_ok r \<Longrightarrow> length (ring_items r) \<le> RING_SIZE"
  by (simp add: ring_ok_def ring_items_length)

lemma ring_items_drop_head:
  assumes "rg_head r \<noteq> rg_tail r"
  shows "ring_items r = rg_events r ! ring_slot (rg_head r) # ring_items (r\<lparr>rg_head := rg_head r + 1\<rparr>)"
proof -
  have n: "unat (rg_tail r - rg_head r) = Suc (unat (rg_tail r - (rg_head r + 1)))"
    using assms unat_minus_one [of "rg_tail r - rg_head r"]
    by (simp add: algebra_simps unat_gt_0)
  show ?thesis
    by (simp add: ring_items_def n upt_rec [of 0] map_Suc_upt [symmetric] ac_simps del: upt_Suc)
qed

lemma ring_slot_apart:
  assumes "k < unat (rg_tail r - rg_head r)" and "unat (rg_tail r - rg_head r) < 512"
  shows "ring_slot (rg_head r + of_nat k) \<noteq> ring_slot (rg_tail r)"
proof
  define n where "n = unat (rg_tail r - rg_head r)"
  have kn: "k < n" "n < 512" using assms by (simp_all add: n_def)
  have t: "rg_tail r = rg_head r + of_nat n" by (simp add: n_def)
  assume "ring_slot (rg_head r + of_nat k) = ring_slot (rg_tail r)"
  then have "512 dvd n - k"
    using kn(1) mod_eq_dvd_iff_nat [of "ring_slot (rg_head r) + k" "ring_slot (rg_head r) + n" 512]
    by (simp add: t ring_slot_add)
  then show False using kn by (auto dest: dvd_imp_le)
qed

lemma ring_items_write_tail:
  assumes "unat (rg_tail r - rg_head r) < 512"
  shows "ring_items (r\<lparr>rg_events := (rg_events r)[ring_slot (rg_tail r) := e]\<rparr>) = ring_items r"
  using ring_slot_apart [OF _ assms, THEN not_sym] by (simp add: ring_items_def)

lemma ring_items_publish:
  assumes "unat (rg_tail r - rg_head r) < 512"
  shows "unat (rg_tail r + 1 - rg_head r) = Suc (unat (rg_tail r - rg_head r))"
    and "ring_items (r\<lparr>rg_tail := rg_tail r + 1\<rparr>) = ring_items r @ [rg_events r ! ring_slot (rg_tail r)]"
proof -
  define n where "n = unat (rg_tail r - rg_head r)"
  have t: "rg_tail r = rg_head r + of_nat n" by (simp add: n_def)
  have "rg_tail r + 1 - rg_head r = of_nat (Suc n)" unfolding t by simp
  then have sn: "unat (rg_tail r + 1 - rg_head r) = Suc n"
    using assms unat_of_nat_small [of "Suc n", where 'a = 32] by (simp only: n_def) simp
  then show "unat (rg_tail r + 1 - rg_head r) = Suc (unat (rg_tail r - rg_head r))" by (simp add: n_def)
  show "ring_items (r\<lparr>rg_tail := rg_tail r + 1\<rparr>) = ring_items r @ [rg_events r ! ring_slot (rg_tail r)]"
    by (simp add: ring_items_def sn n_def [symmetric] t [symmetric])
qed

lemma ring_items_append_tail:
  assumes "ring_ok r" "unat (rg_tail r - rg_head r) < 512"
  shows "ring_items (r\<lparr>rg_events := (rg_events r)[ring_slot (rg_tail r) := e], rg_tail := rg_tail r + 1\<rparr>)
    = ring_items r @ [e]"
  using ring_items_publish(2) [of "r\<lparr>rg_events := (rg_events r)[ring_slot (rg_tail r) := e]\<rparr>"]
    ring_items_write_tail [OF assms(2)] assms by (simp add: ring_ok_def)

lemma ring_post_ok: "ring_ok r \<Longrightarrow> ring_ok (ring_post now ev r)"
  and ring_post_items: "ring_ok r \<Longrightarrow> ring_items (ring_post now ev r)
    = (if length (ring_items r) = RING_SIZE then tl (ring_items r) else ring_items r) @ [ev\<lparr>ev_timestamp := now\<rparr>]"
proof -
  assume ok: "ring_ok r"
  define r' where "r' = (if rg_tail r - rg_head r \<ge> of_nat RING_SIZE then r\<lparr>rg_head := rg_head r + 1\<rparr> else r)"
  have post: "ring_post now ev r
    = r'\<lparr>rg_events := (rg_events r')[ring_slot (rg_tail r') := ev\<lparr>ev_timestamp := now\<rparr>], rg_tail := rg_tail r' + 1\<rparr>"
    by (simp add: ring_post_def r'_def Let_def)
  have full: "rg_tail r - rg_head r \<ge> of_nat RING_SIZE \<longleftrightarrow> length (ring_items r) = RING_SIZE"
    using ok by (auto simp: word_le_nat_alt ring_ok_def ring_items_length)
  have items: "ring_items r' = (if length (ring_items r) = RING_SIZE then tl (ring_items r) else ring_items r)"
  proof (cases "length (ring_items r) = RING_SIZE")
    case True
    then have "rg_head r \<noteq> rg_tail r" by (auto simp: ring_items_length)
    from ring_items_drop_head [OF this] True full show ?thesis by (simp add: r'_def)
  qed (use full in \<open>simp add: r'_def\<close>)
  have lt: "unat (rg_tail r' - rg_head r') < 512"
    using items ok by (auto simp: ring_ok_def simp flip: ring_items_length split: if_splits)
  have ok': "ring_ok r'" using ok lt by (auto simp: ring_ok_def r'_def)
  show i: "ring_items (ring_post now ev r)
    = (if length (ring_items r) = RING_SIZE then tl (ring_items r) else ring_items r) @ [ev\<lparr>ev_timestamp := now\<rparr>]"
    using ring_items_append_tail [OF ok' lt] by (simp add: post items)
  have "length (ring_items (ring_post now ev r)) \<le> 512"
    using i ok by (auto simp: ring_ok_def simp flip: ring_items_length)
  then show "ring_ok (ring_post now ev r)"
    using ok' by (simp add: ring_ok_def ring_items_length post)
qed

lemma ring_pop_empty: "ring_pop r = None \<longleftrightarrow> ring_items r = []"
  by (auto simp: ring_pop_def ring_items_def Let_def unat_eq_0)

lemma ring_pop_some:
  assumes "ring_ok r" "ring_pop r = Some (ev, r')"
  shows "ring_ok r' \<and> ring_items r = ev # ring_items r'"
proof -
  have ne: "rg_head r \<noteq> rg_tail r" and r': "r' = r\<lparr>rg_head := rg_head r + 1\<rparr>"
    and ev: "ev = rg_events r ! ring_slot (rg_head r)"
    using assms(2) by (auto simp: ring_pop_def Let_def split: if_splits)
  have items: "ring_items r = ev # ring_items r'"
    using ring_items_drop_head [OF ne] by (simp add: r' ev)
  then have "length (ring_items r') \<le> 512"
    using assms(1) by (simp add: ring_ok_def flip: ring_items_length)
  then show ?thesis using assms(1) items by (simp add: ring_ok_def ring_items_length r')
qed

interpretation ring: dropping_fifo ring_ok ring_items RING_SIZE
  "\<lambda>ev. ring_post (ev_timestamp ev) ev" ring_pop
  by unfold_locales
     (auto simp: ring_post_ok ring_post_items ring_pop_empty ring_ok_cap dest: ring_pop_some)

section \<open>The loop\<close>

definition stamp :: "unix_time \<times> koe_event \<Rightarrow> koe_event" where
  "stamp p = (snd p)\<lparr>ev_timestamp := fst p\<rparr>"

definition loop_ok :: "koe_loop \<Rightarrow> bool" where
  "loop_ok lp \<longleftrightarrow> ring_ok (lp_ring lp) \<and> length (lp_listeners lp) = KOE_MAX_LISTENERS
     \<and> lp_listener_count lp \<le> KOE_MAX_LISTENERS \<and> (\<not> lp_initialised lp \<longrightarrow> ring_items (lp_ring lp) = [])"

abbreviation pending :: "koe_loop \<Rightarrow> koe_event list" where
  "pending lp \<equiv> ring_items (lp_ring lp)"

abbreviation listeners :: "koe_loop \<Rightarrow> koe_listener list" where
  "listeners lp \<equiv> take (lp_listener_count lp) (lp_listeners lp)"

definition post_all :: "(unix_time \<times> koe_event) list \<Rightarrow> koe_loop \<Rightarrow> koe_loop" where
  "post_all evs = fold (\<lambda>(now, ev) lp. snd (koe_event_post now ev lp)) evs"

lemma ring_post_stamp: "ring_post now ev = ring_post (ev_timestamp (stamp (now, ev))) (stamp (now, ev))"
  by (rule ext) (simp add: ring_post_def stamp_def Let_def)

lemma loop_start_ok: "loop_ok loop_start"
  using ring_init_ok by (simp add: loop_ok_def loop_start_def)

lemma ensure_init_ok:
  "loop_ok lp \<Longrightarrow> loop_ok (ensure_init lp) \<and> pending (ensure_init lp) = pending lp
     \<and> lp_listeners (ensure_init lp) = lp_listeners lp \<and> lp_initialised (ensure_init lp)
     \<and> lp_listener_count (ensure_init lp) = lp_listener_count lp"
  using ring_init_ok by (simp add: ensure_init_def loop_ok_def)

lemma koe_event_post_ok:
  assumes "loop_ok lp"
  shows "loop_ok (snd (koe_event_post now ev lp)) \<and> listeners (snd (koe_event_post now ev lp)) = listeners lp
    \<and> pending (snd (koe_event_post now ev lp))
      = pending (lp\<lparr>lp_ring := ring_post (ev_timestamp (stamp (now, ev))) (stamp (now, ev)) (lp_ring (ensure_init lp))\<rparr>)"
  using assms ensure_init_ok [OF assms] ring_post_ok
  by (simp add: koe_event_post_def Let_def loop_ok_def ring_post_stamp [of now])

lemma post_all_ok:
  "loop_ok lp \<Longrightarrow> loop_ok (post_all evs lp) \<and> listeners (post_all evs lp) = listeners lp
     \<and> pending (post_all evs lp)
       = drop (length (pending lp) + length evs - RING_SIZE) (pending lp @ map stamp evs)"
proof (induction evs arbitrary: lp)
  case Nil
  then show ?case by (simp add: post_all_def loop_ok_def ring.items_cap)
next
  case (Cons e evs)
  obtain now ev where e: "e = (now, ev)" by (cases e)
  let ?lp = "snd (koe_event_post now ev lp)"
  have i: "ring_ok (lp_ring (ensure_init lp))" "pending (ensure_init lp) = pending lp"
    using ensure_init_ok [OF Cons.prems] by (auto simp: loop_ok_def)
  have "pending ?lp = drop (length (pending lp) + 1 - RING_SIZE) (pending lp @ [stamp e])"
    using koe_event_post_ok [OF Cons.prems, of now ev] ring.push_all [OF i(1), of "[stamp e]"] i(2) e by simp
  moreover have "length (pending lp) \<le> 512" using Cons.prems by (simp add: loop_ok_def ring_ok_cap)
  moreover from this have "length (pending lp) + length evs - (length (pending lp) - 511 + 511) + (length (pending lp) - 511)
    = length (pending lp) + length evs - 511" by arith
  ultimately show ?case
    using Cons.IH [of ?lp] koe_event_post_ok [OF Cons.prems, of now ev]
    by (simp add: post_all_def e drop_Cons' split: if_splits)
qed

text \<open>C24. The ring is a bounded queue that drops the oldest: after any sequence of posts, on any
  well-formed loop, exactly the last 512 of the already pending and the posted events are
  pending, in order and stamped with the time of their post, wherever the 32-bit counters
  stand.\<close>

theorem event_ring_refines_fifo:
  assumes "loop_ok lp"
  shows "loop_ok (post_all evs lp)
    \<and> pending (post_all evs lp)
        = drop (length (pending lp @ map stamp evs) - RING_SIZE) (pending lp @ map stamp evs)"
  using post_all_ok [OF assms, of evs] by simp

theorem event_ring_refines_fifo_witness:
  "loop_ok loop_start \<and> pending (post_all (replicate 600 (7, zero_event)) loop_start)
     = replicate 512 (zero_event\<lparr>ev_timestamp := 7\<rparr>)"
  using event_ring_refines_fifo [OF loop_start_ok, of "replicate 600 (7, zero_event)"] loop_start_ok ring_init_ok
  by (simp add: stamp_def loop_start_def)

text \<open>A listener that only changes the application state.\<close>

definition passive_env :: "(nat \<Rightarrow> koe_event \<Rightarrow> nat \<Rightarrow> 's \<Rightarrow> 's) \<Rightarrow> 's listener_env" where
  "passive_env act = (\<lambda>cb ev ctx s lp. (act cb ev ctx s, lp))"

text \<open>What a plugin registry makes of an event.\<close>

definition plugged :: "(koe_event \<Rightarrow> koe_event) option \<Rightarrow> koe_event \<Rightarrow> koe_event" where
  "plugged plug ev = (case plug of None \<Rightarrow> ev | Some f \<Rightarrow>
     if ev_type ev \<in> {KOE_EV_MSG_RECEIVED, KOE_EV_MEDIA_OFFER} then f ev else ev)"

definition deliver :: "(nat \<Rightarrow> koe_event \<Rightarrow> nat \<Rightarrow> 's \<Rightarrow> 's) \<Rightarrow> koe_listener list \<Rightarrow> koe_event \<Rightarrow> 's \<Rightarrow> 's" where
  "deliver act ls ev s =
     (if ev_suppressed ev = 0 then fold (\<lambda>l. act (ls_fn l) ev (ls_ctx l)) ls s else s)"

lemma call_listeners_passive:
  assumes "lp_listener_count lp \<le> length (lp_listeners lp)"
  shows "call_listeners (passive_env act) ev i s lp
    = Some (fold (\<lambda>l. act (ls_fn l) ev (ls_ctx l)) (drop i (listeners lp)) s, lp)"
proof (induction "lp_listener_count lp - i" arbitrary: i s)
  case 0
  then show ?case by (simp add: call_listeners.simps)
next
  case (Suc n)
  then have i: "i < lp_listener_count lp" by simp
  then have "drop i (listeners lp) = lp_listeners lp ! i # drop (Suc i) (listeners lp)"
    using assms by (simp add: Cons_nth_drop_Suc [symmetric])
  then show ?case using Suc i by (subst call_listeners.simps) (simp add: passive_env_def)
qed

lemma poll_loop_passive:
  "loop_ok lp \<Longrightarrow> \<exists>lp'. poll_loop (passive_env act) plug s lp d
     = Some (d + int (length (pending lp)),
             fold (\<lambda>ev. deliver act (listeners lp) (plugged plug ev)) (pending lp) s, lp')
     \<and> loop_ok lp' \<and> pending lp' = [] \<and> listeners lp' = listeners lp"
proof (induction "pending lp" arbitrary: lp s d)
  case Nil
  then have "ring_pop (lp_ring lp) = None" by (simp add: ring_pop_empty)
  then show ?case using Nil by (subst poll_loop.simps) simp
next
  case (Cons ev evs)
  then obtain r where r: "ring_pop (lp_ring lp) = Some (ev, r)" "ring_ok r" "evs = ring_items r"
    by (metis loop_ok_def ring.pop_cases list.distinct(1) list.inject)
  let ?lp = "lp\<lparr>lp_ring := r\<rparr>"
  let ?s = "deliver act (listeners lp) (plugged plug ev) s"
  have ok: "loop_ok ?lp" using Cons.prems Cons.hyps(2) r by (auto simp: loop_ok_def)
  have "poll_loop (passive_env act) plug s lp d = poll_loop (passive_env act) plug ?s ?lp (d + 1)"
    using r Cons.prems
    by (subst poll_loop.simps)
       (simp add: Let_def call_listeners_passive loop_ok_def deliver_def plugged_def split: option.splits)
  then show ?case
    using Cons.hyps(1) [of ?lp ?s "d + 1"] ok r Cons.hyps(2) [symmetric] by (simp add: algebra_simps)
qed

text \<open>C25. A poll delivers every pending event exactly once: with listeners that do not touch the
  loop, polling returns, reports the number of pending events, has called all registered
  listeners in table order for each event in posting order (after the plugins had their say on
  messages and media offers, and not at all for an event marked suppressed), and leaves the
  ring empty and the listeners as they were.\<close>

theorem event_poll_delivers_in_order:
  assumes "loop_ok lp"
  shows "\<exists>lp'. koe_event_poll (passive_env act) plug s lp
      = Some (int (length (pending lp)),
              fold (\<lambda>ev. deliver act (listeners lp) (plugged plug ev)) (pending lp) s, lp')
    \<and> loop_ok lp' \<and> pending lp' = [] \<and> listeners lp' = listeners lp"
  using poll_loop_passive [OF assms, of act plug s 0] by (simp add: koe_event_poll_def)

text \<open>A listener that records what it was called with, and a loop with two of them.\<close>

definition record_call :: "nat \<Rightarrow> koe_event \<Rightarrow> nat \<Rightarrow> (nat \<times> koe_event_type) list \<Rightarrow> (nat \<times> koe_event_type) list" where
  "record_call cb ev ctx log = log @ [(cb, ev_type ev)]"

definition sample_loop :: koe_loop where
  "sample_loop = post_all [(1, zero_event\<lparr>ev_type := KOE_EV_MSG_RECEIVED\<rparr>), (2, zero_event\<lparr>ev_type := KOE_EV_ERROR\<rparr>)]
     (snd (koe_event_register 20 0 (snd (koe_event_register 10 0 loop_start))))"

lemma koe_event_register_ok:
  assumes "loop_ok lp"
  shows "loop_ok (snd (koe_event_register cb ctx lp)) \<and> pending (snd (koe_event_register cb ctx lp)) = pending lp
    \<and> (if lp_listener_count lp < KOE_MAX_LISTENERS
       then fst (koe_event_register cb ctx lp) = 0
         \<and> listeners (snd (koe_event_register cb ctx lp)) = listeners lp @ [\<lparr>ls_fn = cb, ls_ctx = ctx\<rparr>]
       else fst (koe_event_register cb ctx lp) = -1 \<and> listeners (snd (koe_event_register cb ctx lp)) = listeners lp)"
  using assms ensure_init_ok [OF assms]
  by (auto simp: koe_event_register_def Let_def loop_ok_def take_Suc_conv_app_nth)

lemma sample_loop_facts:
  "loop_ok sample_loop" "listeners sample_loop = [\<lparr>ls_fn = 10, ls_ctx = 0\<rparr>, \<lparr>ls_fn = 20, ls_ctx = 0\<rparr>]"
  "pending sample_loop = [zero_event\<lparr>ev_type := KOE_EV_MSG_RECEIVED, ev_timestamp := 1\<rparr>,
     zero_event\<lparr>ev_type := KOE_EV_ERROR, ev_timestamp := 2\<rparr>]"
proof -
  let ?a = "snd (koe_event_register 10 0 loop_start)"
  let ?b = "snd (koe_event_register 20 0 ?a)"
  have a: "loop_ok ?a" "pending ?a = []" "listeners ?a = [\<lparr>ls_fn = 10, ls_ctx = 0\<rparr>]" "lp_listener_count ?a = 1"
    using koe_event_register_ok [OF loop_start_ok, of 10 0] ring_init_ok
    by (auto simp: loop_start_def koe_event_register_def ensure_init_def)
  have b: "loop_ok ?b" "pending ?b = []" "listeners ?b = [\<lparr>ls_fn = 10, ls_ctx = 0\<rparr>, \<lparr>ls_fn = 20, ls_ctx = 0\<rparr>]"
    using koe_event_register_ok [OF a(1), of 20 0] a by auto
  show "loop_ok sample_loop" "listeners sample_loop = [\<lparr>ls_fn = 10, ls_ctx = 0\<rparr>, \<lparr>ls_fn = 20, ls_ctx = 0\<rparr>]"
    "pending sample_loop = [zero_event\<lparr>ev_type := KOE_EV_MSG_RECEIVED, ev_timestamp := 1\<rparr>,
     zero_event\<lparr>ev_type := KOE_EV_ERROR, ev_timestamp := 2\<rparr>]"
    using post_all_ok [OF b(1), of "[(1, zero_event\<lparr>ev_type := KOE_EV_MSG_RECEIVED\<rparr>), (2, zero_event\<lparr>ev_type := KOE_EV_ERROR\<rparr>)]"] b(2,3)
    by (simp_all add: sample_loop_def stamp_def)
qed

theorem event_poll_delivers_in_order_witness:
  "loop_ok sample_loop \<and> (\<exists>lp'. koe_event_poll (passive_env record_call) None [] sample_loop
     = Some (2, [(10, KOE_EV_MSG_RECEIVED), (20, KOE_EV_MSG_RECEIVED), (10, KOE_EV_ERROR), (20, KOE_EV_ERROR)], lp'))"
  using event_poll_delivers_in_order [OF sample_loop_facts(1), of record_call None "[]"] sample_loop_facts
  by (auto simp: deliver_def plugged_def record_call_def zero_event_def)

text \<open>Unregistering moves the last listener into the freed place: the first entry with that
  function pointer goes, the others all stay, but the one registered last now runs where the
  removed one ran, before listeners that registered earlier. An unknown function pointer is
  reported and changes nothing.\<close>

theorem event_unregister_moves_last:
  assumes "loop_ok lp" and "listeners lp = xs @ l # ys @ [z]" and "\<forall>x\<in>set xs. ls_fn x \<noteq> ls_fn l"
  shows "fst (koe_event_unregister (ls_fn l) lp) = 0
    \<and> listeners (snd (koe_event_unregister (ls_fn l) lp)) = xs @ z # ys
    \<and> ((\<forall>x\<in>set (listeners lp). ls_fn x \<noteq> cb) \<longrightarrow> koe_event_unregister cb lp = (-1, lp))"
proof -
  let ?n = "lp_listener_count lp" and ?ls = "lp_listeners lp"
  have f: "find_idx (\<lambda>x. ls_fn x = ls_fn l) (listeners lp) = Some (length xs)"
    using find_idx_append [of xs "\<lambda>x. ls_fn x = ls_fn l" l "ys @ [z]"] assms(2,3) by simp
  have n: "?n = Suc (Suc (length xs + length ys))"
    using arg_cong [OF assms(2), of length] assms(1) by (simp add: loop_ok_def)
  have z: "?ls ! (?n - 1) = z"
    using n arg_cong [OF assms(2), of "\<lambda>L. L ! (?n - 1)"] by (simp add: nth_append)
  have "take (?n - 1) (?ls[length xs := z]) = take (?n - 1) ((listeners lp)[length xs := z])"
    by (simp add: take_update_swap min_def)
  also have "\<dots> = xs @ z # ys" unfolding assms(2) by (simp add: n)
  finally show ?thesis
    using f z find_idx_None [of "\<lambda>x. ls_fn x = cb" "listeners lp"]
    by (auto simp: koe_event_unregister_def Let_def simp del: find_idx_None)
qed

theorem event_unregister_moves_last_witness:
  "listeners sample_loop = [] @ \<lparr>ls_fn = 10, ls_ctx = 0\<rparr> # [] @ [\<lparr>ls_fn = 20, ls_ctx = 0\<rparr>]
     \<and> listeners (snd (koe_event_unregister 10 sample_loop)) = [\<lparr>ls_fn = 20, ls_ctx = 0\<rparr>]
     \<and> fst (koe_event_unregister 30 sample_loop) = -1"
  using event_unregister_moves_last [OF sample_loop_facts(1), of "[]" "\<lparr>ls_fn = 10, ls_ctx = 0\<rparr>" "[]" _ 30] sample_loop_facts(2)
  by simp

section \<open>Listeners that post\<close>

definition echo_env :: "'s listener_env" where
  "echo_env = (\<lambda>cb ev ctx s lp. (s, snd (koe_event_post 0 ev lp)))"

lemma koe_event_post_count: "lp_listener_count (snd (koe_event_post now ev lp)) = lp_listener_count lp"
  by (simp add: koe_event_post_def ensure_init_def Let_def)

lemma call_listeners_echo:
  "call_listeners echo_env ev i s lp = Some (s, post_all (replicate (lp_listener_count lp - i) (0, ev)) lp)"
proof (induction "lp_listener_count lp - i" arbitrary: i lp)
  case 0
  then show ?case by (simp add: call_listeners.simps post_all_def)
next
  case (Suc n)
  then have i: "i < lp_listener_count lp" "lp_listener_count lp - i = Suc (lp_listener_count lp - Suc i)" by auto
  then show ?case
    using Suc.hyps(1) [of "snd (koe_event_post 0 ev lp)" "Suc i"] Suc.hyps(2)
    by (subst call_listeners.simps) (simp add: echo_env_def koe_event_post_count post_all_def)
qed

lemma post_all_count: "lp_listener_count (post_all evs lp) = lp_listener_count lp"
  by (induction evs arbitrary: lp) (auto simp: post_all_def koe_event_post_count)

text \<open>The loops on which echoing listeners keep a poll running.\<close>

definition busy :: "koe_loop \<Rightarrow> bool" where
  "busy lp \<longleftrightarrow> loop_ok lp \<and> 0 < lp_listener_count lp \<and> pending lp \<noteq> []
     \<and> (\<forall>ev\<in>set (pending lp). ev_suppressed ev = 0)"

lemma busy_step:
  assumes "busy lp" "ring_pop (lp_ring lp) = Some (ev, r)"
  shows "ev_suppressed ev = 0 \<and> busy (post_all (replicate (lp_listener_count lp) (0, ev)) (lp\<lparr>lp_ring := r\<rparr>))"
proof -
  have r: "ring_ok r" "pending lp = ev # ring_items r" and sup: "ev_suppressed ev = 0"
    using assms ring_pop_some [of "lp_ring lp"] by (auto simp: busy_def loop_ok_def)
  let ?evs = "replicate (lp_listener_count lp) (0, ev)" and ?lp = "lp\<lparr>lp_ring := r\<rparr>"
  have ok: "loop_ok ?lp" using assms r by (auto simp: loop_ok_def busy_def)
  note p = post_all_ok [OF ok, of ?evs]
  have "set (pending (post_all ?evs ?lp)) \<subseteq> set (ring_items r @ map stamp ?evs)"
    using p set_drop_subset by fastforce
  moreover have "pending (post_all ?evs ?lp) \<noteq> []"
    using p assms(1) by (auto simp: busy_def)
  moreover have "\<forall>e\<in>set (ring_items r @ map stamp ?evs). ev_suppressed e = 0"
    using assms(1) r sup by (auto simp: busy_def stamp_def)
  ultimately show ?thesis using p sup assms(1) by (auto simp: busy_def post_all_count)
qed

text \<open>A listener that answers every event with another one keeps a poll from ever
  returning: the loop re-reads the tail after each dispatch, so an event posted during a poll
  is delivered by that same poll.\<close>

theorem event_poll_diverges_on_echo:
  assumes "busy lp"
  shows "koe_event_poll echo_env None s lp = None"
proof -
  have "\<not> (run = echo_env \<and> plug = None \<and> busy lp)"
    if "poll_loop run plug s lp d = Some y" for run :: "'a listener_env" and plug s lp d y
    using that
  proof (rule poll_loop.raw_induct [where P = "\<lambda>run plug s lp d y. \<not> (run = echo_env \<and> plug = None \<and> busy lp)", rotated])
    fix loop and run :: "'a listener_env" and plug s lp d y
    assume IH: "\<And>run plug s lp d y. loop run plug s lp d = Some y \<Longrightarrow> \<not> (run = echo_env \<and> plug = None \<and> busy lp)"
      and body: "(case ring_pop (lp_ring lp) of
          None \<Rightarrow> Some (d, s, lp)
        | Some (ev, r) \<Rightarrow>
            let lp = lp\<lparr>lp_ring := r\<rparr>;
                ev = (if ev_type ev = KOE_EV_MSG_RECEIVED \<or> ev_type ev = KOE_EV_MEDIA_OFFER
                      then (case plug of None \<Rightarrow> ev | Some f \<Rightarrow> f ev) else ev)
            in Option.bind (if ev_suppressed ev = 0 then call_listeners run ev 0 s lp else Some (s, lp))
                 (\<lambda>(s, lp). loop run plug s lp (d + 1))) = Some y"
    show "\<not> (run = echo_env \<and> plug = None \<and> busy lp)"
    proof
      assume eq: "run = echo_env \<and> plug = None \<and> busy lp"
      then obtain ev r where r: "ring_pop (lp_ring lp) = Some (ev, r)"
        using ring_pop_empty [of "lp_ring lp"] by (auto simp: busy_def)
      then have "loop run plug s (post_all (replicate (lp_listener_count lp) (0, ev)) (lp\<lparr>lp_ring := r\<rparr>)) (d + 1) = Some y"
        using body eq busy_step [of lp ev r] by (simp add: Let_def call_listeners_echo cong: if_cong)
      from IH [OF this] show False using eq busy_step [of lp ev r] r by simp
    qed
  qed
  then show ?thesis using assms by (metis koe_event_poll_def not_Some_eq)
qed

theorem event_poll_diverges_on_echo_witness:
  "busy sample_loop \<and> koe_event_poll echo_env None () sample_loop = None"
proof -
  have "lp_listener_count sample_loop = 2"
    using arg_cong [OF sample_loop_facts(2), of length] sample_loop_facts(1) by (simp add: loop_ok_def)
  then have "busy sample_loop" by (simp add: busy_def sample_loop_facts) (simp add: zero_event_def)
  then show ?thesis using event_poll_diverges_on_echo [of sample_loop] by simp
qed

end
