(* ===== verification/Koe_Ring.thy ===== *)
theory Koe_Ring
  imports Koe_Event
begin

text \<open>
  The event ring under concurrency (\<^verbatim>\<open>src/koe_event.c\<close>, lines 82-99 and 117-141): one thread posts
  while another polls, and the atomic accesses to the two counters interleave in any order. Each
  thread is a program counter that holds the local variables of the C function, and one step is one
  access to the shared ring. The ghost lists record the events published and the events taken. The
  accesses are sequentially consistent here, and copying an event into or out of its slot is one
  step. The lemmas show that steps without interruption are the sequential
  operations, that the ring is a queue in every interleaving in which it never fills up, and that
  dropping the oldest event while the other thread reads it breaks the order.
\<close>

section \<open>Threads\<close>

text \<open>The local variables of \<open>koe_event_post\<close>: the event, \<open>tail\<close> and \<open>head\<close>, as far as they are loaded.\<close>

datatype post_pc =
    P_Idle
  | P_Tail koe_event u32
  | P_Head koe_event u32 u32
  | P_Slot koe_event u32
  | P_Publish koe_event

text \<open>The local variables of the loop of \<open>koe_event_poll\<close>: \<open>head\<close> and the event read.\<close>

datatype poll_pc =
    C_Idle
  | C_Head u32
  | C_Slot u32
  | C_Store u32 koe_event

record ring_threads =
  rt_ring :: koe_ring
  rt_post :: post_pc
  rt_poll :: poll_pc
  rt_posted :: "koe_event list"
  rt_taken :: "koe_event list"

definition threads_start :: ring_threads where
  "threads_start = \<lparr>rt_ring = ring_init, rt_post = P_Idle, rt_poll = C_Idle, rt_posted = [], rt_taken = []\<rparr>"

text \<open>The next access of the posting thread; an idle thread starts to post \<open>ev\<close>, and \<open>now\<close> is the time
  when the slot is written.\<close>

definition post_step :: "unix_time \<Rightarrow> koe_event \<Rightarrow> ring_threads \<Rightarrow> ring_threads" where
  "post_step now ev c =
     (let r = rt_ring c in
      case rt_post c of
        P_Idle \<Rightarrow> c\<lparr>rt_post := P_Tail ev (rg_tail r)\<rparr>
      | P_Tail e tail \<Rightarrow> c\<lparr>rt_post := P_Head e tail (rg_head r)\<rparr>
      | P_Head e tail head \<Rightarrow>
          if tail - head \<ge> of_nat RING_SIZE
          then c\<lparr>rt_ring := r\<lparr>rg_head := rg_head r + 1\<rparr>, rt_post := P_Slot e tail\<rparr>
          else c\<lparr>rt_post := P_Slot e tail\<rparr>
      | P_Slot e tail \<Rightarrow>
          let e = e\<lparr>ev_timestamp := now\<rparr>
          in c\<lparr>rt_ring := r\<lparr>rg_events := (rg_events r)[ring_slot tail := e]\<rparr>, rt_post := P_Publish e\<rparr>
      | P_Publish e \<Rightarrow>
          c\<lparr>rt_ring := r\<lparr>rg_tail := rg_tail r + 1\<rparr>, rt_post := P_Idle, rt_posted := rt_posted c @ [e]\<rparr>)"

text \<open>The next access of the polling thread; after the store the event goes to plugins and listeners.\<close>

definition poll_step :: "ring_threads \<Rightarrow> ring_threads" where
  "poll_step c =
     (let r = rt_ring c in
      case rt_poll c of
        C_Idle \<Rightarrow> c\<lparr>rt_poll := C_Head (rg_head r)\<rparr>
      | C_Head head \<Rightarrow> c\<lparr>rt_poll := (if head = rg_tail r then C_Idle else C_Slot head)\<rparr>
      | C_Slot head \<Rightarrow> c\<lparr>rt_poll := C_Store head (rg_events r ! ring_slot head)\<rparr>
      | C_Store head e \<Rightarrow>
          c\<lparr>rt_ring := r\<lparr>rg_head := head + 1\<rparr>, rt_poll := C_Idle, rt_taken := rt_taken c @ [e]\<rparr>)"

inductive threads_step :: "ring_threads \<Rightarrow> ring_threads \<Rightarrow> bool" where
  post: "threads_step c (post_step now ev c)"
| poll: "threads_step c (poll_step c)"

text \<open>The step that drops the oldest event, and the runs without it.\<close>

definition drops :: "ring_threads \<Rightarrow> bool" where
  "drops c = (case rt_post c of P_Head e tail head \<Rightarrow> tail - head \<ge> of_nat RING_SIZE | _ \<Rightarrow> False)"

inductive roomy_step :: "ring_threads \<Rightarrow> ring_threads \<Rightarrow> bool" where
  post: "\<not> drops c \<Longrightarrow> roomy_step c (post_step now ev c)"
| poll: "roomy_step c (poll_step c)"

lemma threads_run:
  "threads_step\<^sup>*\<^sup>* a c \<Longrightarrow> threads_step\<^sup>*\<^sup>* a (post_step now ev c)" "threads_step\<^sup>*\<^sup>* a c \<Longrightarrow> threads_step\<^sup>*\<^sup>* a (poll_step c)"
  by (blast intro: rtranclp.rtrancl_into_rtrancl threads_step.intros)+

lemma roomy_run:
  "roomy_step\<^sup>*\<^sup>* a c \<Longrightarrow> \<not> drops c \<Longrightarrow> roomy_step\<^sup>*\<^sup>* a (post_step now ev c)" "roomy_step\<^sup>*\<^sup>* a c \<Longrightarrow> roomy_step\<^sup>*\<^sup>* a (poll_step c)"
  by (blast intro: rtranclp.rtrancl_into_rtrancl roomy_step.intros)+

section \<open>Steps without interruption\<close>

lemma post_alone:
  assumes "rt_post c = P_Idle"
  shows "(post_step now ev ^^ 5) c
    = c\<lparr>rt_ring := ring_post now ev (rt_ring c), rt_posted := rt_posted c @ [ev\<lparr>ev_timestamp := now\<rparr>]\<rparr>"
proof -
  have "(f ^^ 5) c = f (f (f (f (f c))))" for f :: "ring_threads \<Rightarrow> ring_threads" by (simp add: eval_nat_numeral)
  then show ?thesis using assms by (simp add: post_step_def ring_post_def Let_def)
qed

lemma poll_alone:
  assumes "rt_poll c = C_Idle" and "ring_pop (rt_ring c) = Some (e, r)"
  shows "(poll_step ^^ 4) c = c\<lparr>rt_ring := r, rt_taken := rt_taken c @ [e]\<rparr>"
proof -
  have "(f ^^ 4) c = f (f (f (f c)))" for f :: "ring_threads \<Rightarrow> ring_threads" by (simp add: eval_nat_numeral)
  then show ?thesis using assms by (auto simp: poll_step_def ring_pop_def Let_def split: if_splits)
qed

section \<open>The invariant of both threads\<close>

abbreviation (input) used :: "koe_ring \<Rightarrow> nat" where
  "used r \<equiv> unat (rg_tail r - rg_head r)"

definition post_inv :: "koe_ring \<Rightarrow> post_pc \<Rightarrow> bool" where
  "post_inv r pc = (case pc of
      P_Idle \<Rightarrow> True
    | P_Tail e tail \<Rightarrow> tail = rg_tail r
    | P_Head e tail head \<Rightarrow> tail = rg_tail r \<and> used r \<le> unat (tail - head)
    | P_Slot e tail \<Rightarrow> tail = rg_tail r \<and> used r < RING_SIZE
    | P_Publish e \<Rightarrow> used r < RING_SIZE \<and> rg_events r ! ring_slot (rg_tail r) = e)"

definition poll_inv :: "koe_ring \<Rightarrow> poll_pc \<Rightarrow> bool" where
  "poll_inv r pc = (case pc of
      C_Idle \<Rightarrow> True
    | C_Head head \<Rightarrow> head = rg_head r
    | C_Slot head \<Rightarrow> head = rg_head r \<and> 0 < used r
    | C_Store head e \<Rightarrow> head = rg_head r \<and> 0 < used r \<and> e = rg_events r ! ring_slot head)"

definition threads_inv :: "ring_threads \<Rightarrow> bool" where
  "threads_inv c \<longleftrightarrow> ring_ok (rt_ring c) \<and> post_inv (rt_ring c) (rt_post c) \<and> poll_inv (rt_ring c) (rt_poll c)
     \<and> rt_taken c @ ring_items (rt_ring c) = rt_posted c"

lemmas inv_defs = threads_inv_def post_inv_def poll_inv_def ring_ok_def

lemma threads_start_inv: "threads_inv threads_start"
  using ring_init_ok by (simp add: inv_defs threads_start_def)


lemma ring_write_other:
  assumes "0 < used r" and "used r < RING_SIZE"
  shows "ring_slot (rg_head r) \<noteq> ring_slot (rg_tail r)"
  using ring_slot_apart [of 0 r] assms by simp

lemma used_drop_head: "0 < used r \<Longrightarrow> used r = Suc (unat (rg_tail r - (rg_head r + 1)))"
  using unat_minus_one [of "rg_tail r - rg_head r"] by (auto simp: algebra_simps unat_gt_0)

lemma post_step_inv:
  assumes "threads_inv c" and "\<not> drops c"
  shows "threads_inv (post_step now ev c)"
proof (cases "rt_post c")
  case (P_Slot e tail)
  then have u: "tail = rg_tail (rt_ring c)" "used (rt_ring c) < 512" using assms(1) by (simp_all add: inv_defs)
  then show ?thesis
    using assms(1) P_Slot ring_items_write_tail [OF u(2)] ring_write_other [OF _ u(2)]
    by (auto simp: inv_defs post_step_def Let_def split: poll_pc.splits)
next
  case (P_Publish e)
  then have u: "used (rt_ring c) < 512" using assms(1) by (simp add: inv_defs)
  show ?thesis
    using assms(1) P_Publish u ring_items_publish [OF u] by (auto simp: inv_defs post_step_def Let_def split: poll_pc.splits)
qed (use assms in \<open>auto simp: inv_defs drops_def post_step_def Let_def word_le_nat_alt not_le\<close>)

lemma poll_step_inv:
  assumes "threads_inv c"
  shows "threads_inv (poll_step c)"
proof (cases "rt_poll c")
  case (C_Store head e)
  let ?r = "rt_ring c"
  have u: "head = rg_head ?r" "0 < used ?r" "e = rg_events ?r ! ring_slot head" using assms C_Store by (simp_all add: inv_defs)
  moreover have "rg_head ?r \<noteq> rg_tail ?r" using u(2) by auto
  ultimately show ?thesis
    using assms C_Store ring_items_drop_head [of ?r] used_drop_head [OF u(2)]
    by (auto simp: inv_defs poll_step_def Let_def split: post_pc.splits)
qed (use assms in \<open>auto simp: inv_defs poll_step_def Let_def unat_gt_0\<close>)

lemma roomy_inv: "roomy_step\<^sup>*\<^sup>* threads_start c \<Longrightarrow> threads_inv c"
  by (induction rule: rtranclp_induct) (auto elim!: roomy_step.cases intro: threads_start_inv post_step_inv poll_step_inv)

section \<open>Properties\<close>

text \<open>C13. Posting and polling may overlap in any way: as long as the ring never fills up, every
  interleaving of the two threads' accesses delivers the published events exactly once and in
  order, and what is not yet delivered is what the ring holds, at most 512 events. When one thread
  is about to read a slot and the other about to write one, they are different slots.\<close>

theorem ring_concurrent_fifo:
  assumes "roomy_step\<^sup>*\<^sup>* threads_start c"
  shows "rt_taken c @ ring_items (rt_ring c) = rt_posted c \<and> length (ring_items (rt_ring c)) \<le> RING_SIZE
    \<and> (\<forall>head e tail. rt_poll c = C_Slot head \<longrightarrow> rt_post c = P_Slot e tail \<longrightarrow> ring_slot head \<noteq> ring_slot tail)"
proof -
  have inv: "threads_inv c" using assms by (rule roomy_inv)
  then have "ring_slot head \<noteq> ring_slot tail" if "rt_poll c = C_Slot head" "rt_post c = P_Slot e tail" for head e tail
    using that ring_write_other [of "rt_ring c"] by (auto simp: inv_defs)
  with inv show ?thesis by (auto simp: threads_inv_def ring_ok_cap)
qed

text \<open>When the ring is full the two threads interfere: from any quiet state with a full ring there is
  an interleaving in which the poller, about to take the oldest event, reads the event just being
  posted instead. That event is taken before the 511 older ones, and it is still in the ring, so it
  will be taken again.\<close>

theorem ring_overflow_race:
  assumes "rt_post c = P_Idle" and "rt_poll c = C_Idle" and "ring_ok (rt_ring c)" and "length (ring_items (rt_ring c)) = RING_SIZE"
  shows "\<exists>c'. threads_step\<^sup>*\<^sup>* c c' \<and> rt_post c' = P_Idle \<and> rt_poll c' = C_Idle
    \<and> rt_taken c' = rt_taken c @ [ev\<lparr>ev_timestamp := now\<rparr>]
    \<and> ring_items (rt_ring c') = tl (ring_items (rt_ring c)) @ [ev\<lparr>ev_timestamp := now\<rparr>]"
proof -
  let ?p = "post_step now ev" and ?r = "rt_ring c" and ?e = "ev\<lparr>ev_timestamp := now\<rparr>"
  define c' where "c' = ?p (poll_step (poll_step (?p (?p (?p (?p (poll_step (poll_step c))))))))"
  have run: "threads_step\<^sup>*\<^sup>* c c'" unfolding c'_def by (intro threads_run rtranclp.rtrancl_refl)
  have u: "used ?r = 512" using assms(4) by (simp add: ring_items_length)
  have t: "rg_tail ?r - rg_head ?r = 512" using arg_cong [OF u, of "of_nat :: nat \<Rightarrow> u32"] by simp
  then have tl: "rg_tail ?r = rg_head ?r + of_nat 512" by (simp add: algebra_simps)
  have slot: "ring_slot (rg_tail ?r) = ring_slot (rg_head ?r)" unfolding tl ring_slot_add by simp
  have ne: "rg_head ?r \<noteq> rg_tail ?r" using u by auto
  have c': "c' = c\<lparr>rt_ring := ring_post now ev ?r, rt_posted := rt_posted c @ [?e], rt_taken := rt_taken c @ [?e]\<rparr>"
    using assms(1-3) ne t slot by (simp add: c'_def post_step_def poll_step_def ring_post_def Let_def ring_ok_def)
  show ?thesis
    using run assms ring_post_items [OF assms(3), of now ev] by (auto simp: c')
qed

section \<open>Witnesses\<close>

text \<open>One event is posted; while a second one is being posted, the poller takes the first.\<close>

definition demo_overlap :: ring_threads where
  "demo_overlap =
     (let p = post_step 7 (zero_event\<lparr>ev_type := KOE_EV_PEER_ONLINE\<rparr>)
      in poll_step (p (poll_step (p (poll_step (p (poll_step (p (p (p (p (p threads_start))))))))))))"

lemma ring_init_sel [simp]: "rg_head ring_init = 0" "rg_tail ring_init = 0"
  by (simp_all add: ring_init_def)

lemma demo_overlap_run: "roomy_step\<^sup>*\<^sup>* threads_start demo_overlap"
  unfolding demo_overlap_def Let_def
  by (intro roomy_run rtranclp.rtrancl_refl)
     (simp_all add: drops_def threads_start_def post_step_def poll_step_def Let_def word_le_nat_alt)

theorem ring_concurrent_fifo_witness:
  "roomy_step\<^sup>*\<^sup>* threads_start demo_overlap \<and> rt_taken demo_overlap @ ring_items (rt_ring demo_overlap) = rt_posted demo_overlap
     \<and> length (rt_taken demo_overlap) = 1 \<and> rt_post demo_overlap \<noteq> P_Idle"
proof -
  have "length (rt_taken demo_overlap) = 1 \<and> rt_post demo_overlap \<noteq> P_Idle"
    by (simp add: demo_overlap_def threads_start_def post_step_def poll_step_def Let_def)
  then show ?thesis using ring_concurrent_fifo [OF demo_overlap_run] demo_overlap_run by simp
qed

end
