(* ===== verification/Koe_Crypto.thy ===== *)
theory Koe_Crypto
  imports Koe_Prelude
begin

text \<open>
  The cryptographic layer (\<^verbatim>\<open>src/koe_crypto.c\<close>). libsodium itself is not part of the
  repository: its functions are the fields of the record \<open>sodium\<close>, an argument of every
  definition that calls them, and what the code relies on is stated by the predicates
  \<open>aead_ok\<close>, \<open>sign_ok\<close>, \<open>dh_ok\<close> and \<open>hash_ok\<close>, which are the documented behaviour of the
  primitives. Random bytes and the clock are arguments. Overwriting of stack buffers that
  die with the call is not observable and not modelled; the erasure of the caller's
  ephemeral secret is.
\<close>

section \<open>libsodium\<close>

record sodium =
  so_init :: int
  so_sign_keypair :: "bytes \<Rightarrow> (bytes \<times> bytes) option"
  so_box_keypair :: "bytes \<Rightarrow> (bytes \<times> bytes) option"
  so_aead_encrypt :: "bytes \<Rightarrow> bytes \<Rightarrow> bytes \<Rightarrow> bytes option"
  so_aead_decrypt :: "bytes \<Rightarrow> bytes \<Rightarrow> bytes \<Rightarrow> bytes option"
  so_sign_detached :: "bytes \<Rightarrow> bytes \<Rightarrow> bytes option"
  so_verify_detached :: "bytes \<Rightarrow> bytes \<Rightarrow> bytes \<Rightarrow> bool"
  so_scalarmult :: "bytes \<Rightarrow> bytes \<Rightarrow> bytes option"
  so_generichash :: "nat \<Rightarrow> nat \<Rightarrow> bytes \<Rightarrow> bytes"
  so_pwhash :: "string \<Rightarrow> bytes \<Rightarrow> bytes option"
  so_sha256 :: "bytes \<Rightarrow> bytes"

text \<open>
  Arguments in the order the model uses them: \<open>so_aead_encrypt plain nonce key\<close>,
  \<open>so_aead_decrypt ct nonce key\<close>, \<open>so_sign_detached msg sk\<close>, \<open>so_verify_detached sig msg pk\<close>,
  \<open>so_scalarmult sk pk\<close>, \<open>so_generichash init_len final_len msg\<close> (the two output lengths the
  streaming interface is given), \<open>so_pwhash passphrase salt\<close>; the key pair functions take the
  random seed. \<open>None\<close> is a non-zero return code.

  Decryption inverts encryption under the same nonce and key, and the ciphertext is the
  plaintext plus a 16-byte tag.
\<close>

definition aead_ok :: "sodium \<Rightarrow> bool" where
  "aead_ok sd \<longleftrightarrow>
     (\<forall>plain nonce key ct. so_aead_encrypt sd plain nonce key = Some ct \<longrightarrow>
        length ct = length plain + 16 \<and> so_aead_decrypt sd ct nonce key = Some plain) \<and>
     (\<forall>ct nonce key plain. so_aead_decrypt sd ct nonce key = Some plain \<longrightarrow>
        length ct = length plain + 16)"

text \<open>Signatures made with \<open>sk\<close> are 64 bytes and verify under \<open>pk\<close>.\<close>

definition sign_ok :: "sodium \<Rightarrow> bytes \<Rightarrow> bytes \<Rightarrow> bool" where
  "sign_ok sd pk sk \<longleftrightarrow>
     (\<forall>msg sig. so_sign_detached sd msg sk = Some sig \<longrightarrow>
        length sig = 64 \<and> so_verify_detached sd sig msg pk)"

text \<open>Diffie-Hellman agreement of two ephemeral key pairs (secret, public).\<close>

definition dh_ok :: "sodium \<Rightarrow> bytes \<times> bytes \<Rightarrow> bytes \<times> bytes \<Rightarrow> bool" where
  "dh_ok sd a b \<longleftrightarrow> so_scalarmult sd (fst a) (snd b) = so_scalarmult sd (fst b) (snd a)"

definition hash_ok :: "sodium \<Rightarrow> bool" where
  "hash_ok sd \<longleftrightarrow> (\<forall>i n m. length (so_generichash sd i n m) = n)"

text \<open>A concrete instance, which satisfies all of them; it is used only to show that the
  hypotheses of the properties can hold.\<close>

definition demo_sodium :: sodium where
  "demo_sodium = \<lparr>so_init = 0,
     so_sign_keypair = (\<lambda>s. Some (take 32 (s @ replicate 32 0), take 64 (s @ replicate 64 0))),
     so_box_keypair = (\<lambda>s. Some (take 32 (s @ replicate 32 0), take 32 (s @ replicate 32 0))),
     so_aead_encrypt = (\<lambda>plain nonce key. Some (plain @ take 16 (key @ replicate 16 0))),
     so_aead_decrypt = (\<lambda>ct nonce key.
       if 16 \<le> length ct \<and> drop (length ct - 16) ct = take 16 (key @ replicate 16 0)
       then Some (take (length ct - 16) ct) else None),
     so_sign_detached = (\<lambda>msg sk. Some (take 64 (take 32 sk @ msg @ replicate 64 0))),
     so_verify_detached = (\<lambda>sig msg pk. sig = take 64 (take 32 pk @ msg @ replicate 64 0)),
     so_scalarmult = (\<lambda>sk pk. Some (map2 (XOR) sk pk)),
     so_generichash = (\<lambda>i n m. take n (m @ replicate n 0)),
     so_pwhash = (\<lambda>p salt. Some (take 32 (str_bytes p @ salt @ replicate 32 0))),
     so_sha256 = (\<lambda>m. take 32 (m @ replicate 32 0))\<rparr>"

section \<open>Types\<close>

abbreviation (input) KOE_SHORT_ID_LEN :: nat where "KOE_SHORT_ID_LEN \<equiv> 16"
abbreviation (input) KOE_VERIFY_TOKEN_TTL :: int where "KOE_VERIFY_TOKEN_TTL \<equiv> 30"

record koe_identity =
  id_pk :: bytes
  id_sk :: bytes

record koe_ephemeral =
  eph_pk :: bytes
  eph_sk :: bytes

record koe_session =
  tx_key :: bytes
  rx_key :: bytes

definition wf_identity :: "koe_identity \<Rightarrow> bool" where [koe_wf]:
  "wf_identity i \<longleftrightarrow> length (id_pk i) = 32 \<and> length (id_sk i) = 64"

definition wf_session :: "koe_session \<Rightarrow> bool" where [koe_wf]:
  "wf_session s \<longleftrightarrow> length (tx_key s) = 32 \<and> length (rx_key s) = 32"

definition zero_session :: koe_session where
  "zero_session = \<lparr>tx_key = replicate 32 0, rx_key = replicate 32 0\<rparr>"

text \<open>
  Files. A file system maps paths to contents. Writing goes through \<open>io path data\<close>, the
  content that ends up in the file, or \<open>None\<close> when \<open>fopen\<close> fails; the code does not look at
  the results of \<open>fwrite\<close>, so \<open>io\<close> may store less than \<open>data\<close>.
\<close>

type_synonym filesys = "string \<Rightarrow> bytes option"
type_synonym file_io = "string \<Rightarrow> bytes \<Rightarrow> bytes option"

section \<open>Operations\<close>

definition koe_crypto_init :: "sodium \<Rightarrow> int" where
  "koe_crypto_init sd = (if so_init sd < 0 then -1 else 0)"

text \<open>\<open>None\<close> is the return code -1, and \<open>Some\<close> the buffer written with return code 0.\<close>

definition koe_encrypt :: "sodium \<Rightarrow> bytes \<Rightarrow> bytes \<Rightarrow> bytes \<Rightarrow> bytes option" where
  "koe_encrypt sd plain nonce key = so_aead_encrypt sd plain nonce key"

definition koe_decrypt :: "sodium \<Rightarrow> bytes \<Rightarrow> bytes \<Rightarrow> bytes \<Rightarrow> bytes option" where
  "koe_decrypt sd ct nonce key = (if length ct < 16 then None else so_aead_decrypt sd ct nonce key)"

definition koe_sign :: "sodium \<Rightarrow> bytes \<Rightarrow> koe_identity \<Rightarrow> bytes option" where
  "koe_sign sd msg ident = so_sign_detached sd msg (id_sk ident)"

definition koe_verify :: "sodium \<Rightarrow> bytes \<Rightarrow> bytes \<Rightarrow> bytes \<Rightarrow> int" where
  "koe_verify sd sig msg pk = (if so_verify_detached sd sig msg pk then 0 else -1)"

definition koe_identity_generate :: "sodium \<Rightarrow> bytes \<Rightarrow> koe_identity \<Rightarrow> int \<times> koe_identity" where
  "koe_identity_generate sd seed ident =
     (case so_sign_keypair sd seed of
        None \<Rightarrow> (-1, ident)
      | Some (pk, sk) \<Rightarrow> (0, ident\<lparr>id_pk := pk, id_sk := sk\<rparr>))"

definition koe_ephemeral_generate :: "sodium \<Rightarrow> bytes \<Rightarrow> koe_ephemeral \<Rightarrow> int \<times> koe_ephemeral" where
  "koe_ephemeral_generate sd seed eph =
     (case so_box_keypair sd seed of
        None \<Rightarrow> (-1, eph)
      | Some (pk, sk) \<Rightarrow> (0, eph\<lparr>eph_pk := pk, eph_sk := sk\<rparr>))"

text \<open>The identity file: the 5 bytes \<open>KOEID\<close>, the salt (16 bytes), the nonce and the ciphertext
  of the two keys (112 bytes). \<open>salt\<close> and \<open>nonce\<close> are the random bytes drawn.\<close>

definition identity_magic :: bytes where
  "identity_magic = [0x4B, 0x4F, 0x45, 0x49, 0x44]"

definition koe_identity_save ::
  "sodium \<Rightarrow> file_io \<Rightarrow> bytes \<Rightarrow> bytes \<Rightarrow> koe_identity \<Rightarrow> string \<Rightarrow> string \<Rightarrow> filesys \<Rightarrow> int \<times> filesys" where
  "koe_identity_save sd io salt nonce ident path passphrase fs =
     (case so_pwhash sd passphrase salt of
        None \<Rightarrow> (-1, fs)
      | Some enc_key \<Rightarrow>
          let plain = id_pk ident @ id_sk ident in
          case koe_encrypt sd plain nonce enc_key of
            None \<Rightarrow> (-1, fs)
          | Some ct \<Rightarrow>
              case io path (identity_magic @ salt @ nonce @ ct) of
                None \<Rightarrow> (-1, fs)
              | Some stored \<Rightarrow> (0, fs(path \<mapsto> stored)))"

definition koe_identity_load ::
  "sodium \<Rightarrow> koe_identity \<Rightarrow> string \<Rightarrow> string \<Rightarrow> filesys \<Rightarrow> int \<times> koe_identity" where
  "koe_identity_load sd ident path passphrase fs =
     (case fs path of
        None \<Rightarrow> (-1, ident)
      | Some file \<Rightarrow>
          if length file < 5 then (-1, ident)
          else if take 5 file \<noteq> identity_magic then (-1, ident)
          else if length file < 5 + 16 + 24 + 112 then (-1, ident)
          else
            let salt = mem_read 5 16 file; nonce = mem_read 21 24 file; ct = mem_read 45 112 file in
            case so_pwhash sd passphrase salt of
              None \<Rightarrow> (-1, ident)
            | Some enc_key \<Rightarrow>
                case koe_decrypt sd ct nonce enc_key of
                  None \<Rightarrow> (-1, ident)
                | Some plain \<Rightarrow> (0, ident\<lparr>id_pk := mem_read 0 32 plain, id_sk := mem_read 32 64 plain\<rparr>))"

definition B58_ALPHA :: string where
  "B58_ALPHA = ''123456789ABCDEFGHJKLMNPQRSTUVWXYZabcdefghijkmnopqrstuvwxyz''"

text \<open>The do-while loop: from position \<open>pos\<close> downwards, one digit per turn; returns the final
  position and the characters from there on.\<close>

fun b58_loop :: "u64 \<Rightarrow> nat \<Rightarrow> string \<Rightarrow> nat \<times> string" where
  "b58_loop val 0 tmp = (0, tmp)"
| "b58_loop val (Suc pos) tmp =
     (let tmp = (B58_ALPHA ! unat (val mod 58)) # tmp; val = val div 58
      in if val \<noteq> 0 \<and> pos > 0 then b58_loop val pos tmp else (pos, tmp))"

definition koe_identity_short_id :: "bytes \<Rightarrow> string" where
  "koe_identity_short_id pk =
     (let val = foldl (\<lambda>val b. push_bit 8 val OR ucast b) 0 (take 8 pk);
          (pos, tmp) = b58_loop val (KOE_SHORT_ID_LEN - 1) [];
          tmp = replicate pos (CHR ''1'') @ tmp
      in strncpy_str (KOE_SHORT_ID_LEN - 1) tmp)"

definition koe_session_derive ::
  "sodium \<Rightarrow> koe_session \<Rightarrow> koe_ephemeral \<Rightarrow> bytes \<Rightarrow> koe_identity \<Rightarrow> bytes \<Rightarrow> bool \<Rightarrow>
   int \<times> koe_session \<times> koe_ephemeral" where
  "koe_session_derive sd sess local_eph remote_eph local_id remote_pk initiator =
     (case so_scalarmult sd (eph_sk local_eph) remote_eph of
        None \<Rightarrow> (-1, sess, local_eph)
      | Some dh \<Rightarrow>
          let local_eph = local_eph\<lparr>eph_sk := replicate 32 0\<rparr>;
              msg = (if initiator then dh @ id_pk local_id @ remote_pk
                     else dh @ remote_pk @ id_pk local_id);
              combined = so_generichash sd 32 64 msg
          in if initiator
             then (0, sess\<lparr>tx_key := mem_read 0 32 combined, rx_key := mem_read 32 32 combined\<rparr>, local_eph)
             else (0, sess\<lparr>rx_key := mem_read 0 32 combined, tx_key := mem_read 32 32 combined\<rparr>, local_eph))"

definition token_of :: "sodium \<Rightarrow> bytes \<Rightarrow> bytes \<Rightarrow> string" where
  "token_of sd nonce pk =
     (let hash = so_generichash sd 32 32 (nonce @ pk);
          val = le32_dec (take 4 hash) mod 1000000
      in snprintf_str 7 (show_dec_pad 6 (unat val)))"

text \<open>\<open>nonce\<close> are the 16 random bytes; the result is the token and the nonce handed out.\<close>

definition koe_verify_token_generate :: "sodium \<Rightarrow> bytes \<Rightarrow> bytes \<Rightarrow> int \<times> string \<times> bytes" where
  "koe_verify_token_generate sd nonce pk = (0, token_of sd nonce pk, nonce)"

definition koe_verify_token_check ::
  "sodium \<Rightarrow> string \<Rightarrow> bytes \<Rightarrow> bytes \<Rightarrow> unix_time \<Rightarrow> unix_time \<Rightarrow> int" where
  "koe_verify_token_check sd token nonce pk issued_at now =
     (if now - issued_at > KOE_VERIFY_TOKEN_TTL then -1
      else if take 6 token = take 6 (token_of sd nonce pk) then 0 else -1)"

section \<open>Facts\<close>

lemma demo_aead_ok [simp]: "aead_ok demo_sodium"
  by (auto simp: aead_ok_def demo_sodium_def split: if_splits)

lemma demo_hash_ok [simp]: "hash_ok demo_sodium"
  by (auto simp: hash_ok_def demo_sodium_def min_def)

lemma demo_sign_ok [simp]: "take 32 sk = take 32 pk \<Longrightarrow> sign_ok demo_sodium pk sk"
  by (simp add: sign_ok_def demo_sodium_def min_absorb2 del: take_append)

lemma koe_decrypt_encrypt:
  "aead_ok sd \<Longrightarrow> koe_encrypt sd plain nonce key = Some ct \<Longrightarrow>
   koe_decrypt sd ct nonce key = Some plain \<and> length ct = length plain + 16"
  by (simp add: aead_ok_def koe_encrypt_def koe_decrypt_def)

lemma koe_decrypt_length:
  "aead_ok sd \<Longrightarrow> koe_decrypt sd ct nonce key = Some plain \<Longrightarrow> length ct = length plain + 16"
  by (auto simp: aead_ok_def koe_decrypt_def split: if_splits)

lemma koe_verify_sign:
  "sign_ok sd (id_pk ident) (id_sk ident) \<Longrightarrow> koe_sign sd msg ident = Some sig \<Longrightarrow>
   koe_verify sd sig msg (id_pk ident) = 0 \<and> length sig = 64"
  by (simp add: sign_ok_def koe_sign_def koe_verify_def)

subsection \<open>Short identities\<close>

text \<open>The number a base58 string denotes, digits read from the left.\<close>

definition b58_digit :: "char \<Rightarrow> nat" where
  "b58_digit c = length (takeWhile (\<lambda>d. d \<noteq> c) B58_ALPHA)"

definition b58_val :: "string \<Rightarrow> nat" where
  "b58_val s = foldl (\<lambda>a c. a * 58 + b58_digit c) 0 s"

lemma b58_val_snoc [simp]: "b58_val (s @ [c]) = b58_val s * 58 + b58_digit c"
  by (simp add: b58_val_def)

lemma b58_val_pad: "b58_val (replicate n (CHR ''1'') @ s) = b58_val s"
proof -
  have "b58_digit (CHR ''1'') = 0" by (simp add: b58_digit_def B58_ALPHA_def)
  then have "foldl (\<lambda>a c. a * 58 + b58_digit c) 0 (replicate n (CHR ''1'')) = 0"
    by (induction n) simp_all
  then show ?thesis by (simp add: b58_val_def)
qed

lemma b58_digit_alpha: "k < 58 \<Longrightarrow> b58_digit (B58_ALPHA ! k) = k"
proof -
  have "list_all (\<lambda>k. b58_digit (B58_ALPHA ! k) = k) [0..<58]" by code_simp
  then show "k < 58 \<Longrightarrow> b58_digit (B58_ALPHA ! k) = k" by (simp add: list_all_iff)
qed

lemma length_B58_ALPHA: "length B58_ALPHA = 58"
  by (simp add: B58_ALPHA_def)

lemma b58_loop_digits:
  "b58_loop v pos tmp = (p, s) \<Longrightarrow> unat v < 58 ^ pos \<Longrightarrow> 0 < pos \<Longrightarrow>
   \<exists>ds. s = ds @ tmp \<and> p + length ds = pos \<and> b58_val ds = unat v \<and> set ds \<subseteq> set B58_ALPHA"
proof (induction v pos tmp arbitrary: p s rule: b58_loop.induct)
  case (2 v pos tmp)
  let ?c = "B58_ALPHA ! unat (v mod 58)"
  have dm: "unat (v mod 58) = unat v mod 58" "unat (v div 58) = unat v div 58"
    by (simp_all add: unat_mod unat_div)
  have c: "b58_digit ?c = unat v mod 58" "?c \<in> set B58_ALPHA"
    using length_B58_ALPHA by (simp_all add: dm b58_digit_alpha)
  show ?case
  proof (cases "v div 58 \<noteq> 0 \<and> pos > 0")
    case True
    have "unat (v div 58) < 58 ^ pos"
      using "2.prems"(2) by (simp add: dm less_mult_imp_div_less mult.commute)
    with "2.IH" [OF refl refl True] "2.prems"(1) True
    obtain ds where "s = ds @ ?c # tmp" "p + length ds = pos" "b58_val ds = unat (v div 58)"
      "set ds \<subseteq> set B58_ALPHA"
      by (auto simp: Let_def)
    with c dm show ?thesis by (intro exI [of _ "ds @ [?c]"]) simp
  next
    case False
    have "unat v div 58 = 0"
    proof (cases "pos = 0")
      case True
      with "2.prems"(2) show ?thesis by simp
    next
      case False
      with \<open>\<not> (v div 58 \<noteq> 0 \<and> pos > 0)\<close> show ?thesis by (simp flip: dm(2))
    qed
    with c "2.prems"(1) False show ?thesis
      by (intro exI [of _ "[?c]"]) (auto simp: Let_def b58_val_def mod_if dm)
  qed
qed simp

lemma short_id_value:
  "foldl (\<lambda>val b. push_bit 8 val OR ucast b) 0 bs = (le_dec (rev bs) :: u64)"
  by (induction bs rule: rev_induct) (simp_all add: or.commute)

lemma koe_identity_short_id_props:
  assumes "8 \<le> length pk"
  shows "length (koe_identity_short_id pk) = 15"
    and "set (koe_identity_short_id pk) \<subseteq> set B58_ALPHA"
    and "b58_val (koe_identity_short_id pk) = unat (be64_dec (take 8 pk))"
proof -
  let ?v = "be64_dec (take 8 pk)"
  obtain p s where ps: "b58_loop ?v 15 [] = (p, s)" by fastforce
  have "unat ?v < 2 ^ 64" using unsigned_less [of ?v, where 'a = nat] by simp
  also have "(2 :: nat) ^ 64 < 58 ^ 15" by simp
  finally have s: "p + length s = 15" "b58_val s = unat ?v" "set s \<subseteq> set B58_ALPHA"
    using b58_loop_digits [OF ps] by auto
  have eq: "koe_identity_short_id pk = replicate p (CHR ''1'') @ s"
    using ps s(1) unfolding koe_identity_short_id_def short_id_value be64_dec_def
    by (simp add: strncpy_str_def)
  show "length (koe_identity_short_id pk) = 15" using eq s by simp
  show "set (koe_identity_short_id pk) \<subseteq> set B58_ALPHA"
    using eq s by (auto simp: B58_ALPHA_def split: if_splits)
  show "b58_val (koe_identity_short_id pk) = unat ?v"
    using eq s by (simp add: b58_val_pad)
qed

subsection \<open>Session keys\<close>

text \<open>The 64 bytes both sides derive, from the shared secret and the two identities in the
  order initiator, responder.\<close>

definition session_secret :: "sodium \<Rightarrow> bytes \<Rightarrow> bytes \<Rightarrow> bytes \<Rightarrow> bytes" where
  "session_secret sd dh ini_pk resp_pk = so_generichash sd 32 64 (dh @ ini_pk @ resp_pk)"

lemma koe_session_derive_cases:
  "koe_session_derive sd sess eph remote_eph ident remote_pk initiator =
    (case so_scalarmult sd (eph_sk eph) remote_eph of
       None \<Rightarrow> (-1, sess, eph)
     | Some dh \<Rightarrow>
         let k = (if initiator then session_secret sd dh (id_pk ident) remote_pk
                  else session_secret sd dh remote_pk (id_pk ident));
             a = mem_read 0 32 k; b = mem_read 32 32 k
         in (0, if initiator then sess\<lparr>tx_key := a, rx_key := b\<rparr> else sess\<lparr>tx_key := b, rx_key := a\<rparr>,
             eph\<lparr>eph_sk := replicate 32 0\<rparr>))"
  by (auto simp: koe_session_derive_def session_secret_def Let_def split: option.splits)

section \<open>Properties\<close>

text \<open>The two ends of a key exchange derive matching session keys: what one side transmits
  with is what the other receives with, in both directions, and both ephemeral secrets are
  overwritten with zeros.\<close>

theorem session_keys_agree:
  assumes "hash_ok sd"
    and "dh_ok sd (eph_sk a, eph_pk a) (eph_sk b, eph_pk b)"
    and "koe_session_derive sd s0 a (eph_pk b) alice (id_pk bob) True = (0, sa, a')"
    and "koe_session_derive sd s1 b (eph_pk a) bob (id_pk alice) False = (rc, sb, b')"
  shows "rc = 0 \<and> tx_key sa = rx_key sb \<and> rx_key sa = tx_key sb \<and> wf_session sa \<and> wf_session sb \<and>
    a' = a\<lparr>eph_sk := replicate 32 0\<rparr> \<and> b' = b\<lparr>eph_sk := replicate 32 0\<rparr>"
  using assms
  by (auto simp: koe_session_derive_cases dh_ok_def Let_def wf_session_def session_secret_def
      hash_ok_def split: option.splits)

theorem session_keys_agree_witness:
  "\<exists>sa sb a' b'.
    koe_session_derive demo_sodium zero_session \<lparr>eph_pk = replicate 32 1, eph_sk = replicate 32 1\<rparr>
      (replicate 32 2) \<lparr>id_pk = replicate 32 3, id_sk = replicate 64 3\<rparr> (replicate 32 4) True = (0, sa, a') \<and>
    koe_session_derive demo_sodium zero_session \<lparr>eph_pk = replicate 32 2, eph_sk = replicate 32 2\<rparr>
      (replicate 32 1) \<lparr>id_pk = replicate 32 4, id_sk = replicate 64 4\<rparr> (replicate 32 3) False = (0, sb, b') \<and>
    tx_key sa = rx_key sb \<and> rx_key sa = tx_key sb \<and> eph_sk a' = replicate 32 0"
proof -
  let ?a = "\<lparr>eph_pk = replicate 32 1, eph_sk = replicate 32 1\<rparr>"
  let ?b = "\<lparr>eph_pk = replicate 32 2, eph_sk = replicate 32 2\<rparr>"
  let ?alice = "\<lparr>id_pk = replicate 32 3, id_sk = replicate 64 3\<rparr>"
  let ?bob = "\<lparr>id_pk = replicate 32 4, id_sk = replicate 64 4\<rparr>"
  have dh: "dh_ok demo_sodium (eph_sk ?a, eph_pk ?a) (eph_sk ?b, eph_pk ?b)"
    by (simp add: dh_ok_def demo_sodium_def)
  obtain sa a' where a: "koe_session_derive demo_sodium zero_session ?a (eph_pk ?b) ?alice (id_pk ?bob) True =
      (0, sa, a')"
    by (simp add: koe_session_derive_cases demo_sodium_def Let_def)
  obtain rc sb b' where b: "koe_session_derive demo_sodium zero_session ?b (eph_pk ?a) ?bob (id_pk ?alice) False =
      (rc, sb, b')"
    by (simp add: koe_session_derive_cases demo_sodium_def Let_def)
  show ?thesis
    using session_keys_agree [OF demo_hash_ok dh a b] a b by simp
qed

text \<open>Saving an identity under a passphrase and loading it with the same passphrase gives
  back exactly the saved key pair, provided the file was written completely.\<close>

lemma koe_identity_load_save:
  assumes "aead_ok sd" and "wf_identity ident" and "length salt = 16" and "length nonce = 24"
    and "\<forall>data. io path data = None \<or> io path data = Some data"
    and "koe_identity_save sd io salt nonce ident path passphrase fs = (0, fs')"
  shows "koe_identity_load sd other path passphrase fs' = (0, ident)"
proof -
  from assms(5,6) obtain key ct where key: "so_pwhash sd passphrase salt = Some key"
    and ct: "koe_encrypt sd (id_pk ident @ id_sk ident) nonce key = Some ct"
    and fs': "fs' path = Some (identity_magic @ salt @ nonce @ ct)"
    by (auto simp: koe_identity_save_def Let_def split: option.splits) (metis option.distinct(1) option.inject)
  let ?file = "identity_magic @ salt @ nonce @ ct"
  have dec: "koe_decrypt sd ct nonce key = Some (id_pk ident @ id_sk ident)" "length ct = 112"
    using koe_decrypt_encrypt [OF assms(1) ct] assms(2) by (simp_all add: wf_identity_def)
  have magic: "length identity_magic = 5" by (simp add: identity_magic_def)
  have read: "mem_read 5 16 ?file = salt" "mem_read 21 24 ?file = nonce" "mem_read 45 112 ?file = ct"
    using assms(3,4) magic dec(2) by (simp_all add: mem_read_def)
  have "mem_read 0 32 (id_pk ident @ id_sk ident) = id_pk ident"
    "mem_read 32 64 (id_pk ident @ id_sk ident) = id_sk ident"
    using assms(2) by (simp_all add: mem_read_def wf_identity_def)
  then show ?thesis
    using magic dec assms(3,4) read by (simp add: koe_identity_load_def fs' key)
qed

text \<open>The short id of a public key is always 15 characters of the base58 alphabet (nothing
  is cut off by the 16-byte buffer), and two keys have the same short id exactly when their
  first eight bytes agree.\<close>

theorem short_id_faithful:
  assumes "length pk = 32" and "length pk' = 32"
  shows "length (koe_identity_short_id pk) = 15 \<and>
    set (koe_identity_short_id pk) \<subseteq> set B58_ALPHA \<and>
    (koe_identity_short_id pk = koe_identity_short_id pk' \<longleftrightarrow> take 8 pk = take 8 pk')"
proof -
  have "take 8 pk = take 8 pk'" if "koe_identity_short_id pk = koe_identity_short_id pk'"
  proof -
    have "unat (be64_dec (take 8 pk)) = unat (be64_dec (take 8 pk'))"
      using that koe_identity_short_id_props(3) [of pk] koe_identity_short_id_props(3) [of pk'] assms
      by simp
    then have "be64_dec (take 8 pk) = be64_dec (take 8 pk')" by (simp only: unsigned_word_eqI)
    then show ?thesis using assms by (simp add: u64be.dec_inject)
  qed
  moreover have "koe_identity_short_id pk = koe_identity_short_id pk'" if "take 8 pk = take 8 pk'"
    using that by (simp add: koe_identity_short_id_def)
  ultimately show ?thesis using koe_identity_short_id_props [of pk] assms by auto
qed

theorem short_id_faithful_witness:
  "koe_identity_short_id (replicate 32 0) = ''111111111111111'' \<and>
   koe_identity_short_id (replicate 32 0) \<noteq> koe_identity_short_id (replicate 32 1)"
proof -
  have "koe_identity_short_id (replicate 32 0) = ''111111111111111''" by code_simp
  with short_id_faithful [of "replicate 32 0" "replicate 32 1"] show ?thesis by simp
qed

text \<open>A verification token is six decimal digits; checked against the same nonce and key it
  is accepted up to 30 seconds after it was issued and refused afterwards, and within that
  time a different six-digit code is refused.\<close>

theorem verify_token_lifecycle:
  assumes "koe_verify_token_generate sd rnd pk = (rc, token, nonce)"
  shows "rc = 0 \<and> length token = 6 \<and> set token \<subseteq> set decimal_digits \<and>
    koe_verify_token_check sd token nonce pk issued now = (if now - issued \<le> 30 then 0 else -1) \<and>
    (take 6 other \<noteq> token \<longrightarrow> koe_verify_token_check sd other nonce pk issued now = -1)"
proof -
  let ?v = "le32_dec (take 4 (so_generichash sd 32 32 (nonce @ pk))) mod 1000000"
  have "unat ?v < 10 ^ 6" by (simp add: unat_mod)
  then have tok: "length (show_dec_pad 6 (unat ?v)) = 6" by (simp add: length_show_dec_pad)
  moreover have "token_of sd nonce pk = show_dec_pad 6 (unat ?v)"
    using tok by (simp add: token_of_def snprintf_str_def Let_def)
  ultimately show ?thesis
    using assms set_show_dec_pad [of 6 "unat ?v"]
    by (auto simp: koe_verify_token_generate_def koe_verify_token_check_def)
qed

theorem verify_token_lifecycle_witness:
  "koe_verify_token_check demo_sodium (token_of demo_sodium (replicate 16 1) (replicate 32 2))
     (replicate 16 1) (replicate 32 2) 100 130 = 0 \<and>
   koe_verify_token_check demo_sodium (token_of demo_sodium (replicate 16 1) (replicate 32 2))
     (replicate 16 1) (replicate 32 2) 100 131 = -1 \<and>
   koe_verify_token_check demo_sodium ''abcdef'' (replicate 16 1) (replicate 32 2) 100 130 = -1"
proof -
  let ?t = "token_of demo_sodium (replicate 16 1) (replicate 32 2)"
  have gen: "koe_verify_token_generate demo_sodium (replicate 16 1) (replicate 32 2) = (0, ?t, replicate 16 1)"
    by (simp add: koe_verify_token_generate_def)
  have "CHR ''a'' \<notin> set decimal_digits" by (simp add: decimal_digits_def)
  moreover have "set ?t \<subseteq> set decimal_digits"
    using verify_token_lifecycle [OF gen, of 100 130 "''abcdef''"] by simp
  moreover have "CHR ''a'' \<in> set (take 6 ''abcdef'')" by simp
  ultimately have "take 6 ''abcdef'' \<noteq> ?t" by (metis subsetD)
  then show ?thesis
    using verify_token_lifecycle [OF gen, of 100 130 "''abcdef''"]
      verify_token_lifecycle [OF gen, of 100 131 "''abcdef''"] by simp
qed

end
