(* ===== verification/Koe_Message.thy ===== *)
theory Koe_Message
  imports Koe_Crypto Koe_Packet
begin

text \<open>
  Application messages (\<^verbatim>\<open>src/koe_message.c\<close>): allocation with a time-based id, signing,
  self-destruct and scheduling, and the conversion to and from encrypted packets. The lemmas
  show that a message encrypted under one end of a session decrypts to the same body at the
  other end, when a message is due or expired, that ids grow, and that the packets carry no
  header checksum. A message pointer is a value here, so the \<open>NULL\<close> checks on it do not
  appear; the body pointer can be \<open>NULL\<close>.
\<close>

section \<open>Model\<close>

datatype koe_msg_type = KOE_MSG_TEXT | KOE_MSG_AUDIO | KOE_MSG_MEDIA | KOE_MSG_GROUP

datatype koe_msg_status =
  KOE_STATUS_PENDING | KOE_STATUS_SENT | KOE_STATUS_DELIVERED | KOE_STATUS_READ | KOE_STATUS_FAILED

fun status_code :: "koe_msg_status \<Rightarrow> int" where
  "status_code KOE_STATUS_PENDING = 0"
| "status_code KOE_STATUS_SENT = 1"
| "status_code KOE_STATUS_DELIVERED = 2"
| "status_code KOE_STATUS_READ = 3"
| "status_code KOE_STATUS_FAILED = 4"

record koe_message =
  m_id :: u64
  m_type :: koe_msg_type
  m_status :: koe_msg_status
  m_from :: bytes
  m_to :: bytes
  m_body :: "bytes ptr"
  m_body_len :: nat
  m_sig :: bytes
  m_sent_at :: unix_time
  m_delivered_at :: unix_time
  m_read_at :: unix_time
  m_destruct_after_seconds :: u32
  m_destruct_at :: unix_time
  m_scheduled_at :: unix_time
  m_is_secret :: int

text \<open>The bytes at \<open>body\<close>, \<open>body_len\<close> of them.\<close>

definition body_bytes :: "koe_message \<Rightarrow> bytes" where
  "body_bytes msg = (case m_body msg of NULL \<Rightarrow> [] | Some b \<Rightarrow> take (m_body_len msg) b)"

definition wf_message :: "koe_message \<Rightarrow> bool" where [koe_wf]:
  "wf_message msg \<longleftrightarrow> length (m_from msg) = 32 \<and> length (m_to msg) = 32 \<and> length (m_sig msg) = 64 \<and>
     (case m_body msg of NULL \<Rightarrow> m_body_len msg = 0 | Some b \<Rightarrow> length b = m_body_len msg)"

text \<open>\<open>tv_sec\<close> and \<open>tv_nsec\<close> come from \<open>clock_gettime\<close>; \<open>ctr\<close> is \<open>g_message_id_counter\<close>. The
  result is the id and the new counter.\<close>

definition generate_message_id :: "nat \<Rightarrow> nat \<Rightarrow> u64 \<Rightarrow> u64 \<times> u64" where
  "generate_message_id tv_sec tv_nsec ctr =
     (let ident = of_nat tv_sec * 1000000 + of_nat (tv_nsec div 1000); ctr = ctr + 1
      in (ident + ctr, ctr))"

text \<open>\<open>mal 0\<close> is the struct, \<open>mal 1\<close> the body; \<open>now\<close> is \<open>time(NULL)\<close>.\<close>

definition koe_message_alloc ::
  "alloc \<Rightarrow> nat \<Rightarrow> nat \<Rightarrow> unix_time \<Rightarrow> koe_msg_type \<Rightarrow> bytes \<Rightarrow> bytes ptr \<Rightarrow> nat \<Rightarrow> u64 \<Rightarrow>
   koe_message ptr \<times> u64" where
  "koe_message_alloc mal tv_sec tv_nsec now type to body body_len ctr =
     (case body of
        NULL \<Rightarrow> (NULL, ctr)
      | Some b \<Rightarrow>
          if body_len = 0 then (NULL, ctr)
          else if \<not> mal 0 then (NULL, ctr)
          else
            let (ident, ctr) = generate_message_id tv_sec tv_nsec ctr
            in if \<not> mal 1 then (NULL, ctr)
               else (Some \<lparr>m_id = ident, m_type = type, m_status = KOE_STATUS_PENDING,
                       m_from = replicate 32 0, m_to = to, m_body = Some (take body_len b),
                       m_body_len = body_len, m_sig = replicate 64 0, m_sent_at = now,
                       m_delivered_at = 0, m_read_at = 0, m_destruct_after_seconds = 0,
                       m_destruct_at = 0, m_scheduled_at = 0, m_is_secret = 0\<rparr>, ctr))"

definition koe_message_sign :: "sodium \<Rightarrow> koe_message \<Rightarrow> koe_identity \<Rightarrow> int \<times> koe_message" where
  "koe_message_sign sd msg ident =
     (case koe_sign sd (body_bytes msg) ident of
        None \<Rightarrow> (-1, msg)
      | Some sig \<Rightarrow> (0, msg\<lparr>m_sig := sig, m_from := id_pk ident\<rparr>))"

definition koe_message_verify :: "sodium \<Rightarrow> koe_message \<Rightarrow> int" where
  "koe_message_verify sd msg =
     (case m_body msg of
        NULL \<Rightarrow> -1
      | Some b \<Rightarrow> koe_verify sd (m_sig msg) (take (m_body_len msg) b) (m_from msg))"

definition koe_message_set_destruct :: "unix_time \<Rightarrow> koe_message \<Rightarrow> u32 \<Rightarrow> koe_message" where
  "koe_message_set_destruct now msg ttl_seconds =
     (if ttl_seconds = 0 then msg
      else msg\<lparr>m_destruct_after_seconds := ttl_seconds, m_destruct_at := now + uint ttl_seconds\<rparr>)"

definition koe_message_should_destruct :: "unix_time \<Rightarrow> koe_message \<Rightarrow> bool" where
  "koe_message_should_destruct now msg =
     (if m_destruct_after_seconds msg = 0 then False else now \<ge> m_destruct_at msg)"

definition koe_message_schedule :: "koe_message \<Rightarrow> unix_time \<Rightarrow> koe_message" where
  "koe_message_schedule msg send_at = msg\<lparr>m_scheduled_at := send_at\<rparr>"

definition koe_message_is_due :: "unix_time \<Rightarrow> koe_message \<Rightarrow> bool" where
  "koe_message_is_due now msg =
     (if m_scheduled_at msg = 0 then True else now \<ge> m_scheduled_at msg)"

text \<open>\<open>nonce\<close> are the 24 random bytes, \<open>mal 0\<close> the ciphertext buffer.\<close>

definition koe_message_encrypt ::
  "sodium \<Rightarrow> alloc \<Rightarrow> bytes \<Rightarrow> koe_message \<Rightarrow> koe_session \<Rightarrow> int \<times> koe_packet" where
  "koe_message_encrypt sd mal nonce msg sess =
     (let pkt = koe_packet_init (type_code KOE_TYPE_MSG) (flag_bit KOE_FLAG_ENCRYPTED);
          pkt = pkt\<lparr>header := (header pkt)\<lparr>h_from := m_from msg, h_to := m_to msg, h_nonce := nonce\<rparr>\<rparr>;
          ct_len = size_t (m_body_len msg + 16)
      in if \<not> mal 0 then (-1, pkt)
         else case koe_encrypt sd (body_bytes msg) nonce (tx_key sess) of
           None \<Rightarrow> (-1, pkt)
         | Some ciphertext \<Rightarrow>
             (0, pkt\<lparr>header := (header pkt)\<lparr>h_length := of_nat ct_len,
                       h_flags := h_flags (header pkt) OR flag_bit KOE_FLAG_SIGNED\<rparr>,
                     payload := Some ciphertext\<rparr>))"

text \<open>\<open>None\<close> is the decryption of a \<open>NULL\<close> payload whose announced length is not zero.\<close>

definition koe_message_decrypt ::
  "sodium \<Rightarrow> alloc \<Rightarrow> unix_time \<Rightarrow> koe_message \<Rightarrow> koe_packet \<Rightarrow> koe_session \<Rightarrow>
   (int \<times> koe_message) option" where
  "koe_message_decrypt sd mal now msg pkt sess =
     (if h_flags (header pkt) AND flag_bit KOE_FLAG_ENCRYPTED = 0 then Some (-1, msg)
      else if h_length (header pkt) < 16 then Some (-1, msg)
      else
        let plain_len = unat (h_length (header pkt)) - 16
        in if \<not> mal 0 then Some (-1, msg)
           else case payload pkt of
             NULL \<Rightarrow> None
           | Some pay \<Rightarrow>
               case koe_decrypt sd (take (unat (h_length (header pkt))) pay) (h_nonce (header pkt)) (rx_key sess) of
                 None \<Rightarrow> Some (-1, msg)
               | Some plaintext \<Rightarrow>
                   Some (0, msg\<lparr>m_body := Some plaintext, m_body_len := plain_len,
                     m_from := h_from (header pkt), m_to := h_to (header pkt),
                     m_status := KOE_STATUS_DELIVERED, m_delivered_at := now\<rparr>))"

text \<open>What the memory of the message holds when it is released.\<close>

definition koe_message_free :: "koe_message ptr \<Rightarrow> koe_message ptr" where
  "koe_message_free msg =
     map_option (\<lambda>m. m\<lparr>m_body := map_option (\<lambda>b. replicate (m_body_len m) 0 @ drop (m_body_len m) b) (m_body m),
       m_sig := replicate 64 0, m_from := replicate 32 0, m_to := replicate 32 0\<rparr>) msg"

section \<open>Lemmas\<close>

text \<open>No byte of the body, the signature or the addresses of a freed message remains.\<close>

lemma message_freed_clean:
  assumes "wf_message m"
  shows "\<exists>m'. koe_message_free (Some m) = Some m' \<and> body_bytes m' = replicate (m_body_len m) 0 \<and> m_sig m' = replicate 64 0
    \<and> m_from m' = replicate 32 0 \<and> m_to m' = replicate 32 0"
  using assms by (auto simp: koe_message_free_def wf_message_def body_bytes_def split: option.splits)

lemma wf_body_bytes: "wf_message msg \<Longrightarrow> length (body_bytes msg) = m_body_len msg"
  by (auto simp: wf_message_def body_bytes_def split: option.splits)

lemma koe_message_alloc_wf:
  "koe_message_alloc mal s n now ty to body len ctr = (Some msg, ctr') \<Longrightarrow> length to = 32 \<Longrightarrow>
   body = Some b \<Longrightarrow> length b = len \<Longrightarrow>
   wf_message msg \<and> body_bytes msg = b \<and> m_to msg = to \<and> m_type msg = ty \<and> 0 < m_body_len msg"
  by (auto simp: koe_message_alloc_def generate_message_id_def wf_message_def body_bytes_def Let_def
      split: if_splits)

text \<open>The packet a successful encryption produces.\<close>

lemma koe_message_encrypt_ok:
  assumes "koe_message_encrypt sd mal nonce msg sess = (0, pkt)"
  obtains ct where "koe_encrypt sd (body_bytes msg) nonce (tx_key sess) = Some ct"
    and "payload pkt = Some ct" and "h_length (header pkt) = of_nat (size_t (m_body_len msg + 16))"
    and "h_from (header pkt) = m_from msg" and "h_to (header pkt) = m_to msg"
    and "h_nonce (header pkt) = nonce" and "h_checksum (header pkt) = 0"
    and "h_flags (header pkt) = 3" and "h_magic (header pkt) = KOE_MAGIC"
    and "h_proto_major (header pkt) = KOE_PROTO_MAJOR" and "h_proto_minor (header pkt) = KOE_PROTO_MINOR"
    and "h_reserved (header pkt) = [0, 0]" and "h_type (header pkt) = type_code KOE_TYPE_MSG"
  using assms by (auto simp: koe_message_encrypt_def Let_def split: if_splits option.splits)

lemma koe_message_encrypt_wire:
  assumes "aead_ok sd" and "wf_message msg" and "m_body_len msg + 16 \<le> KOE_MAX_PAYLOAD" and "length nonce = 24"
    and "koe_message_encrypt sd mal nonce msg sess = (0, pkt)"
  shows "wire_packet pkt"
  using assms(5)
proof (rule koe_message_encrypt_ok)
  fix ct
  assume "koe_encrypt sd (body_bytes msg) nonce (tx_key sess) = Some ct"
  then have "length ct = m_body_len msg + 16"
    using koe_decrypt_encrypt [OF assms(1)] wf_body_bytes [OF assms(2)] by simp
  moreover have "unat (of_nat (m_body_len msg + 16) :: u32) = m_body_len msg + 16"
    using assms(3) by (intro unat_of_nat_small) simp
  moreover have "size_t (m_body_len msg + 16) = m_body_len msg + 16" using assms(3) by simp
  moreover assume "payload pkt = Some ct" "h_length (header pkt) = of_nat (size_t (m_body_len msg + 16))"
    "h_from (header pkt) = m_from msg" "h_to (header pkt) = m_to msg"
    "h_nonce (header pkt) = nonce" "h_magic (header pkt) = KOE_MAGIC" "h_reserved (header pkt) = [0, 0]"
  ultimately show ?thesis
    using assms(2-4) by (auto simp: wire_packet_def wf_packet_def wf_header_def wf_message_def)
qed

lemma koe_message_decrypt_encrypt:
  assumes "aead_ok sd" and "wf_message msg" and "m_body_len msg + 16 < 2 ^ 32"
    and "koe_message_encrypt sd mal nonce msg sa = (0, pkt)" and "tx_key sa = rx_key sb" and "mal' 0"
  shows "koe_message_decrypt sd mal' now msg0 pkt sb =
    Some (0, msg0\<lparr>m_body := Some (body_bytes msg), m_body_len := m_body_len msg, m_from := m_from msg,
      m_to := m_to msg, m_status := KOE_STATUS_DELIVERED, m_delivered_at := now\<rparr>)"
  using assms(4)
proof (rule koe_message_encrypt_ok)
  fix ct
  assume ct: "koe_encrypt sd (body_bytes msg) nonce (tx_key sa) = Some ct"
  note dec = koe_decrypt_encrypt [OF assms(1) ct]
  have len: "length ct = m_body_len msg + 16" using dec wf_body_bytes [OF assms(2)] by simp
  have small: "size_t (m_body_len msg + 16) = m_body_len msg + 16"
    "unat (of_nat (m_body_len msg + 16) :: u32) = m_body_len msg + 16"
    using assms(3) by (simp, intro unat_of_nat_small) simp
  assume "payload pkt = Some ct" "h_length (header pkt) = of_nat (size_t (m_body_len msg + 16))"
    "h_from (header pkt) = m_from msg" "h_to (header pkt) = m_to msg"
    "h_nonce (header pkt) = nonce" "h_flags (header pkt) = 3"
  moreover from this have "unat (h_length (header pkt)) = length ct" by (simp add: small len del: of_nat_add)
  ultimately show ?thesis
    using dec len assms(5,6) by (simp add: koe_message_decrypt_def word_less_nat_alt)
qed

section \<open>Properties\<close>

text \<open>C14. A message encrypted with one end's transmit key decrypts at the end that receives with
  that key: decryption succeeds and restores the body, sender and recipient, and marks the
  message delivered.\<close>

theorem message_roundtrip:
  assumes "aead_ok sd" and "wf_message msg" and "m_body_len msg + 16 < 2 ^ 32"
    and "koe_message_encrypt sd mal nonce msg sa = (0, pkt)" and "tx_key sa = rx_key sb" and "mal' 0"
  shows "\<exists>msg'. koe_message_decrypt sd mal' now msg0 pkt sb = Some (0, msg') \<and>
    body_bytes msg' = body_bytes msg \<and> m_body_len msg' = m_body_len msg \<and>
    m_from msg' = m_from msg \<and> m_to msg' = m_to msg \<and>
    m_status msg' = KOE_STATUS_DELIVERED \<and> m_delivered_at msg' = now"
  using koe_message_decrypt_encrypt [where mal' = mal', OF assms] wf_body_bytes [OF assms(2)]
  by (simp add: body_bytes_def)

text \<open>A message for the witnesses.\<close>

definition sample_message :: "bytes \<Rightarrow> koe_message" where
  "sample_message body = \<lparr>m_id = 1, m_type = KOE_MSG_TEXT, m_status = KOE_STATUS_PENDING,
     m_from = replicate 32 1, m_to = replicate 32 2, m_body = Some body, m_body_len = length body,
     m_sig = replicate 64 0, m_sent_at = 100, m_delivered_at = 0, m_read_at = 0,
     m_destruct_after_seconds = 0, m_destruct_at = 0, m_scheduled_at = 0, m_is_secret = 0\<rparr>"

lemma wf_sample_message [simp]: "wf_message (sample_message body)"
  by (simp add: wf_message_def sample_message_def)

lemma body_sample_message [simp]:
  "body_bytes (sample_message body) = body" "m_body_len (sample_message body) = length body"
  "m_body (sample_message body) = Some body"
  by (simp_all add: body_bytes_def sample_message_def)

theorem message_roundtrip_witness:
  "\<exists>pkt msg'. koe_message_encrypt demo_sodium (\<lambda>_. True) (replicate 24 3) (sample_message [7, 8, 9])
      \<lparr>tx_key = replicate 32 1, rx_key = replicate 32 2\<rparr> = (0, pkt) \<and>
    koe_message_decrypt demo_sodium (\<lambda>_. True) 200 (sample_message []) pkt
      \<lparr>tx_key = replicate 32 2, rx_key = replicate 32 1\<rparr> = Some (0, msg') \<and>
    body_bytes msg' = [7, 8, 9]"
proof -
  obtain pkt where p: "koe_message_encrypt demo_sodium (\<lambda>_. True) (replicate 24 3) (sample_message [7, 8, 9])
      \<lparr>tx_key = replicate 32 1, rx_key = replicate 32 2\<rparr> = (0, pkt)"
    by (simp add: koe_message_encrypt_def koe_encrypt_def demo_sodium_def Let_def)
  show ?thesis
    using message_roundtrip [where mal' = "\<lambda>_. True", OF demo_aead_ok wf_sample_message _ p,
        of "\<lparr>tx_key = replicate 32 2, rx_key = replicate 32 1\<rparr>" 200 "sample_message []"] p
    by auto
qed

text \<open>Encrypted messages leave the header checksum at zero: the packet that a successful
  encryption returns is marked signed although its payload holds only the ciphertext, its
  checksum field is 0, and header validation therefore accepts it only if the CRC of its
  header happens to be 0.\<close>

theorem encrypted_message_has_no_checksum:
  assumes "koe_message_encrypt sd mal nonce msg sess = (0, pkt)"
  shows "h_checksum (header pkt) = 0 \<and> h_flags (header pkt) AND flag_bit KOE_FLAG_SIGNED \<noteq> 0 \<and>
    payload pkt = koe_encrypt sd (body_bytes msg) nonce (tx_key sess) \<and>
    koe_packet_validate pkt = (if koe_packet_checksum (header pkt) = 0 then 0 else -1)"
  using assms
  by (rule koe_message_encrypt_ok) (simp add: koe_packet_validate_def koe_version_local_def)

theorem encrypted_message_has_no_checksum_witness:
  "\<exists>nonce pkt. length nonce = 24 \<and> koe_packet_validate pkt = -1 \<and>
    koe_message_encrypt demo_sodium (\<lambda>_. True) nonce (sample_message [7, 8, 9])
      \<lparr>tx_key = replicate 32 1, rx_key = replicate 32 2\<rparr> = (0, pkt)"
proof -
  let ?enc = "\<lambda>b. koe_message_encrypt demo_sodium (\<lambda>_. True) (b # replicate 23 0) (sample_message [7, 8, 9])
      \<lparr>tx_key = replicate 32 1, rx_key = replicate 32 2\<rparr>"
  define pre where "pre = KOE_MAGIC @ [KOE_PROTO_MAJOR, KOE_PROTO_MINOR, 4, 3] @ be32 19 @
    replicate 32 1 @ replicate 32 (2 :: u8)"
  have enc: "\<exists>pkt. ?enc b = (0, pkt) \<and> header_prefix (header pkt) = (pre @ [b]) @ replicate 23 0" for b
    by (simp add: koe_message_encrypt_def koe_encrypt_def demo_sodium_def Let_def header_prefix_def pre_def
        sample_message_def)
  obtain p0 where p0: "?enc 0 = (0, p0)" "header_prefix (header p0) = (pre @ [0]) @ replicate 23 0"
    using enc by blast
  obtain p1 where p1: "?enc 1 = (0, p1)" "header_prefix (header p1) = (pre @ [1]) @ replicate 23 0"
    using enc by blast
  have "burst 4 (header_prefix (header p0)) (header_prefix (header p1))"
    unfolding burst_def p0(2) p1(2)
    by (rule exI [of _ pre], rule exI [of _ "[0]"], rule exI [of _ "[1]"]) simp
  then have "koe_packet_checksum (header p0) \<noteq> koe_packet_checksum (header p1)"
    unfolding koe_packet_checksum_def by (rule crc32_burst)
  then have "koe_packet_validate p0 = -1 \<or> koe_packet_validate p1 = -1"
    using encrypted_message_has_no_checksum [OF p0(1)] encrypted_message_has_no_checksum [OF p1(1)] by auto
  moreover have "length (b # replicate 23 0) = 24" for b :: u8 by simp
  ultimately show ?thesis using p0(1) p1(1) by blast
qed

text \<open>Self-destruct and scheduling: after setting a non-zero time to live at time \<open>now\<close> a
  message is expired exactly from \<open>now + ttl\<close> on, a time to live of zero changes nothing, a
  message without one never expires, and a scheduled message is due exactly from its send time
  on (an unscheduled one always).\<close>

theorem destruct_and_schedule:
  "koe_message_should_destruct later (koe_message_set_destruct now msg ttl) =
     (if ttl = 0 then koe_message_should_destruct later msg else now + uint ttl \<le> later) \<and>
   (m_destruct_after_seconds msg = 0 \<longrightarrow> \<not> koe_message_should_destruct later msg) \<and>
   koe_message_is_due later (koe_message_schedule msg at) = (at = 0 \<or> at \<le> later)"
  by (auto simp: koe_message_should_destruct_def koe_message_set_destruct_def
      koe_message_is_due_def koe_message_schedule_def)

theorem destruct_and_schedule_witness:
  "\<not> koe_message_should_destruct 159 (koe_message_set_destruct 100 (sample_message [1]) 60) \<and>
   koe_message_should_destruct 160 (koe_message_set_destruct 100 (sample_message [1]) 60) \<and>
   \<not> koe_message_should_destruct 999 (sample_message [1])"
  using destruct_and_schedule [of 159 100 "sample_message [1]" 60 0]
    destruct_and_schedule [of 160 100 "sample_message [1]" 60 0]
    destruct_and_schedule [of 999 100 "sample_message [1]" 60 0]
  by (simp add: sample_message_def)

text \<open>Signing a message and verifying it succeeds, and records the signer as the sender.\<close>

lemma message_sign_verify:
  assumes "wf_message msg" and "m_body msg \<noteq> NULL" and "sign_ok sd (id_pk ident) (id_sk ident)"
    and "koe_message_sign sd msg ident = (0, msg')"
  shows "koe_message_verify sd msg' = 0 \<and> m_from msg' = id_pk ident \<and> body_bytes msg' = body_bytes msg"
  using assms(2-) koe_verify_sign [OF assms(3)]
  by (auto simp: koe_message_sign_def koe_message_verify_def body_bytes_def split: option.splits)

text \<open>Message ids grow: between two allocations with a clock that does not run backwards
  (and before the 64-bit counter wraps), the later message has the larger id.\<close>

lemma message_ids_increase:
  assumes "generate_message_id s1 n1 ctr = (id1, ctr1)" and "generate_message_id s2 n2 ctr1 = (id2, ctr2)"
    and "s1 * 1000000 + n1 div 1000 \<le> s2 * 1000000 + n2 div 1000"
    and "s2 * 1000000 + n2 div 1000 + unat ctr + 2 < 2 ^ 64"
  shows "id1 < id2"
proof -
  have id1: "id1 = of_nat (s1 * 1000000 + n1 div 1000 + unat ctr + 1)"
    and id2: "id2 = of_nat (s2 * 1000000 + n2 div 1000 + unat ctr + 2)"
    using assms(1,2) by (auto simp: generate_message_id_def Let_def)
  have "unat id1 = s1 * 1000000 + n1 div 1000 + unat ctr + 1"
    unfolding id1 using assms(3,4) by (intro unat_of_nat_small) simp
  moreover have "unat id2 = s2 * 1000000 + n2 div 1000 + unat ctr + 2"
    unfolding id2 using assms(4) by (intro unat_of_nat_small) simp
  ultimately show ?thesis using assms(3) by (simp add: word_less_nat_alt)
qed

end
