(* ===== verification/Koe_Db.thy ===== *)
theory Koe_Db
  imports Koe_Prelude "HOL-Library.Multiset"
begin

text \<open>
  The database layer (\<^verbatim>\<open>src/koe_db.c\<close>, SQLite backend). SQLite is not part of the
  repository; what is modelled is the meaning of the SQL statements the code contains, on
  tables that are lists of rows in rowid order, with the AUTOINCREMENT counters. Every
  statement may fail: \<open>sq_prep i\<close> and \<open>sq_step i\<close> say whether the \<open>i\<close>-th
  \<open>sqlite3_prepare_v2\<close> and \<open>sqlite3_step\<close> of a call succeed, and \<open>sq_pick\<close> resolves the
  order of rows with equal \<open>ORDER BY\<close> keys, which SQL leaves open. A connection pointer may be
  \<open>NULL\<close>, and so may its SQLite handle.
\<close>

section \<open>Types\<close>

datatype koe_db_backend = KOE_DB_SQLITE | KOE_DB_POSTGRES | KOE_DB_MYSQL

record koe_db_config =
  dg_backend :: koe_db_backend
  dg_sqlite_path :: "string ptr"
  dg_host :: "string ptr"
  dg_port :: u16
  dg_database :: "string ptr"
  dg_user :: "string ptr"
  dg_password :: "string ptr"
  dg_use_tls :: int
  dg_pool_size :: int

record koe_db_message =
  dm_id :: int
  dm_from_pk :: bytes
  dm_to_pk :: bytes
  dm_body_encrypted :: bytes
  dm_sent_at :: unix_time
  dm_delivered_at :: unix_time
  dm_read_at :: unix_time
  dm_destruct_at :: unix_time
  dm_status :: int
  dm_is_secret :: int

record koe_db_contact =
  dc_pk :: bytes
  dc_display_name :: string
  dc_short_id :: string
  dc_added_at :: unix_time
  dc_last_seen :: unix_time
  dc_blocked :: int
  dc_verified :: int

record koe_db_queued =
  dq_id :: int
  dq_to_pk :: bytes
  dq_packet_bytes :: "bytes ptr"
  dq_queued_at :: unix_time
  dq_expires_at :: unix_time
  dq_sequence :: int

text \<open>The database: the three tables, the AUTOINCREMENT counters, and what
  \<open>sqlite3_last_insert_rowid\<close> and \<open>sqlite3_changes\<close> report.\<close>

record koe_db =
  db_messages :: "koe_db_message list"
  db_contacts :: "koe_db_contact list"
  db_queue :: "koe_db_queued list"
  db_messages_seq :: int
  db_queue_seq :: int
  db_last_rowid :: int
  db_changes :: nat

record koe_db_conn =
  cn_backend :: koe_db_backend
  cn_sqlite :: "koe_db ptr"

record sql_env =
  sq_prep :: "nat \<Rightarrow> bool"
  sq_step :: "nat \<Rightarrow> bool"
  sq_pick :: "koe_db_queued list \<Rightarrow> nat"

definition empty_db :: koe_db where
  "empty_db = \<lparr>db_messages = [], db_contacts = [], db_queue = [], db_messages_seq = 0,
     db_queue_seq = 0, db_last_rowid = 0, db_changes = 0\<rparr>"

text \<open>\<open>koe_db_queued_t q = {0}\<close>.\<close>

definition zero_queued :: koe_db_queued where
  "zero_queued = \<lparr>dq_id = 0, dq_to_pk = replicate 32 0, dq_packet_bytes = NULL, dq_queued_at = 0,
     dq_expires_at = 0, dq_sequence = 0\<rparr>"

section \<open>Statements\<close>

text \<open>The effect of each SQL statement on the tables.\<close>

definition msg_insert :: "koe_db_message \<Rightarrow> koe_db \<Rightarrow> koe_db" where
  "msg_insert row db =
     (let rid = db_messages_seq db + 1
      in db\<lparr>db_messages := db_messages db @ [row\<lparr>dm_id := rid\<rparr>], db_messages_seq := rid,
            db_last_rowid := rid, db_changes := 1\<rparr>)"

definition msg_update :: "int \<Rightarrow> (koe_db_message \<Rightarrow> koe_db_message) \<Rightarrow> koe_db \<Rightarrow> koe_db" where
  "msg_update rid f db =
     db\<lparr>db_messages := map (\<lambda>r. if dm_id r = rid then f r else r) (db_messages db),
        db_changes := length (filter (\<lambda>r. dm_id r = rid) (db_messages db))\<rparr>"

definition msg_delete :: "(koe_db_message \<Rightarrow> bool) \<Rightarrow> koe_db \<Rightarrow> koe_db" where
  "msg_delete P db =
     db\<lparr>db_messages := filter (\<lambda>r. \<not> P r) (db_messages db),
        db_changes := length (filter P (db_messages db))\<rparr>"

definition contact_replace :: "koe_db_contact \<Rightarrow> koe_db \<Rightarrow> koe_db" where
  "contact_replace c db =
     db\<lparr>db_contacts := filter (\<lambda>r. dc_pk r \<noteq> dc_pk c) (db_contacts db) @ [c], db_changes := 1\<rparr>"

definition contact_update :: "bytes \<Rightarrow> (koe_db_contact \<Rightarrow> koe_db_contact) \<Rightarrow> koe_db \<Rightarrow> koe_db" where
  "contact_update pk f db =
     db\<lparr>db_contacts := map (\<lambda>r. if dc_pk r = pk then f r else r) (db_contacts db),
        db_changes := length (filter (\<lambda>r. dc_pk r = pk) (db_contacts db))\<rparr>"

definition contact_remove :: "bytes \<Rightarrow> koe_db \<Rightarrow> koe_db" where
  "contact_remove pk db =
     db\<lparr>db_contacts := filter (\<lambda>r. dc_pk r \<noteq> pk) (db_contacts db),
        db_changes := length (filter (\<lambda>r. dc_pk r = pk) (db_contacts db))\<rparr>"

definition queue_rows :: "koe_db \<Rightarrow> bytes \<Rightarrow> koe_db_queued list" where
  "queue_rows db pk = filter (\<lambda>r. dq_to_pk r = pk) (db_queue db)"

definition queue_insert :: "koe_db_queued \<Rightarrow> koe_db \<Rightarrow> koe_db" where
  "queue_insert row db =
     (let rid = db_queue_seq db + 1
      in db\<lparr>db_queue := db_queue db @ [row\<lparr>dq_id := rid\<rparr>], db_queue_seq := rid,
            db_last_rowid := rid, db_changes := 1\<rparr>)"

text \<open>\<open>SELECT \<dots> WHERE to_pk=? ORDER BY sequence ASC LIMIT 1\<close>.\<close>

definition queue_select :: "(koe_db_queued list \<Rightarrow> nat) \<Rightarrow> bytes \<Rightarrow> koe_db \<Rightarrow> koe_db_queued option" where
  "queue_select pick pk db =
     (let rows = queue_rows db pk;
          least = filter (\<lambda>r. list_all (\<lambda>r'. dq_sequence r \<le> dq_sequence r') rows) rows
      in if least = [] then None else Some (least ! (pick least mod length least)))"

definition queue_delete :: "(koe_db_queued \<Rightarrow> bool) \<Rightarrow> koe_db \<Rightarrow> koe_db" where
  "queue_delete P db =
     db\<lparr>db_queue := filter (\<lambda>r. \<not> P r) (db_queue db),
        db_changes := length (filter P (db_queue db))\<rparr>"

section \<open>Operations\<close>

text \<open>A function that prepares one writing statement, steps it, and returns 0 exactly when the
  step completes; the guards on the connection come first.\<close>

definition sql_write :: "sql_env \<Rightarrow> (koe_db \<Rightarrow> koe_db) \<Rightarrow> koe_db_conn ptr \<Rightarrow> int \<times> koe_db_conn ptr" where
  "sql_write env f conn =
     (case conn of
        NULL \<Rightarrow> (-1, conn)
      | Some c \<Rightarrow>
          case cn_sqlite c of
            NULL \<Rightarrow> (-1, conn)
          | Some db \<Rightarrow>
              if \<not> sq_prep env 0 then (-1, conn)
              else if \<not> sq_step env 0 then (-1, conn)
              else (0, Some (c\<lparr>cn_sqlite := Some (f db)\<rparr>)))"

text \<open>\<open>opened\<close> is the result of \<open>sqlite3_open\<close>, the database found at the path, and
  \<open>schema_ok\<close> of running the schema, which leaves existing tables alone.\<close>

definition koe_db_open :: "alloc \<Rightarrow> koe_db option \<Rightarrow> bool \<Rightarrow> koe_db_backend \<Rightarrow> koe_db_conn ptr" where
  "koe_db_open mal opened schema_ok backend =
     (if \<not> mal 0 then NULL
      else if backend = KOE_DB_SQLITE then
        case opened of
          None \<Rightarrow> NULL
        | Some db \<Rightarrow> if schema_ok then Some \<lparr>cn_backend = backend, cn_sqlite = Some db\<rparr> else NULL
      else NULL)"

text \<open>The cache. The Redis client is not linked, so an open cache is never enabled. \<open>ok\<close> is the
  allocation. \<open>koe_cache_close\<close> only releases memory.\<close>

datatype koe_cache_backend = KOE_CACHE_NONE | KOE_CACHE_REDIS

record koe_cache_config =
  cg_backend :: koe_cache_backend
  cg_host :: "string ptr"
  cg_port :: u16
  cg_password :: "string ptr"
  cg_db_index :: int
  cg_enabled :: int

record koe_cache_conn =
  cc_backend :: koe_cache_backend
  cc_enabled :: int

definition koe_cache_open :: "bool \<Rightarrow> koe_cache_config ptr \<Rightarrow> koe_cache_conn ptr" where
  "koe_cache_open ok cfg =
     (case cfg of
        NULL \<Rightarrow> NULL
      | Some g \<Rightarrow> if cg_enabled g = 0 then NULL else if \<not> ok then NULL else Some \<lparr>cc_backend = cg_backend g, cc_enabled = 0\<rparr>)"

abbreviation cache_off :: "koe_cache_conn ptr \<Rightarrow> bool" where
  "cache_off cache \<equiv> (case cache of None \<Rightarrow> True | Some c \<Rightarrow> cc_enabled c = 0)"

definition koe_cache_group_set :: "koe_cache_conn ptr \<Rightarrow> string \<Rightarrow> bytes \<Rightarrow> int \<Rightarrow> int" where
  "koe_cache_group_set cache group_id members ttl_seconds = (if cache_off cache then 0 else 0)"

text \<open>The result and \<open>out_count\<close>.\<close>

definition koe_cache_group_get :: "koe_cache_conn ptr \<Rightarrow> string \<Rightarrow> int \<Rightarrow> int \<times> int" where
  "koe_cache_group_get cache group_id out_count = (if cache_off cache then (1, out_count) else (1, 0))"

definition koe_cache_group_invalidate :: "koe_cache_conn ptr \<Rightarrow> string \<Rightarrow> int" where
  "koe_cache_group_invalidate cache group_id = (if cache_off cache then 0 else 0)"

definition koe_db_migrate :: "bool \<Rightarrow> koe_db_conn ptr \<Rightarrow> int" where
  "koe_db_migrate schema_ok conn =
     (case conn of
        NULL \<Rightarrow> -1
      | Some c \<Rightarrow> if cn_sqlite c = NULL then -1 else if schema_ok then 0 else -1)"

definition koe_db_message_insert ::
  "sql_env \<Rightarrow> koe_db_conn ptr \<Rightarrow> koe_db_message \<Rightarrow> int \<times> koe_db_conn ptr \<times> koe_db_message" where
  "koe_db_message_insert env conn msg =
     (case conn of
        NULL \<Rightarrow> (-1, conn, msg)
      | Some c \<Rightarrow>
          case cn_sqlite c of
            NULL \<Rightarrow> (-1, conn, msg)
          | Some db \<Rightarrow>
              if \<not> sq_prep env 0 then (-1, conn, msg)
              else
                let db = (if sq_step env 0 then msg_insert msg db else db);
                    msg = msg\<lparr>dm_id := db_last_rowid db\<rparr>
                in (if sq_step env 0 then 0 else -1, Some (c\<lparr>cn_sqlite := Some db\<rparr>), msg))"

definition koe_db_message_update_status ::
  "sql_env \<Rightarrow> koe_db_conn ptr \<Rightarrow> int \<Rightarrow> u8 \<Rightarrow> int \<times> koe_db_conn ptr" where
  "koe_db_message_update_status env conn rid status =
     sql_write env (msg_update rid (\<lambda>r. r\<lparr>dm_status := uint status\<rparr>)) conn"

definition koe_db_message_mark_delivered ::
  "sql_env \<Rightarrow> koe_db_conn ptr \<Rightarrow> int \<Rightarrow> unix_time \<Rightarrow> int \<times> koe_db_conn ptr" where
  "koe_db_message_mark_delivered env conn rid ts =
     sql_write env (msg_update rid (\<lambda>r. r\<lparr>dm_delivered_at := ts, dm_status := 2\<rparr>)) conn"

definition koe_db_message_mark_read ::
  "sql_env \<Rightarrow> koe_db_conn ptr \<Rightarrow> int \<Rightarrow> unix_time \<Rightarrow> int \<times> koe_db_conn ptr" where
  "koe_db_message_mark_read env conn rid ts =
     sql_write env (msg_update rid (\<lambda>r. r\<lparr>dm_read_at := ts, dm_status := 3\<rparr>)) conn"

definition koe_db_message_delete ::
  "sql_env \<Rightarrow> koe_db_conn ptr \<Rightarrow> int \<Rightarrow> int \<times> koe_db_conn ptr" where
  "koe_db_message_delete env conn rid = sql_write env (msg_delete (\<lambda>r. dm_id r = rid)) conn"

text \<open>The two sweeps look at \<open>sqlite3_changes\<close> whether or not the step completed.\<close>

definition sql_sweep ::
  "sql_env \<Rightarrow> int \<Rightarrow> (koe_db \<Rightarrow> koe_db) \<Rightarrow> koe_db_conn ptr \<Rightarrow> int \<times> koe_db_conn ptr" where
  "sql_sweep env err f conn =
     (case conn of
        NULL \<Rightarrow> (err, conn)
      | Some c \<Rightarrow>
          case cn_sqlite c of
            NULL \<Rightarrow> (err, conn)
          | Some db \<Rightarrow>
              if \<not> sq_prep env 0 then (err, conn)
              else
                let db = (if sq_step env 0 then f db else db)
                in (int (db_changes db), Some (c\<lparr>cn_sqlite := Some db\<rparr>)))"

definition koe_db_destruct_sweep ::
  "sql_env \<Rightarrow> koe_db_conn ptr \<Rightarrow> unix_time \<Rightarrow> int \<times> koe_db_conn ptr" where
  "koe_db_destruct_sweep env conn now =
     sql_sweep env (-1) (msg_delete (\<lambda>r. dm_destruct_at r > 0 \<and> dm_destruct_at r \<le> now)) conn"

definition koe_db_contact_upsert ::
  "sql_env \<Rightarrow> koe_db_conn ptr \<Rightarrow> koe_db_contact \<Rightarrow> int \<times> koe_db_conn ptr" where
  "koe_db_contact_upsert env conn c = sql_write env (contact_replace c) conn"

definition koe_db_contact_delete ::
  "sql_env \<Rightarrow> koe_db_conn ptr \<Rightarrow> bytes \<Rightarrow> int \<times> koe_db_conn ptr" where
  "koe_db_contact_delete env conn pk = sql_write env (contact_remove pk) conn"

definition koe_db_contact_find ::
  "sql_env \<Rightarrow> koe_db_conn ptr \<Rightarrow> bytes \<Rightarrow> koe_db_contact \<Rightarrow> int \<times> koe_db_contact" where
  "koe_db_contact_find env conn pk out =
     (case conn of
        NULL \<Rightarrow> (-1, out)
      | Some c \<Rightarrow>
          case cn_sqlite c of
            NULL \<Rightarrow> (-1, out)
          | Some db \<Rightarrow>
              if \<not> sq_prep env 0 then (-1, out)
              else if \<not> sq_step env 0 then (-1, out)
              else case filter (\<lambda>r. dc_pk r = pk) (db_contacts db) of
                [] \<Rightarrow> (-1, out)
              | r # _ \<Rightarrow> (0, r\<lparr>dc_display_name := strncpy_str 63 (dc_display_name r),
                              dc_short_id := strncpy_str 15 (dc_short_id r)\<rparr>))"

definition koe_db_contact_set_blocked ::
  "sql_env \<Rightarrow> koe_db_conn ptr \<Rightarrow> bytes \<Rightarrow> int \<Rightarrow> int \<times> koe_db_conn ptr" where
  "koe_db_contact_set_blocked env conn pk blocked =
     sql_write env (contact_update pk (\<lambda>r. r\<lparr>dc_blocked := blocked\<rparr>)) conn"

definition koe_db_contact_set_verified ::
  "sql_env \<Rightarrow> koe_db_conn ptr \<Rightarrow> bytes \<Rightarrow> int \<Rightarrow> int \<times> koe_db_conn ptr" where
  "koe_db_contact_set_verified env conn pk verified =
     sql_write env (contact_update pk (\<lambda>r. r\<lparr>dc_verified := verified\<rparr>)) conn"

definition koe_db_queue_push ::
  "sql_env \<Rightarrow> koe_db_conn ptr \<Rightarrow> koe_db_queued \<Rightarrow> int \<times> koe_db_conn ptr \<times> koe_db_queued" where
  "koe_db_queue_push env conn q =
     (case conn of
        NULL \<Rightarrow> (-1, conn, q)
      | Some c \<Rightarrow>
          case cn_sqlite c of
            NULL \<Rightarrow> (-1, conn, q)
          | Some db \<Rightarrow>
              if \<not> sq_prep env 0 then (-1, conn, q)
              else
                let db = (if sq_step env 0 then queue_insert q db else db);
                    q = q\<lparr>dq_id := db_last_rowid db\<rparr>
                in (if sq_step env 0 then 0 else -1, Some (c\<lparr>cn_sqlite := Some db\<rparr>), q))"

text \<open>
  The row is copied out (\<open>mal 0\<close> is the packet buffer) and then deleted by id; the results of
  the second statement are not looked at, so it takes effect exactly when both its prepare and
  its step succeed.
\<close>

definition koe_db_queue_pop ::
  "sql_env \<Rightarrow> alloc \<Rightarrow> koe_db_conn ptr \<Rightarrow> bytes \<Rightarrow> koe_db_queued \<Rightarrow>
   int \<times> koe_db_conn ptr \<times> koe_db_queued" where
  "koe_db_queue_pop env mal conn to_pk out =
     (case conn of
        NULL \<Rightarrow> (-1, conn, out)
      | Some c \<Rightarrow>
          case cn_sqlite c of
            NULL \<Rightarrow> (-1, conn, out)
          | Some db \<Rightarrow>
              if \<not> sq_prep env 0 then (-1, conn, out)
              else if \<not> sq_step env 0 then (-1, conn, out)
              else case queue_select (sq_pick env) to_pk db of
                None \<Rightarrow> (-1, conn, out)
              | Some r \<Rightarrow>
                  let out = (if mal 0 then r else r\<lparr>dq_packet_bytes := NULL\<rparr>);
                      db = (if sq_prep env 1 \<and> sq_step env 1
                            then queue_delete (\<lambda>r'. dq_id r' = dq_id r) db else db)
                  in (if mal 0 then 0 else -1, Some (c\<lparr>cn_sqlite := Some db\<rparr>), out))"

definition koe_db_queue_count :: "sql_env \<Rightarrow> koe_db_conn ptr \<Rightarrow> bytes \<Rightarrow> int" where
  "koe_db_queue_count env conn to_pk =
     (case conn of
        NULL \<Rightarrow> 0
      | Some c \<Rightarrow>
          case cn_sqlite c of
            NULL \<Rightarrow> 0
          | Some db \<Rightarrow>
              if \<not> sq_prep env 0 then 0
              else if sq_step env 0 then int (length (queue_rows db to_pk)) else 0)"

definition koe_db_queue_expire ::
  "sql_env \<Rightarrow> koe_db_conn ptr \<Rightarrow> unix_time \<Rightarrow> int \<times> koe_db_conn ptr" where
  "koe_db_queue_expire env conn now = sql_sweep env 0 (queue_delete (\<lambda>r. dq_expires_at r \<le> now)) conn"

section \<open>Integrity\<close>

text \<open>Row ids are distinct and below the AUTOINCREMENT counters, contacts have distinct keys.\<close>

definition db_ok :: "koe_db \<Rightarrow> bool" where
  "db_ok db \<longleftrightarrow>
     distinct (map dm_id (db_messages db)) \<and> (\<forall>r\<in>set (db_messages db). dm_id r \<le> db_messages_seq db) \<and>
     distinct (map dq_id (db_queue db)) \<and> (\<forall>r\<in>set (db_queue db). dq_id r \<le> db_queue_seq db) \<and>
     distinct (map dc_pk (db_contacts db))"

lemma distinct_map_filter_key: "distinct (map f xs) \<Longrightarrow> distinct (map f (filter P xs))"
  by (induction xs) auto

lemma map_keep_key: "(\<And>r. f (g r) = f r) \<Longrightarrow> map f (map (\<lambda>r. if P r then g r else r) xs) = map f xs"
  by (induction xs) simp_all

lemma db_ok_empty: "db_ok empty_db"
  by (simp add: db_ok_def empty_db_def)

lemma db_ok_msg_insert: "db_ok db \<Longrightarrow> db_ok (msg_insert row db)"
  by (force simp: db_ok_def msg_insert_def Let_def)

lemma db_ok_msg_update: "db_ok db \<Longrightarrow> (\<And>r. dm_id (f r) = dm_id r) \<Longrightarrow> db_ok (msg_update rid f db)"
  by (auto simp: db_ok_def msg_update_def map_keep_key simp del: map_map)

lemma db_ok_msg_delete: "db_ok db \<Longrightarrow> db_ok (msg_delete P db)"
  by (auto simp: db_ok_def msg_delete_def distinct_map_filter_key)

lemma db_ok_contact_replace: "db_ok db \<Longrightarrow> db_ok (contact_replace c db)"
  by (auto simp: db_ok_def contact_replace_def distinct_map_filter_key)

lemma db_ok_contact_update: "db_ok db \<Longrightarrow> (\<And>r. dc_pk (f r) = dc_pk r) \<Longrightarrow> db_ok (contact_update pk f db)"
  by (auto simp: db_ok_def contact_update_def map_keep_key simp del: map_map)

lemma db_ok_contact_remove: "db_ok db \<Longrightarrow> db_ok (contact_remove pk db)"
  by (auto simp: db_ok_def contact_remove_def distinct_map_filter_key)

lemma db_ok_queue_insert: "db_ok db \<Longrightarrow> db_ok (queue_insert row db)"
  by (force simp: db_ok_def queue_insert_def Let_def)

lemma db_ok_queue_delete: "db_ok db \<Longrightarrow> db_ok (queue_delete P db)"
  by (auto simp: db_ok_def queue_delete_def distinct_map_filter_key)

lemmas db_ok_statements =
  db_ok_msg_insert db_ok_msg_update db_ok_msg_delete db_ok_contact_replace db_ok_contact_update
  db_ok_contact_remove db_ok_queue_insert db_ok_queue_delete

definition conn_ok :: "koe_db_conn ptr \<Rightarrow> bool" where
  "conn_ok conn \<longleftrightarrow> (case conn of NULL \<Rightarrow> True | Some c \<Rightarrow> case cn_sqlite c of NULL \<Rightarrow> True | Some db \<Rightarrow> db_ok db)"

lemma conn_ok_write: "conn_ok conn \<Longrightarrow> (\<And>db. db_ok db \<Longrightarrow> db_ok (f db)) \<Longrightarrow> conn_ok (snd (sql_write env f conn))"
  by (auto simp: conn_ok_def sql_write_def split: option.splits)

lemma conn_ok_sweep: "conn_ok conn \<Longrightarrow> (\<And>db. db_ok db \<Longrightarrow> db_ok (f db)) \<Longrightarrow> conn_ok (snd (sql_sweep env e f conn))"
  by (auto simp: conn_ok_def sql_sweep_def Let_def split: option.splits)

text \<open>One step per writing call of the interface, successful or not.\<close>

inductive db_call :: "koe_db_conn ptr \<Rightarrow> koe_db_conn ptr \<Rightarrow> bool" where
  call_insert: "koe_db_message_insert env conn m = (rc, conn', m') \<Longrightarrow> db_call conn conn'"
| call_status: "koe_db_message_update_status env conn rid st = (rc, conn') \<Longrightarrow> db_call conn conn'"
| call_delivered: "koe_db_message_mark_delivered env conn rid ts = (rc, conn') \<Longrightarrow> db_call conn conn'"
| call_read: "koe_db_message_mark_read env conn rid ts = (rc, conn') \<Longrightarrow> db_call conn conn'"
| call_delete: "koe_db_message_delete env conn rid = (rc, conn') \<Longrightarrow> db_call conn conn'"
| call_sweep: "koe_db_destruct_sweep env conn now = (rc, conn') \<Longrightarrow> db_call conn conn'"
| call_upsert: "koe_db_contact_upsert env conn c = (rc, conn') \<Longrightarrow> db_call conn conn'"
| call_contact_delete: "koe_db_contact_delete env conn pk = (rc, conn') \<Longrightarrow> db_call conn conn'"
| call_blocked: "koe_db_contact_set_blocked env conn pk b = (rc, conn') \<Longrightarrow> db_call conn conn'"
| call_verified: "koe_db_contact_set_verified env conn pk v = (rc, conn') \<Longrightarrow> db_call conn conn'"
| call_push: "koe_db_queue_push env conn q = (rc, conn', q') \<Longrightarrow> db_call conn conn'"
| call_pop: "koe_db_queue_pop env mal conn pk out = (rc, conn', out') \<Longrightarrow> db_call conn conn'"
| call_expire: "koe_db_queue_expire env conn now = (rc, conn') \<Longrightarrow> db_call conn conn'"

lemma conn_ok_insert: "conn_ok conn \<Longrightarrow> conn_ok (fst (snd (koe_db_message_insert env conn m)))"
  by (auto simp: conn_ok_def koe_db_message_insert_def Let_def db_ok_msg_insert split: option.splits)

lemma conn_ok_push: "conn_ok conn \<Longrightarrow> conn_ok (fst (snd (koe_db_queue_push env conn q)))"
  by (auto simp: conn_ok_def koe_db_queue_push_def Let_def db_ok_queue_insert split: option.splits)

lemma conn_ok_pop: "conn_ok conn \<Longrightarrow> conn_ok (fst (snd (koe_db_queue_pop env mal conn pk out)))"
  by (auto simp: conn_ok_def koe_db_queue_pop_def Let_def db_ok_queue_delete split: option.splits)

lemmas db_write_defs = koe_db_message_update_status_def koe_db_message_mark_delivered_def
  koe_db_message_mark_read_def koe_db_message_delete_def koe_db_destruct_sweep_def
  koe_db_contact_upsert_def koe_db_contact_delete_def koe_db_contact_set_blocked_def
  koe_db_contact_set_verified_def koe_db_queue_expire_def

lemma conn_ok_writes:
  assumes "conn_ok conn"
  shows "conn_ok (snd (koe_db_message_update_status env conn rid st))"
    and "conn_ok (snd (koe_db_message_mark_delivered env conn rid ts))"
    and "conn_ok (snd (koe_db_message_mark_read env conn rid ts))"
    and "conn_ok (snd (koe_db_message_delete env conn rid))"
    and "conn_ok (snd (koe_db_destruct_sweep env conn now))"
    and "conn_ok (snd (koe_db_contact_upsert env conn c))"
    and "conn_ok (snd (koe_db_contact_delete env conn pk))"
    and "conn_ok (snd (koe_db_contact_set_blocked env conn pk b))"
    and "conn_ok (snd (koe_db_contact_set_verified env conn pk v))"
    and "conn_ok (snd (koe_db_queue_expire env conn now))"
  using assms by (simp_all add: db_write_defs conn_ok_write conn_ok_sweep db_ok_statements)

lemma db_call_ok: "db_call conn conn' \<Longrightarrow> conn_ok conn \<Longrightarrow> conn_ok conn'"
  by (induction rule: db_call.induct)
    (metis conn_ok_insert conn_ok_push conn_ok_pop conn_ok_writes fst_conv snd_conv)+

text \<open>What was stored in an opened cache is never found, and the caller's count is left alone.\<close>

lemma cache_always_misses:
  "koe_cache_group_set (koe_cache_open ok cfg) g members ttl = 0 \<and> koe_cache_group_get (koe_cache_open ok cfg) g n = (1, n)"
  by (simp add: koe_cache_group_set_def koe_cache_group_get_def koe_cache_open_def split: option.split)

section \<open>The queue contract\<close>

text \<open>
  What the offline queue relies on: \<open>view d k\<close> are the entries stored for peer \<open>k\<close>, as pairs of
  a sequence number and a content, \<open>put\<close> appends one, and \<open>take1\<close> removes one with the least
  sequence number.
\<close>

locale least_queue =
  fixes ok :: "'d \<Rightarrow> bool" and view :: "'d \<Rightarrow> 'k \<Rightarrow> (int \<times> 'v) list"
    and put :: "'k \<Rightarrow> int \<times> 'v \<Rightarrow> 'd \<Rightarrow> 'd" and take1 :: "'k \<Rightarrow> 'd \<Rightarrow> ((int \<times> 'v) \<times> 'd) option"
  assumes put_ok: "ok d \<Longrightarrow> ok (put k x d)"
    and put_view: "ok d \<Longrightarrow> view (put k x d) = (view d)(k := view d k @ [x])"
    and take1_None: "ok d \<Longrightarrow> take1 k d = None \<longleftrightarrow> view d k = []"
    and take1_Some: "ok d \<Longrightarrow> take1 k d = Some (x, d') \<Longrightarrow>
      ok d' \<and> x \<in> set (view d k) \<and> (\<forall>y\<in>set (view d k). fst x \<le> fst y) \<and>
      mset (view d' k) = mset (view d k) - {#x#} \<and> (\<forall>k'. k' \<noteq> k \<longrightarrow> view d' k' = view d k')"

text \<open>Taking at most \<open>n\<close> entries, in the order they come out.\<close>

fun take_many :: "('k \<Rightarrow> 'd \<Rightarrow> ('x \<times> 'd) option) \<Rightarrow> nat \<Rightarrow> 'k \<Rightarrow> 'd \<Rightarrow> 'x list \<times> 'd" where
  "take_many tk 0 k d = ([], d)"
| "take_many tk (Suc n) k d =
     (case tk k d of None \<Rightarrow> ([], d) | Some (x, d') \<Rightarrow> apfst ((#) x) (take_many tk n k d'))"

context least_queue
begin

lemma take1_length: "ok d \<Longrightarrow> take1 k d = Some (x, d') \<Longrightarrow> Suc (length (view d' k)) = length (view d k)"
proof -
  assume "ok d" "take1 k d = Some (x, d')"
  then have "x \<in># mset (view d k)" "mset (view d' k) = mset (view d k) - {#x#}"
    using take1_Some by auto
  then have "mset (view d k) = add_mset x (mset (view d' k))" by simp
  then have "size (mset (view d k)) = Suc (size (mset (view d' k)))" by simp
  then show ?thesis by simp
qed

text \<open>Draining a peer's entries gives all of them, each once, in sequence order.\<close>

lemma take_many_sorted:
  assumes "ok d" and "length (view d k) \<le> n" and "take_many take1 n k d = (xs, d')"
  shows "sorted (map fst xs) \<and> mset xs = mset (view d k) \<and> ok d' \<and> view d' k = [] \<and>
    (\<forall>k'. k' \<noteq> k \<longrightarrow> view d' k' = view d k')"
  using assms
proof (induction n arbitrary: d xs)
  case (Suc n)
  show ?case
  proof (cases "take1 k d")
    case None
    with Suc.prems take1_None show ?thesis by auto
  next
    case (Some p)
    then obtain x d1 where p: "take1 k d = Some (x, d1)" by (cases p) auto
    note t = take1_Some [OF Suc.prems(1) p]
    obtain ys where ys: "take_many take1 n k d1 = (ys, d')" "xs = x # ys"
      using Suc.prems(3) p by (cases "take_many take1 n k d1") auto
    have len: "length (view d1 k) \<le> n" using take1_length [OF Suc.prems(1) p] Suc.prems(2) by simp
    have IH: "sorted (map fst ys)" "mset ys = mset (view d1 k)" "ok d'" "view d' k = []"
      "\<forall>k'. k' \<noteq> k \<longrightarrow> view d' k' = view d1 k'"
      using Suc.IH [OF _ len ys(1)] t by blast+
    have "mset xs = mset (view d k)" using IH(2) t ys(2) by simp
    moreover from this have "set ys \<subseteq> set (view d k)"
      using ys(2) by (metis mset_eq_setD set_subset_Cons)
    ultimately show ?thesis using IH t ys(2) by auto
  qed
qed (use take1_None in auto)

text \<open>When entries are put with growing sequence numbers, the first one put comes out first.\<close>

lemma take1_after_put:
  assumes "ok d" and "view d k = []" and "fst x < fst y"
  shows "\<exists>d'. take1 k (put k y (put k x d)) = Some (x, d')"
proof -
  have d: "ok (put k y (put k x d))" "view (put k y (put k x d)) k = [x, y]"
    using assms by (simp_all add: put_ok put_view)
  then obtain z d' where z: "take1 k (put k y (put k x d)) = Some (z, d')"
    using take1_None [OF d(1), of k] by (cases "take1 k (put k y (put k x d))") auto
  with take1_Some [OF d(1) z] d(2) assms(3) show ?thesis by auto
qed

end

definition queue_view :: "koe_db \<Rightarrow> bytes \<Rightarrow> (int \<times> bytes ptr) list" where
  "queue_view db pk = map (\<lambda>r. (dq_sequence r, dq_packet_bytes r)) (queue_rows db pk)"

definition queue_take1 ::
  "(koe_db_queued list \<Rightarrow> nat) \<Rightarrow> bytes \<Rightarrow> koe_db \<Rightarrow> ((int \<times> bytes ptr) \<times> koe_db) option" where
  "queue_take1 pick pk db =
     (case queue_select pick pk db of
        None \<Rightarrow> None
      | Some r \<Rightarrow> Some ((dq_sequence r, dq_packet_bytes r), queue_delete (\<lambda>r'. dq_id r' = dq_id r) db))"

definition queue_put :: "bytes \<Rightarrow> int \<times> bytes ptr \<Rightarrow> koe_db \<Rightarrow> koe_db" where
  "queue_put pk x db = queue_insert (zero_queued\<lparr>dq_to_pk := pk, dq_sequence := fst x, dq_packet_bytes := snd x\<rparr>) db"

lemma queue_rows_insert [simp]:
  "queue_rows (queue_insert row db) pk =
    queue_rows db pk @ (if dq_to_pk row = pk then [row\<lparr>dq_id := db_queue_seq db + 1\<rparr>] else [])"
  by (simp add: queue_rows_def queue_insert_def Let_def)

lemma queue_rows_delete [simp]: "queue_rows (queue_delete P db) pk = filter (\<lambda>r. \<not> P r) (queue_rows db pk)"
  by (simp add: queue_rows_def queue_delete_def conj_commute)

lemma queue_select_None: "queue_select pick pk db = None \<longleftrightarrow> queue_rows db pk = []"
proof -
  let ?rows = "queue_rows db pk"
  have "\<exists>r\<in>set ?rows. \<forall>r'\<in>set ?rows. dq_sequence r \<le> dq_sequence r'" if "?rows \<noteq> []"
  proof -
    have "finite (dq_sequence ` set ?rows)" "dq_sequence ` set ?rows \<noteq> {}" using that by auto
    then obtain r where "r \<in> set ?rows" "Min (dq_sequence ` set ?rows) = dq_sequence r"
      using Min_in by blast
    then show ?thesis by (metis List.finite_set Min_le finite_imageI imageI)
  qed
  then show ?thesis
    by (auto simp: queue_select_def Let_def filter_empty_conv list_all_iff)
qed

lemma queue_select_Some:
  assumes "queue_select pick pk db = Some r"
  shows "r \<in> set (queue_rows db pk)" and "\<forall>r'\<in>set (queue_rows db pk). dq_sequence r \<le> dq_sequence r'"
proof -
  let ?least = "filter (\<lambda>r. list_all (\<lambda>r'. dq_sequence r \<le> dq_sequence r') (queue_rows db pk)) (queue_rows db pk)"
  have "r \<in> set ?least"
    using assms by (auto simp: queue_select_def Let_def split: if_splits simp del: set_filter intro!: nth_mem)
  then show "r \<in> set (queue_rows db pk)" "\<forall>r'\<in>set (queue_rows db pk). dq_sequence r \<le> dq_sequence r'"
    by (auto simp: list_all_iff)
qed

text \<open>Deleting by id removes exactly the selected row.\<close>

lemma queue_delete_id:
  assumes "db_ok db" and "r \<in> set (queue_rows db pk)"
  shows "mset (queue_rows (queue_delete (\<lambda>r'. dq_id r' = dq_id r) db) pk) = mset (queue_rows db pk) - {#r#}"
    and "pk' \<noteq> pk \<Longrightarrow> queue_rows (queue_delete (\<lambda>r'. dq_id r' = dq_id r) db) pk' = queue_rows db pk'"
proof -
  have dist: "distinct (map dq_id (db_queue db))" using assms(1) by (simp add: db_ok_def)
  have r: "r \<in> set (db_queue db)" "dq_to_pk r = pk" using assms(2) by (auto simp: queue_rows_def)
  have same: "dq_id r' = dq_id r \<longleftrightarrow> r' = r" if "r' \<in> set (db_queue db)" for r'
    using that r(1) dist by (auto simp: distinct_map inj_on_def)
  have "filter (\<lambda>r'. dq_id r' \<noteq> dq_id r) (queue_rows db pk) = filter (\<lambda>r'. r' \<noteq> r) (queue_rows db pk)"
    using same by (intro filter_cong) (auto simp: queue_rows_def)
  moreover have "distinct (queue_rows db pk)"
    using dist by (simp add: queue_rows_def distinct_map)
  ultimately have eq: "filter (\<lambda>r'. dq_id r' \<noteq> dq_id r) (queue_rows db pk) = remove1 r (queue_rows db pk)"
    by (simp add: distinct_remove1_removeAll removeAll_filter_not_eq eq_commute)
  show "mset (queue_rows (queue_delete (\<lambda>r'. dq_id r' = dq_id r) db) pk) = mset (queue_rows db pk) - {#r#}"
    unfolding queue_rows_delete eq by simp
  show "queue_rows (queue_delete (\<lambda>r'. dq_id r' = dq_id r) db) pk' = queue_rows db pk'" if "pk' \<noteq> pk"
    unfolding queue_rows_delete using same r(2) that
    by (intro filter_True ballI) (auto simp: queue_rows_def)
qed

interpretation lq: least_queue db_ok queue_view queue_put "queue_take1 pick" for pick
proof
  fix d k x assume ok: "db_ok d"
  show "db_ok (queue_put k x d)" using ok by (simp add: queue_put_def db_ok_queue_insert)
  show "queue_view (queue_put k x d) = (queue_view d)(k := queue_view d k @ [x])"
    by (rule ext) (simp add: queue_view_def queue_put_def)
next
  fix d k assume "db_ok d"
  show "(queue_take1 pick k d = None) = (queue_view d k = [])"
    using queue_select_None [of pick k d] by (auto simp: queue_take1_def queue_view_def split: option.split)
next
  fix d k x d' assume ok: "db_ok d" and "queue_take1 pick k d = Some (x, d')"
  then obtain r where r: "queue_select pick k d = Some r" "x = (dq_sequence r, dq_packet_bytes r)"
    "d' = queue_delete (\<lambda>r'. dq_id r' = dq_id r) d"
    by (auto simp: queue_take1_def split: option.splits)
  note sel = queue_select_Some [OF r(1)]
  have "mset (queue_view d' k) = mset (queue_view d k) - {#x#}"
    using queue_delete_id(1) [OF ok sel(1)] sel(1)
    by (simp add: queue_view_def r image_mset_Diff)
  moreover have "queue_view d' k' = queue_view d k'" if "k' \<noteq> k" for k'
    using queue_delete_id(2) [OF ok sel(1) that] by (simp add: queue_view_def r)
  ultimately show "db_ok d' \<and> x \<in> set (queue_view d k) \<and> (\<forall>y\<in>set (queue_view d k). fst x \<le> fst y) \<and>
      mset (queue_view d' k) = mset (queue_view d k) - {#x#} \<and> (\<forall>k'. k' \<noteq> k \<longrightarrow> queue_view d' k' = queue_view d k')"
    using sel ok by (auto simp: queue_view_def r db_ok_queue_delete)
qed

text \<open>An environment in which every statement succeeds, and an open connection.\<close>

definition env_ok :: "sql_env \<Rightarrow> bool" where
  "env_ok env \<longleftrightarrow> (\<forall>i. sq_prep env i \<and> sq_step env i)"

definition good_env :: sql_env where
  "good_env = \<lparr>sq_prep = (\<lambda>_. True), sq_step = (\<lambda>_. True), sq_pick = (\<lambda>_. 0)\<rparr>"

abbreviation conn_of :: "koe_db \<Rightarrow> koe_db_conn ptr" where
  "conn_of db \<equiv> Some \<lparr>cn_backend = KOE_DB_SQLITE, cn_sqlite = Some db\<rparr>"

lemma good_env_ok [simp]: "env_ok good_env"
  by (simp add: env_ok_def good_env_def)

section \<open>Properties\<close>



text \<open>The contact table behaves as a map keyed by public key: after an upsert the contact is
  found as it was stored (names that fit their fields) and every other contact as before; after a
  delete it is not found.\<close>

theorem contact_table_map:
  assumes "env_ok e1" and "env_ok e2" and "length (dc_display_name c) \<le> 63" and "length (dc_short_id c) \<le> 15"
    and "koe_db_contact_upsert e1 (conn_of db) c = (rc, conn1)"
    and "koe_db_contact_delete e1 conn1 (dc_pk c) = (rc', conn2)"
  shows "rc = 0 \<and> rc' = 0 \<and> koe_db_contact_find e2 conn1 (dc_pk c) out = (0, c) \<and>
    (pk \<noteq> dc_pk c \<longrightarrow> koe_db_contact_find e2 conn1 pk out = koe_db_contact_find e2 (conn_of db) pk out) \<and>
    koe_db_contact_find e2 conn2 (dc_pk c) out = (-1, out)"
proof -
  have conn1: "rc = 0" "conn1 = conn_of (contact_replace c db)"
    using assms(1,5) by (auto simp: koe_db_contact_upsert_def sql_write_def env_ok_def)
  have conn2: "rc' = 0" "conn2 = conn_of (contact_remove (dc_pk c) (contact_replace c db))"
    using assms(1,6) by (auto simp: koe_db_contact_delete_def sql_write_def env_ok_def conn1)
  have "filter (\<lambda>r. dc_pk r = pk) (db_contacts (contact_replace c db)) =
      (if pk = dc_pk c then [c] else filter (\<lambda>r. dc_pk r = pk) (db_contacts db))" for pk
    by (auto simp: contact_replace_def intro: filter_cong)
  moreover have "filter (\<lambda>r. dc_pk r = dc_pk c) (db_contacts (contact_remove (dc_pk c) (contact_replace c db))) = []"
    by (simp add: contact_remove_def)
  ultimately show ?thesis
    using assms(2-4) conn1 conn2
    by (simp add: koe_db_contact_find_def env_ok_def strncpy_str_fits)
qed

theorem contact_table_map_witness:
  "\<exists>c conn1. koe_db_contact_upsert good_env (conn_of empty_db)
      \<lparr>dc_pk = [1], dc_display_name = ''bob'', dc_short_id = ''b1'', dc_added_at = 5, dc_last_seen = 0,
       dc_blocked = 0, dc_verified = 1\<rparr> = (0, conn1) \<and>
    dc_display_name (snd (koe_db_contact_find good_env conn1 [1] c)) = ''bob''"
proof -
  let ?c = "\<lparr>dc_pk = [1], dc_display_name = ''bob'', dc_short_id = ''b1'', dc_added_at = 5, dc_last_seen = 0,
       dc_blocked = 0, dc_verified = 1\<rparr>"
  obtain rc conn1 where u: "koe_db_contact_upsert good_env (conn_of empty_db) ?c = (rc, conn1)" by fastforce
  obtain rc' conn2 where d: "koe_db_contact_delete good_env conn1 (dc_pk ?c) = (rc', conn2)" by fastforce
  show ?thesis
    using contact_table_map [OF good_env_ok good_env_ok _ _ u d] u by simp
qed

end
