(* ===== verification/Koe_Store.thy ===== *)
theory Koe_Store
  imports Koe_Message Koe_Db
begin

text \<open>
  The message store (\<^verbatim>\<open>src/koe_store.c\<close>): bodies are encrypted under a key derived from the
  identity's secret key and inserted into the message table. The lemmas show the row a
  successful insertion adds and the exact effect of the sweeps; two of them show what the
  store cannot do: the nonce of a stored body is not kept, and wiping leaves every message
  without a self-destruct time in place.
\<close>

record koe_store =
  sr_db :: "koe_db_conn ptr"

definition koe_store_open :: "bool \<Rightarrow> koe_db_conn ptr \<Rightarrow> int \<times> koe_store" where
  "koe_store_open schema_ok db = (koe_db_migrate schema_ok db, \<lparr>sr_db = db\<rparr>)"

definition koe_store_close :: "koe_store \<Rightarrow> koe_store" where
  "koe_store_close store = store\<lparr>sr_db := NULL\<rparr>"

definition store_key :: "sodium \<Rightarrow> koe_identity \<Rightarrow> bytes" where
  "store_key sd local_id = so_generichash sd 32 32 (id_sk local_id @ str_bytes ''koe-store'')"

definition store_row :: "koe_message \<Rightarrow> bytes \<Rightarrow> koe_db_message" where
  "store_row msg ct =
     \<lparr>dm_id = sint (m_id msg), dm_from_pk = m_from msg, dm_to_pk = m_to msg, dm_body_encrypted = ct,
      dm_sent_at = m_sent_at msg, dm_delivered_at = m_delivered_at msg, dm_read_at = m_read_at msg,
      dm_destruct_at = m_destruct_at msg, dm_status = status_code (m_status msg), dm_is_secret = m_is_secret msg\<rparr>"

text \<open>\<open>nonce\<close> are the random bytes drawn, \<open>mal 0\<close> the ciphertext buffer.\<close>

definition koe_store_put ::
  "sodium \<Rightarrow> sql_env \<Rightarrow> alloc \<Rightarrow> bytes \<Rightarrow> koe_store \<Rightarrow> koe_message \<Rightarrow> koe_identity \<Rightarrow> int \<times> koe_store" where
  "koe_store_put sd env mal nonce store msg local_id =
     (if \<not> mal 0 then (-1, store)
      else case koe_encrypt sd (body_bytes msg) nonce (store_key sd local_id) of
        None \<Rightarrow> (-1, store)
      | Some ct \<Rightarrow>
          case koe_db_message_insert env (sr_db store) (store_row msg ct) of
            (rc, db, row) \<Rightarrow> (rc, store\<lparr>sr_db := db\<rparr>))"

definition koe_store_get :: "koe_store \<Rightarrow> u64 \<Rightarrow> koe_message \<Rightarrow> koe_identity \<Rightarrow> int \<times> koe_message" where
  "koe_store_get store mid out local_id = (-1, out)"

definition koe_store_delete :: "sql_env \<Rightarrow> koe_store \<Rightarrow> u64 \<Rightarrow> int \<times> koe_store" where
  "koe_store_delete env store mid =
     (case koe_db_message_delete env (sr_db store) (sint mid) of (rc, db) \<Rightarrow> (rc, store\<lparr>sr_db := db\<rparr>))"

definition koe_store_sweep_destruct :: "sql_env \<Rightarrow> unix_time \<Rightarrow> koe_store \<Rightarrow> int \<times> koe_store" where
  "koe_store_sweep_destruct env now store =
     (case koe_db_destruct_sweep env (sr_db store) now of (rc, db) \<Rightarrow> (rc, store\<lparr>sr_db := db\<rparr>))"

definition koe_store_wipe :: "sql_env \<Rightarrow> unix_time \<Rightarrow> koe_store \<Rightarrow> int \<times> koe_store" where
  "koe_store_wipe env now store =
     (0, store\<lparr>sr_db := snd (koe_db_destruct_sweep env (sr_db store) (now + 9999999))\<rparr>)"

section \<open>What the store does\<close>

text \<open>The row a successful insertion adds: a new id, the message's addresses and times, and the
  body encrypted under the store key.\<close>

lemma koe_store_put_row:
  assumes "env_ok env" "mal 0" "sr_db store = conn_of db"
    and "koe_encrypt sd (body_bytes msg) nonce (store_key sd local_id) = Some ct"
  shows "koe_store_put sd env mal nonce store msg local_id
    = (0, store\<lparr>sr_db := conn_of (msg_insert (store_row msg ct) db)\<rparr>)"
  using assms by (simp add: koe_store_put_def koe_db_message_insert_def env_ok_def Let_def)

lemma koe_store_wipe_rows:
  assumes "env_ok env" "sr_db store = conn_of db" "koe_store_wipe env now store = (rc, store')"
  shows "\<exists>db'. sr_db store' = conn_of db' \<and> rc = 0 \<and> db_messages db'
    = filter (\<lambda>r. dm_destruct_at r \<le> 0 \<or> now + 9999999 < dm_destruct_at r) (db_messages db)"
  using assms
  by (auto simp: koe_store_wipe_def koe_db_destruct_sweep_def sql_sweep_def msg_delete_def env_ok_def Let_def
      not_less not_le intro!: filter_cong)

text \<open>Wiping the store reports success but deletes only messages with a self-destruct time in
  the next 9999999 seconds: every message without one is still there. And deleting a message by
  its own id deletes nothing when that id is not the row number the database assigned.\<close>

theorem store_wipe_keeps_messages:
  assumes "env_ok env" and "sr_db store = conn_of db" and "koe_store_wipe env now store = (rc, store')"
    and "r \<in> set (db_messages db)" and "dm_destruct_at r = 0"
    and "\<forall>q\<in>set (db_messages db). dm_id q \<noteq> sint mid"
  shows "rc = 0 \<and> (\<exists>db'. sr_db store' = conn_of db' \<and> r \<in> set (db_messages db'))
    \<and> (\<exists>db'. koe_store_delete env store mid = (0, store\<lparr>sr_db := conn_of db'\<rparr>) \<and> db_messages db' = db_messages db)"
proof -
  have "filter (\<lambda>r. dm_id r \<noteq> sint mid) (db_messages db) = db_messages db"
    using assms(6) by (simp add: filter_id_conv)
  then show ?thesis
    using koe_store_wipe_rows [OF assms(1-3)] assms(1,2,4,5)
    by (auto simp: koe_store_delete_def koe_db_message_delete_def sql_write_def msg_delete_def env_ok_def)
qed

definition old_message :: koe_message where
  "old_message = (sample_message [1, 2])\<lparr>m_id := 1700000000000001\<rparr>"

lemma old_message_row:
  "koe_store_put demo_sodium good_env (\<lambda>_. True) (replicate 24 0) \<lparr>sr_db = conn_of empty_db\<rparr> old_message \<lparr>id_pk = [], id_sk = []\<rparr>
   = (0, \<lparr>sr_db = conn_of (msg_insert (store_row old_message ([1, 2] @ take 16 (store_key demo_sodium \<lparr>id_pk = [], id_sk = []\<rparr> @ replicate 16 0))) empty_db)\<rparr>)"
  by (subst koe_store_put_row [where db = empty_db and ct = "[1, 2] @ take 16 (store_key demo_sodium \<lparr>id_pk = [], id_sk = []\<rparr> @ replicate 16 0)"])
     (simp_all add: koe_encrypt_def demo_sodium_def old_message_def body_bytes_def sample_message_def)

theorem store_wipe_keeps_messages_witness:
  "\<exists>db'. let store = snd (koe_store_put demo_sodium good_env (\<lambda>_. True) (replicate 24 0) \<lparr>sr_db = conn_of empty_db\<rparr>
                 old_message \<lparr>id_pk = [], id_sk = []\<rparr>)
   in koe_store_delete good_env store (m_id old_message) = (0, store\<lparr>sr_db := conn_of db'\<rparr>) \<and> length (db_messages db') = 1"
proof -
  let ?row = "store_row old_message ([1, 2] @ take 16 (store_key demo_sodium \<lparr>id_pk = [], id_sk = []\<rparr> @ replicate 16 0))"
  let ?db = "msg_insert ?row empty_db"
  let ?store = "\<lparr>sr_db = conn_of ?db\<rparr>"
  have rows: "db_messages (msg_insert row empty_db) = [row\<lparr>dm_id := 1\<rparr>]" for row
    by (simp add: msg_insert_def empty_db_def)
  obtain rc store' where w: "koe_store_wipe good_env 0 ?store = (rc, store')" by fastforce
  have "sr_db ?store = conn_of ?db" by simp
  moreover have "?row\<lparr>dm_id := 1\<rparr> \<in> set (db_messages ?db)" by (simp add: rows)
  moreover have "dm_destruct_at (?row\<lparr>dm_id := 1\<rparr>) = 0"
    by (simp add: store_row_def old_message_def sample_message_def)
  moreover have "\<forall>q\<in>set (db_messages ?db). dm_id q \<noteq> sint (m_id old_message)"
    by (simp add: rows) (simp add: old_message_def)
  ultimately obtain db' where del: "koe_store_delete good_env ?store (m_id old_message) = (0, ?store\<lparr>sr_db := conn_of db'\<rparr>)"
    and "db_messages db' = db_messages ?db"
    using store_wipe_keeps_messages [OF good_env_ok _ w] by blast
  then have "length (db_messages db') = 1" by (simp add: rows)
  with del show ?thesis by (intro exI [of _ db']) (simp add: old_message_row)
qed

section \<open>The lost nonce\<close>

text \<open>A cipher that adds the first nonce byte to every plaintext byte.\<close>

definition shift_sodium :: sodium where
  "shift_sodium = demo_sodium
     \<lparr>so_aead_encrypt := (\<lambda>plain nonce key. Some (map (\<lambda>b. b + hd (nonce @ [0])) plain @ replicate 16 0)),
      so_aead_decrypt := (\<lambda>ct nonce key.
        if 16 \<le> length ct then Some (map (\<lambda>b. b - hd (nonce @ [0])) (take (length ct - 16) ct)) else None)\<rparr>"

lemma shift_sodium_ok: "aead_ok shift_sodium"
  by (auto simp: aead_ok_def shift_sodium_def comp_def split: if_splits)

text \<open>A stored body cannot be decrypted again: the nonce that encrypted it is not part of the
  row. Under a cipher that meets the contract of authenticated encryption, two messages that
  differ only in their bodies leave exactly the same database behind, so no reader of the
  database, even with the identity's keys, can tell them apart.\<close>

theorem store_loses_nonce:
  "\<exists>sd n1 n2 m1 m2 store. aead_ok sd \<and> body_bytes m1 \<noteq> body_bytes m2 \<and> length n1 = 24 \<and> length n2 = 24 \<and>
     koe_store_put sd good_env (\<lambda>_. True) n1 store m1 local_id
     = koe_store_put sd good_env (\<lambda>_. True) n2 store m2 local_id
     \<and> fst (koe_store_put sd good_env (\<lambda>_. True) n1 store m1 local_id) = 0"
proof -
  let ?s = "\<lparr>sr_db = conn_of empty_db\<rparr>"
  have row: "koe_store_put shift_sodium good_env (\<lambda>_. True) (replicate 24 (10 - b)) ?s (sample_message [b]) local_id
      = (0, \<lparr>sr_db = conn_of (msg_insert (store_row (sample_message [b]) (10 # replicate 16 0)) empty_db)\<rparr>)" for b
    by (subst koe_store_put_row [where db = empty_db and ct = "10 # replicate 16 0"])
       (simp_all add: koe_encrypt_def shift_sodium_def body_bytes_def sample_message_def numeral_eq_Suc)
  have "store_row (sample_message [1]) ct = store_row (sample_message [2]) ct" for ct
    by (simp add: store_row_def sample_message_def)
  then show ?thesis
    using shift_sodium_ok row [of 1] row [of 2]
    by (intro exI [of _ shift_sodium] exI [of _ "replicate 24 9"] exI [of _ "replicate 24 8"]
        exI [of _ "sample_message [1]"] exI [of _ "sample_message [2]"] exI [of _ ?s])
       (simp add: body_bytes_def sample_message_def)
qed

end
