(* ===== verification/Koe_Backup.thy ===== *)
theory Koe_Backup
  imports Koe_Crypto
begin

text \<open>
  Backups (\<^verbatim>\<open>src/koe_backup.c\<close>): a directory tree is flattened into an archive, encrypted under a
  passphrase and written to one file; importing reverses the steps. A disk holds files and
  directories under the paths the program spells (always \<open>base/rel\<close>); a directory lists its
  entries in the order \<open>readdir\<close> returns them. \<open>fe_read\<close>, \<open>fe_list\<close> and \<open>fe_write\<close> say what opening
  for reading, \<open>opendir\<close> and writing give. Undefined behaviour of the importer is \<open>None\<close>. The
  recursion into subdirectories carries its depth as fuel; \<open>archive_dir_entries\<close> shows that 512
  is enough as long as the paths fit the 512-byte buffers of the code.

  The lemmas show that an archive holds exactly the visible files of the tree, that importing
  writes exactly the files of the archive, that a backup restores every file of the tree, and two
  defects: nested directories that do not exist yet are lost without an error, and a malformed
  archive is read past its end.
\<close>

section \<open>Disks\<close>

record disk =
  dk_files :: "string \<Rightarrow> bytes option"
  dk_dirs :: "string \<Rightarrow> string list option"

record fs_env =
  fe_read :: "string \<Rightarrow> bytes \<Rightarrow> bytes option"
  fe_list :: "string \<Rightarrow> bool"
  fe_write :: "string \<Rightarrow> bytes \<Rightarrow> bytes option"

text \<open>The string before the last slash (\<open>strrchr\<close>).\<close>

definition parent_of :: "string \<Rightarrow> string option" where
  "parent_of s = (if CHR ''/'' \<in> set s then Some (rev (tl (dropWhile (\<lambda>c. c \<noteq> CHR ''/'') (rev s)))) else None)"

definition name_of :: "string \<Rightarrow> string" where
  "name_of s = rev (takeWhile (\<lambda>c. c \<noteq> CHR ''/'') (rev s))"

text \<open>A path can be created when the directory it lies in exists; one without a slash lies in the
  working directory.\<close>

definition parent_exists :: "string \<Rightarrow> disk \<Rightarrow> bool" where
  "parent_exists s dk = (case parent_of s of None \<Rightarrow> True | Some p \<Rightarrow> dk_dirs dk p \<noteq> None)"

definition add_name :: "string \<Rightarrow> disk \<Rightarrow> disk" where
  "add_name s dk =
     (case parent_of s of
        None \<Rightarrow> dk
      | Some p \<Rightarrow>
          (case dk_dirs dk p of
             None \<Rightarrow> dk
           | Some ns \<Rightarrow> if name_of s \<in> set ns then dk else dk\<lparr>dk_dirs := (dk_dirs dk)(p \<mapsto> ns @ [name_of s])\<rparr>))"

definition mkdir :: "string \<Rightarrow> disk \<Rightarrow> disk" where
  "mkdir s dk =
     (if dk_dirs dk s = None \<and> dk_files dk s = None \<and> parent_exists s dk
      then (add_name s dk)\<lparr>dk_dirs := (dk_dirs (add_name s dk))(s \<mapsto> [])\<rparr> else dk)"

text \<open>\<open>fopen(path, "wb")\<close>, the writes, and \<open>fclose\<close>: whether the file could be opened, and the disk after.\<close>

definition write_file :: "fs_env \<Rightarrow> string \<Rightarrow> bytes \<Rightarrow> disk \<Rightarrow> bool \<times> disk" where
  "write_file fe s data dk =
     (if parent_exists s dk \<and> dk_dirs dk s = None then
        (case fe_write fe s data of
           None \<Rightarrow> (False, dk)
         | Some stored \<Rightarrow> (True, (add_name s dk)\<lparr>dk_files := (dk_files dk)(s \<mapsto> stored)\<rparr>))
      else (False, dk))"

section \<open>The archive\<close>

record koe_archive =
  av_data :: bytes
  av_cap :: nat

text \<open>\<open>i\<close> counts the allocations made so far.\<close>

definition archive_append :: "alloc \<Rightarrow> bytes \<Rightarrow> koe_archive \<times> nat \<Rightarrow> int \<times> koe_archive \<times> nat" where
  "archive_append mal bs = (\<lambda>(a, i).
     if length (av_data a) + length bs > av_cap a then
       (if \<not> mal i then (-1, a, i + 1)
        else (0, \<lparr>av_data = av_data a @ bs, av_cap = (av_cap a + length bs) * 2\<rparr>, i + 1))
     else (0, a\<lparr>av_data := av_data a @ bs\<rparr>, i))"

text \<open>The results of the four appends are ignored.\<close>

definition archive_file :: "fs_env \<Rightarrow> alloc \<Rightarrow> disk \<Rightarrow> string \<Rightarrow> string \<Rightarrow> koe_archive \<times> nat \<Rightarrow> int \<times> koe_archive \<times> nat" where
  "archive_file fe mal dk rel_path abs_path = (\<lambda>(a, i).
     case dk_files dk abs_path of
       None \<Rightarrow> (0, a, i)
     | Some content \<Rightarrow>
         (case fe_read fe abs_path content of
            None \<Rightarrow> (0, a, i)
          | Some file_data \<Rightarrow>
              let fsz = length content in
              if fsz > 64 * 1024 * 1024 then (0, a, i)
              else if \<not> mal i then (-1, a, i + 1)
              else if length file_data \<noteq> fsz then (-1, a, i + 1)
              else
                let path_len = of_nat (length rel_path) :: u16;
                    data_len = of_nat fsz :: u32;
                    s = snd (archive_append mal (le16 path_len) (a, i + 1));
                    s = snd (archive_append mal (take (unat path_len) (str_bytes rel_path)) s);
                    s = snd (archive_append mal (le32 data_len) s);
                    s = snd (archive_append mal (take (unat data_len) file_data) s)
                in (0, s)))"

text \<open>The loop over the entries of a directory; \<open>sub\<close> archives a subdirectory.\<close>

fun archive_names ::
  "(string \<Rightarrow> koe_archive \<times> nat \<Rightarrow> (koe_archive \<times> nat) option) \<Rightarrow> fs_env \<Rightarrow> alloc \<Rightarrow> disk \<Rightarrow> string \<Rightarrow> string \<Rightarrow>
   string list \<Rightarrow> koe_archive \<times> nat \<Rightarrow> (koe_archive \<times> nat) option" where
  "archive_names sub fe mal dk abs_dir rel [] s = Some s"
| "archive_names sub fe mal dk abs_dir rel (n # ns) s =
     (if take 1 n = ''.'' then archive_names sub fe mal dk abs_dir rel ns s
      else
        let child_rel = snprintf_str 512 (rel @ ''/'' @ n);
            child_abs = snprintf_str 512 (abs_dir @ ''/'' @ n)
        in if dk_dirs dk child_abs \<noteq> None then
             (case sub child_rel s of
                None \<Rightarrow> None
              | Some s \<Rightarrow> archive_names sub fe mal dk abs_dir rel ns s)
           else archive_names sub fe mal dk abs_dir rel ns (snd (archive_file fe mal dk child_rel child_abs s)))"

fun archive_dir ::
  "nat \<Rightarrow> fs_env \<Rightarrow> alloc \<Rightarrow> disk \<Rightarrow> string \<Rightarrow> string \<Rightarrow> koe_archive \<times> nat \<Rightarrow> (koe_archive \<times> nat) option" where
  "archive_dir 0 fe mal dk base rel s = None"
| "archive_dir (Suc fuel) fe mal dk base rel s =
     (let abs_dir = snprintf_str 512 (base @ ''/'' @ rel)
      in case dk_dirs dk abs_dir of
           None \<Rightarrow> Some s
         | Some names \<Rightarrow>
             if \<not> fe_list fe abs_dir then Some s
             else archive_names (archive_dir fuel fe mal dk base) fe mal dk abs_dir rel names s)"

section \<open>Export and import\<close>

text \<open>The header as it lies in memory. \<open>junk\<close> is the padding byte after the version; the code copies
  a 16-byte salt into the 32-byte field, so \<open>rest\<close> is what the stack held.\<close>

definition backup_header :: "byte \<Rightarrow> bytes \<Rightarrow> u64 \<Rightarrow> bytes \<Rightarrow> bytes \<Rightarrow> u64 \<Rightarrow> bytes" where
  "backup_header junk rest created_at salt nonce payload_len =
     str_bytes ''KOEBAK'' @ [1] @ [junk] @ le64 created_at @ (salt @ rest) @ nonce @ le64 payload_len"

definition koe_backup_export ::
  "sodium \<Rightarrow> fs_env \<Rightarrow> alloc \<Rightarrow> nat \<Rightarrow> bytes \<Rightarrow> bytes \<Rightarrow> byte \<Rightarrow> bytes \<Rightarrow> u64 \<Rightarrow> string \<Rightarrow> string \<Rightarrow> string \<Rightarrow> disk \<Rightarrow>
   (int \<times> disk) option" where
  "koe_backup_export sd fe mal fuel salt nonce junk rest now out_path passphrase data_dir dk =
     (if \<not> mal 0 then Some (-1, dk)
      else case archive_dir fuel fe mal dk data_dir '''' (\<lparr>av_data = [], av_cap = 65536\<rparr>, 1) of
        None \<Rightarrow> None
      | Some (arc, i) \<Rightarrow> Some (
          case so_pwhash sd passphrase salt of
            None \<Rightarrow> (-1, dk)
          | Some key \<Rightarrow>
              if \<not> mal i then (-1, dk)
              else case koe_encrypt sd (av_data arc) nonce key of
                None \<Rightarrow> (-1, dk)
              | Some ct \<Rightarrow>
                  let payload_len = of_nat (length (av_data arc) + 16) :: u64 in
                  case write_file fe out_path
                    (backup_header junk rest now salt nonce payload_len @ take (unat payload_len) ct) dk of
                    (opened, dk') \<Rightarrow> if opened then (0, dk') else (-1, dk')))"

text \<open>One archived file is written back: the last component is cut off for \<open>mkdir\<close>, whose result is
  ignored, as is a file that cannot be opened. A path of 511 characters leaves \<open>dir_path\<close> without
  its terminating NUL.\<close>

definition restore_file :: "fs_env \<Rightarrow> string \<Rightarrow> bytes \<Rightarrow> disk \<Rightarrow> disk" where
  "restore_file fe abs_path data dk =
     (let dk = (case parent_of abs_path of None \<Rightarrow> dk | Some dir_path \<Rightarrow> mkdir dir_path dk)
      in snd (write_file fe abs_path data dk))"

function extract_loop :: "fs_env \<Rightarrow> string \<Rightarrow> bytes \<Rightarrow> nat \<Rightarrow> disk \<Rightarrow> disk option" where
  "extract_loop fe data_dir plain offset dk =
     (if offset + 6 < length plain then
        let path_len = unat (le16_dec (mem_read offset 2 plain));
            offset1 = offset + 2
        in if offset1 + path_len > length plain then Some dk
           else
             let rel_path = char_array_str (mem_read offset1 (if path_len < 511 then path_len else 511) plain);
                 offset2 = offset1 + path_len
             in if offset2 + 4 > length plain then None
                else
                  let data_len = unat (le32_dec (mem_read offset2 4 plain));
                      offset3 = offset2 + 4
                  in if offset3 + data_len > length plain then Some dk
                     else
                       let abs_path = snprintf_str 512 (data_dir @ ''/'' @ rel_path)
                       in if length abs_path = 511 then None
                          else extract_loop fe data_dir plain (offset3 + data_len)
                                 (restore_file fe abs_path (mem_read offset3 data_len plain) dk)
      else Some dk)"
  by pat_completeness auto
termination
  by (relation "measure (\<lambda>(fe, data_dir, plain, offset, dk). length plain - offset)") (auto simp: Let_def)

declare extract_loop.simps [simp del]

text \<open>\<open>plain_len\<close> is computed in 64 bits; a payload shorter than its tag is refused by the decryption.\<close>

definition koe_backup_import ::
  "sodium \<Rightarrow> fs_env \<Rightarrow> alloc \<Rightarrow> string \<Rightarrow> string \<Rightarrow> string \<Rightarrow> disk \<Rightarrow> (int \<times> disk) option" where
  "koe_backup_import sd fe mal in_path passphrase data_dir dk =
     (case (case dk_files dk in_path of None \<Rightarrow> None | Some content \<Rightarrow> fe_read fe in_path content) of
        None \<Rightarrow> Some (-1, dk)
      | Some file \<Rightarrow>
          if length file < 80 then Some (-1, dk)
          else if take 6 file \<noteq> str_bytes ''KOEBAK'' then Some (-1, dk)
          else
            let payload_len = unat (le64_dec (mem_read 72 8 file));
                ct = mem_read 80 payload_len file
            in if \<not> mal 0 \<or> length ct \<noteq> payload_len then Some (-1, dk)
               else case so_pwhash sd passphrase (mem_read 16 16 file) of
                 None \<Rightarrow> Some (-1, dk)
               | Some key \<Rightarrow>
                   if \<not> mal 1 then Some (-1, dk)
                   else case koe_decrypt sd ct (mem_read 48 24 file) key of
                     None \<Rightarrow> Some (-1, dk)
                   | Some plain \<Rightarrow> map_option (\<lambda>dk. (0, dk)) (extract_loop fe data_dir plain 0 dk))"

definition koe_backup_upload :: int where "koe_backup_upload = -1"
definition koe_backup_download :: int where "koe_backup_download = -1"
definition koe_migrate_send :: int where "koe_migrate_send = -1"
definition koe_migrate_receive :: int where "koe_migrate_receive = -1"

section \<open>What an archive holds\<close>

text \<open>The directories and files below \<open>base\<close> that a backup visits: names that start with a dot are
  skipped, and files above 64 MiB.\<close>

inductive shown_dir :: "disk \<Rightarrow> string \<Rightarrow> string \<Rightarrow> bool" for dk base where
  root: "shown_dir dk base ''''"
| sub: "shown_dir dk base rel \<Longrightarrow> dk_dirs dk (base @ ''/'' @ rel) = Some ns \<Longrightarrow> n \<in> set ns \<Longrightarrow> take 1 n \<noteq> ''.'' \<Longrightarrow>
    dk_dirs dk (base @ ''/'' @ rel @ ''/'' @ n) \<noteq> None \<Longrightarrow> shown_dir dk base (rel @ ''/'' @ n)"

inductive shown_file :: "disk \<Rightarrow> string \<Rightarrow> string \<Rightarrow> bytes \<Rightarrow> bool" for dk base where
  "shown_dir dk base rel \<Longrightarrow> dk_dirs dk (base @ ''/'' @ rel) = Some ns \<Longrightarrow> n \<in> set ns \<Longrightarrow> take 1 n \<noteq> ''.'' \<Longrightarrow>
   dk_dirs dk (base @ ''/'' @ rel @ ''/'' @ n) = None \<Longrightarrow> dk_files dk (base @ ''/'' @ rel @ ''/'' @ n) = Some data \<Longrightarrow>
   length data \<le> 64 * 1024 * 1024 \<Longrightarrow> shown_file dk base (rel @ ''/'' @ n) data"

text \<open>Every path fits the buffers of the code, and names are names.\<close>

definition tidy :: "disk \<Rightarrow> bool" where
  "tidy dk \<longleftrightarrow> (\<forall>p ns n. dk_dirs dk p = Some ns \<longrightarrow> n \<in> set ns \<longrightarrow>
     n \<noteq> [] \<and> CHR 0x00 \<notin> set n \<and> CHR ''/'' \<notin> set n \<and> length p + 1 + length n < 511)"

definition fe_ok :: "fs_env \<Rightarrow> bool" where
  "fe_ok fe \<longleftrightarrow> (\<forall>s d. fe_read fe s d = Some d \<and> fe_list fe s \<and> fe_write fe s d = Some d)"

lemma tidyD:
  "tidy dk \<Longrightarrow> dk_dirs dk p = Some ns \<Longrightarrow> n \<in> set ns \<Longrightarrow>
   n \<noteq> [] \<and> CHR 0x00 \<notin> set n \<and> CHR ''/'' \<notin> set n \<and> length p + 1 + length n < 511"
  unfolding tidy_def by blast

definition entry_bytes :: "string \<times> bytes \<Rightarrow> bytes" where
  "entry_bytes e = le16 (of_nat (length (fst e))) @ str_bytes (fst e) @ le32 (of_nat (length (snd e))) @ snd e"

text \<open>The files an archive holds, in order.\<close>

definition file_entries :: "disk \<Rightarrow> string \<Rightarrow> string \<Rightarrow> (string \<times> bytes) list" where
  "file_entries dk base r =
     (case dk_files dk (base @ ''/'' @ r) of
        None \<Rightarrow> []
      | Some d \<Rightarrow> if length d \<le> 64 * 1024 * 1024 then [(r, d)] else [])"

definition name_entries :: "(string \<Rightarrow> (string \<times> bytes) list) \<Rightarrow> disk \<Rightarrow> string \<Rightarrow> string \<Rightarrow> string \<Rightarrow> (string \<times> bytes) list" where
  "name_entries sub dk base rel n =
     (if take 1 n = ''.'' then []
      else if dk_dirs dk (base @ ''/'' @ rel @ ''/'' @ n) \<noteq> None then sub (rel @ ''/'' @ n)
      else file_entries dk base (rel @ ''/'' @ n))"

fun entries_dir :: "nat \<Rightarrow> disk \<Rightarrow> string \<Rightarrow> string \<Rightarrow> (string \<times> bytes) list" where
  "entries_dir 0 dk base rel = []"
| "entries_dir (Suc fuel) dk base rel =
     concat (map (name_entries (entries_dir fuel dk base) dk base rel)
       (case dk_dirs dk (base @ ''/'' @ rel) of None \<Rightarrow> [] | Some ns \<Rightarrow> ns))"

abbreviation arc_data :: "koe_archive \<times> nat \<Rightarrow> bytes" where
  "arc_data s \<equiv> av_data (fst s)"

lemma archive_append_data: "(\<And>i. mal i) \<Longrightarrow> arc_data (snd (archive_append mal bs s)) = arc_data s @ bs"
  by (cases s) (simp add: archive_append_def)

lemma archive_file_data:
  assumes "fe_ok fe" "\<And>i. mal i" "length rel < 511"
  shows "arc_data (snd (archive_file fe mal dk rel (base @ ''/'' @ rel) s))
    = arc_data s @ concat (map entry_bytes (file_entries dk base rel))"
proof (cases "dk_files dk (base @ ''/'' @ rel)")
  case None
  then show ?thesis by (cases s) (simp add: archive_file_def file_entries_def)
next
  case (Some d)
  have "unat (of_nat (length rel) :: u16) = length rel" using assms(3) by (simp add: unat_of_nat_small)
  moreover have "length d \<le> 64 * 1024 * 1024 \<Longrightarrow> unat (of_nat (length d) :: u32) = length d" by (simp add: unat_of_nat_small)
  ultimately show ?thesis
    using Some assms(1,2)
    by (cases s) (auto simp: archive_file_def file_entries_def fe_ok_def Let_def entry_bytes_def archive_append_data)
qed

lemma archive_names_data:
  assumes "fe_ok fe" "\<And>i. mal i" "length base < 510"
    and fits: "\<And>n. n \<in> set ns \<Longrightarrow> length (base @ ''/'' @ rel) + 1 + length n < 511"
    and sub: "\<And>n s. n \<in> set ns \<Longrightarrow> take 1 n \<noteq> ''.'' \<Longrightarrow> dk_dirs dk (base @ ''/'' @ rel @ ''/'' @ n) \<noteq> None \<Longrightarrow>
      \<exists>s'. f (rel @ ''/'' @ n) s = Some s' \<and> arc_data s' = arc_data s @ concat (map entry_bytes (E (rel @ ''/'' @ n)))"
  shows "\<exists>s'. archive_names f fe mal dk (base @ ''/'' @ rel) rel ns s = Some s'
    \<and> arc_data s' = arc_data s @ concat (map entry_bytes (concat (map (name_entries E dk base rel) ns)))"
  using fits sub
proof (induction ns arbitrary: s)
  case (Cons n ns)
  have len: "length rel + length n + 1 < 511" "length base + length rel + length n + 2 < 511" using Cons.prems(1) [of n] by simp_all
  then have names: "snprintf_str 512 (rel @ ''/'' @ n) = rel @ ''/'' @ n"
    "snprintf_str 512 ((base @ ''/'' @ rel) @ ''/'' @ n) = base @ ''/'' @ rel @ ''/'' @ n"
    by (simp_all add: snprintf_str_def)
  note IH = Cons.IH [OF Cons.prems(1) Cons.prems(2)]
  consider "take 1 n = ''.''" | "take 1 n \<noteq> ''.''" "dk_dirs dk (base @ ''/'' @ rel @ ''/'' @ n) \<noteq> None"
    | "take 1 n \<noteq> ''.''" "dk_dirs dk (base @ ''/'' @ rel @ ''/'' @ n) = None" by blast
  then show ?case
  proof cases
    case 1
    then show ?thesis using IH [of s] by (simp add: name_entries_def)
  next
    case 2
    then obtain s1 where s1: "f (rel @ ''/'' @ n) s = Some s1" "arc_data s1 = arc_data s @ concat (map entry_bytes (E (rel @ ''/'' @ n)))"
      using Cons.prems(2) [of n s] by auto
    then show ?thesis using 2 IH [of s1] by (simp add: names [simplified] name_entries_def Let_def)
  next
    case 3
    have "length (rel @ ''/'' @ n) < 511" using len by simp
    from archive_file_data [where mal = mal, OF assms(1,2) this, of dk base s] 3
      IH [of "snd (archive_file fe mal dk (rel @ ''/'' @ n) (base @ ''/'' @ rel @ ''/'' @ n) s)"]
    show ?thesis by (simp add: names [simplified] name_entries_def Let_def)
  qed
qed simp

lemma archive_dir_entries:
  assumes "fe_ok fe" "\<And>i. mal i" "length base < 510" "tidy dk"
  shows "length (base @ ''/'' @ rel) < 511 \<Longrightarrow> 511 - length (base @ ''/'' @ rel) < fuel \<Longrightarrow>
    \<exists>s'. archive_dir fuel fe mal dk base rel s = Some s'
      \<and> arc_data s' = arc_data s @ concat (map entry_bytes (entries_dir fuel dk base rel))"
proof (induction fuel arbitrary: rel s)
  case (Suc fuel)
  have absp: "snprintf_str 512 (base @ ''/'' @ rel) = base @ ''/'' @ rel"
    using Suc.prems(1) by (simp add: snprintf_str_def)
  show ?case
  proof (cases "dk_dirs dk (base @ ''/'' @ rel)")
    case None
    with absp [simplified] show ?thesis by simp
  next
    case (Some ns)
    have fits: "n \<noteq> [] \<and> length (base @ ''/'' @ rel) + 1 + length n < 511" if "n \<in> set ns" for n
      using tidyD [OF assms(4) Some that] by simp
    have sub: "\<exists>s'. archive_dir fuel fe mal dk base (rel @ ''/'' @ n) s = Some s'
        \<and> arc_data s' = arc_data s @ concat (map entry_bytes (entries_dir fuel dk base (rel @ ''/'' @ n)))" if "n \<in> set ns" for n s
    proof (rule Suc.IH)
      show "length (base @ ''/'' @ rel @ ''/'' @ n) < 511" using fits [OF that] by simp
      show "511 - length (base @ ''/'' @ rel @ ''/'' @ n) < fuel"
        using fits [OF that] Suc.prems by (cases n) auto
    qed
    have "\<exists>s'. archive_names (archive_dir fuel fe mal dk base) fe mal dk (base @ ''/'' @ rel) rel ns s = Some s'
      \<and> arc_data s' = arc_data s @ concat (map entry_bytes (concat (map (name_entries (entries_dir fuel dk base) dk base rel) ns)))"
      by (rule archive_names_data [where mal = mal, OF assms(1-3)]) (use fits sub in auto)
    with absp [simplified] Some assms(1) show ?thesis by (simp add: fe_ok_def)
  qed
qed simp

lemma entries_dir_sound:
  assumes "shown_dir dk base rel" "(r, d) \<in> set (entries_dir fuel dk base rel)"
  shows "shown_file dk base r d"
  using assms
proof (induction fuel arbitrary: rel)
  case (Suc fuel)
  then obtain ns n where n: "dk_dirs dk (base @ ''/'' @ rel) = Some ns" "n \<in> set ns"
    "(r, d) \<in> set (name_entries (entries_dir fuel dk base) dk base rel n)"
    by (cases "dk_dirs dk (base @ ''/'' @ rel)") auto
  then show ?case
    using Suc.IH [OF shown_dir.sub [OF Suc.prems(1) n(1,2)]] shown_file.intros [OF Suc.prems(1) n(1,2)]
    by (auto simp: name_entries_def file_entries_def split: if_splits option.splits)
qed simp

text \<open>Each visible directory is visited with fuel to spare.\<close>

lemma entries_dir_covers:
  assumes "tidy dk" "length base < 510" "shown_dir dk base rel"
  shows "length (base @ ''/'' @ rel) < 511
    \<and> (\<exists>fuel. 511 - length (base @ ''/'' @ rel) < fuel \<and> set (entries_dir fuel dk base rel) \<subseteq> set (entries_dir 512 dk base ''''))"
  using assms(3)
proof induction
  case root
  show ?case using assms(2) by (intro conjI exI [of _ 512]) simp_all
next
  case (sub rel ns n)
  have n: "n \<noteq> []" "length (base @ ''/'' @ rel) + 1 + length n < 511" using tidyD [OF assms(1) sub(2,3)] by simp_all
  from sub.IH obtain fuel where fuel: "511 - length (base @ ''/'' @ rel) < fuel" "set (entries_dir fuel dk base rel) \<subseteq> set (entries_dir 512 dk base '''')"
    by blast
  then obtain k where k: "fuel = Suc k" by (cases fuel) auto
  have "set (entries_dir k dk base (rel @ ''/'' @ n)) \<subseteq> set (entries_dir fuel dk base rel)"
    using sub(2-5) by (auto simp: k name_entries_def)
  moreover have "511 - length (base @ ''/'' @ rel @ ''/'' @ n) < k" using fuel(1) n by (cases n) (auto simp: k)
  ultimately show ?case using fuel(2) n by auto
qed

lemma entries_dir_complete:
  assumes "tidy dk" "length base < 510" "shown_file dk base r d"
  shows "(r, d) \<in> set (entries_dir 512 dk base '''')"
  using assms(3)
proof (cases rule: shown_file.cases)
  case (1 rel ns n)
  obtain fuel where fuel: "511 - length (base @ ''/'' @ rel) < fuel" "set (entries_dir fuel dk base rel) \<subseteq> set (entries_dir 512 dk base '''')"
    using entries_dir_covers [OF assms(1,2) 1(2)] by blast
  then obtain k where "fuel = Suc k" by (cases fuel) auto
  then have "(r, d) \<in> set (entries_dir fuel dk base rel)" using 1 by (auto simp: name_entries_def file_entries_def)
  with fuel(2) show ?thesis by blast
qed

lemma set_entries_dir:
  "tidy dk \<Longrightarrow> length base < 510 \<Longrightarrow> (r, d) \<in> set (entries_dir 512 dk base '''') \<longleftrightarrow> shown_file dk base r d"
  using entries_dir_sound [OF shown_dir.root] entries_dir_complete by blast

text \<open>Visible paths are proper paths.\<close>

definition rel_ok :: "string \<Rightarrow> bool" where
  "rel_ok r \<longleftrightarrow> r \<noteq> [] \<and> CHR 0x00 \<notin> set r"

lemma shown_dir_no_nul: "shown_dir dk base rel \<Longrightarrow> tidy dk \<Longrightarrow> CHR 0x00 \<notin> set rel"
proof (induction rule: shown_dir.induct)
  case (sub rel ns n)
  then show ?case using tidyD [OF sub.prems sub(2,3)] by simp
qed simp

lemma shown_file_ok:
  assumes "tidy dk" "shown_file dk base r d"
  shows "rel_ok r \<and> length base + 1 + length r < 511 \<and> length d \<le> 64 * 1024 * 1024 \<and> dk_files dk (base @ ''/'' @ r) = Some d
    \<and> (\<exists>rel. shown_dir dk base rel \<and> (\<forall>dir. parent_of (dir @ ''/'' @ r) = Some (dir @ ''/'' @ rel)))"
  using assms(2)
proof (cases rule: shown_file.cases)
  case (1 rel ns n)
  have n: "n \<noteq> []" "CHR 0x00 \<notin> set n" "CHR ''/'' \<notin> set n" "length (base @ ''/'' @ rel) + 1 + length n < 511"
    using tidyD [OF assms(1) 1(3,4)] by simp_all
  have "dropWhile (\<lambda>c. c \<noteq> CHR ''/'') (rev n @ CHR ''/'' # xs) = CHR ''/'' # xs" for xs
    using n(3) by (subst dropWhile_append2) auto
  then have "parent_of (dir @ ''/'' @ r) = Some (dir @ ''/'' @ rel)" for dir by (simp add: parent_of_def 1(1))
  then show ?thesis using 1 n shown_dir_no_nul [OF 1(2) assms(1)] by (auto simp: rel_ok_def)
qed

section \<open>What an import writes\<close>

definition restore_all :: "fs_env \<Rightarrow> string \<Rightarrow> (string \<times> bytes) list \<Rightarrow> disk \<Rightarrow> disk" where
  "restore_all fe dir es dk = foldl (\<lambda>dk e. restore_file fe (dir @ ''/'' @ fst e) (snd e) dk) dk es"

lemma char_array_str_bytes: "CHR 0x00 \<notin> set s \<Longrightarrow> char_array_str (str_bytes s) = s"
proof -
  assume "CHR 0x00 \<notin> set s"
  then have "takeWhile (\<lambda>b. b \<noteq> 0) (str_bytes s) = str_bytes s"
    by (auto simp: str_bytes_def of_char_eq_0 takeWhile_eq_all_conv)
  then have "char_array_str (str_bytes s) = map (\<lambda>b. char_of (unat b)) (str_bytes s)" by (simp only: char_array_str_def)
  then show ?thesis by (simp add: str_bytes_def unat_of_char comp_def)
qed

lemma extract_loop_entries:
  assumes "\<forall>e\<in>set es. rel_ok (fst e) \<and> length dir + 1 + length (fst e) < 511 \<and> length (snd e) \<le> 64 * 1024 * 1024"
  shows "extract_loop fe dir (pre @ concat (map entry_bytes es)) (length pre) dk = Some (restore_all fe dir es dk)"
  using assms
proof (induction es arbitrary: pre dk)
  case Nil
  then show ?case by (simp add: extract_loop.simps restore_all_def)
next
  case (Cons e es)
  obtain r d where e: "e = (r, d)" by (cases e)
  let ?rest = "concat (map entry_bytes es)"
  define plain where "plain = pre @ entry_bytes (r, d) @ ?rest"
  have r: "r \<noteq> []" "CHR 0x00 \<notin> set r" "length dir + 1 + length r < 511" "length d \<le> 64 * 1024 * 1024"
    using Cons.prems by (auto simp: e rel_ok_def)
  have u: "unat (of_nat (length r) :: u16) = length r" "unat (of_nat (length d) :: u32) = length d"
    using r by (simp_all add: unat_of_nat_small)
  have reads: "mem_read (length pre) 2 plain = le16 (of_nat (length r))"
    "mem_read (length pre + 2) (length r) plain = str_bytes r"
    "mem_read (length pre + 2 + length r) 4 plain = le32 (of_nat (length d))"
    "mem_read (length pre + 2 + length r + 4) (length d) plain = d"
    by (simp_all add: mem_read_def entry_bytes_def plain_def)
  have len: "length plain = length pre + 2 + length r + 4 + length d + length ?rest" by (simp add: plain_def entry_bytes_def)
  have absp: "snprintf_str 512 (dir @ ''/'' @ r) = dir @ ''/'' @ r" "length r < 511" using r by (simp_all add: snprintf_str_def)
  have "0 < length r" using r(1) by simp
  then have "extract_loop fe dir plain (length pre) dk
    = extract_loop fe dir plain (length pre + 2 + length r + 4 + length d) (restore_file fe (dir @ ''/'' @ r) d dk)"
    using r(2,3) unfolding extract_loop.simps [of fe dir plain "length pre"] len Let_def
    by (simp only: reads u u16le.dec_enc u32le.dec_enc absp if_True) (simp add: char_array_str_bytes absp [simplified])
  moreover have length_entry: "length (entry_bytes (r, d)) = 2 + length r + 4 + length d" by (simp add: entry_bytes_def)
  have "extract_loop fe dir plain (length pre + 2 + length r + 4 + length d) (restore_file fe (dir @ ''/'' @ r) d dk)
    = Some (restore_all fe dir es (restore_file fe (dir @ ''/'' @ r) d dk))"
    using Cons.IH [of "pre @ entry_bytes (r, d)"] Cons.prems
    by (simp add: plain_def length_entry ac_simps)
  ultimately show ?case by (simp add: e restore_all_def plain_def)
qed

lemma add_name_sel [simp]:
  "dk_files (add_name s dk) = dk_files dk" "dk_dirs (add_name s dk) q = None \<longleftrightarrow> dk_dirs dk q = None"
  by (auto simp: add_name_def split: option.splits)

lemma restore_file_existing:
  assumes "fe_ok fe" "parent_of s = Some p" "dk_dirs dk p \<noteq> None" "dk_dirs dk s = None"
  shows "dk_files (restore_file fe s d dk) = (dk_files dk)(s \<mapsto> d)"
    and "dk_dirs (restore_file fe s d dk) q = None \<longleftrightarrow> dk_dirs dk q = None"
  using assms by (auto simp: restore_file_def mkdir_def write_file_def parent_exists_def fe_ok_def Let_def)

lemma restore_file_orphan:
  assumes "parent_of s = Some p" "dk_dirs dk p = None" "\<not> parent_exists p dk"
  shows "restore_file fe s d dk = dk"
  using assms by (simp add: restore_file_def mkdir_def write_file_def parent_exists_def)

definition has_place :: "string \<Rightarrow> disk \<Rightarrow> bool" where
  "has_place s dk \<longleftrightarrow> (\<exists>p. parent_of s = Some p \<and> dk_dirs dk p \<noteq> None) \<and> dk_dirs dk s = None"

lemma restore_all_existing:
  assumes "fe_ok fe" "\<forall>e\<in>set es. has_place (dir @ ''/'' @ fst e) dk \<and> G (dir @ ''/'' @ fst e) = Some (snd e)"
  shows "dk_files (restore_all fe dir es dk) q
    = (if q \<in> (\<lambda>e. dir @ ''/'' @ fst e) ` set es then G q else dk_files dk q)"
  using assms(2)
proof (induction es arbitrary: dk)
  case (Cons e es)
  let ?dk = "restore_file fe (dir @ ''/'' @ fst e) (snd e) dk"
  obtain p where p: "parent_of (dir @ ''/'' @ fst e) = Some p" "dk_dirs dk p \<noteq> None" "dk_dirs dk (dir @ ''/'' @ fst e) = None"
    using Cons.prems unfolding has_place_def list.set by blast
  note step = restore_file_existing [OF assms(1) p]
  have "has_place s ?dk \<longleftrightarrow> has_place s dk" for s unfolding has_place_def step(2) ..
  then have "dk_files (restore_all fe dir es ?dk) q
    = (if q \<in> (\<lambda>e. dir @ ''/'' @ fst e) ` set es then G q else dk_files ?dk q)"
    using Cons.IH [of ?dk] Cons.prems by simp
  moreover have "G (dir @ ''/'' @ fst e) = Some (snd e)" using Cons.prems by simp
  ultimately show ?case by (auto simp: restore_all_def step(1) [simplified])
qed (simp add: restore_all_def)

lemma restore_all_orphans:
  "\<forall>e\<in>set es. \<exists>p. parent_of (dir @ ''/'' @ fst e) = Some p \<and> dk_dirs dk p = None \<and> \<not> parent_exists p dk \<Longrightarrow>
   restore_all fe dir es dk = dk"
  by (induction es) (auto simp: restore_all_def restore_file_orphan)

lemma import_plain:
  assumes "aead_ok sd" "fe_ok fe" "\<And>i. mal i" "length salt = 16" "length rest = 16" "length nonce = 24"
    and "so_pwhash sd passphrase salt = Some key" "koe_encrypt sd plain nonce key = Some ct" "length plain + 16 < 2 ^ 64"
    and "dk_files dk inp = Some (backup_header junk rest now salt nonce (of_nat (length plain + 16)) @ ct)"
  shows "koe_backup_import sd fe mal inp passphrase dir dk = map_option (\<lambda>dk. (0, dk)) (extract_loop fe dir plain 0 dk)"
proof -
  define h where "h = backup_header junk rest now salt nonce (of_nat (length plain + 16))"
  have magic: "length (str_bytes ''KOEBAK'') = 6" by simp
  have h: "length h = 80" using assms(4-6) by (simp add: h_def backup_header_def)
  have ct: "length ct = length plain + 16" "koe_decrypt sd ct nonce key = Some plain"
    using koe_decrypt_encrypt [OF assms(1,8)] by simp_all
  have len: "unat (of_nat (length plain + 16) :: u64) = length ct" unfolding ct(1) by (rule unat_of_nat_small) (use assms(9) in simp)
  have fields: "take 6 h = str_bytes ''KOEBAK''" "mem_read 16 16 h = salt" "mem_read 48 24 h = nonce"
    "mem_read 72 8 h = le64 (of_nat (length plain + 16))"
    using assms(4-6) unfolding h_def backup_header_def
    by (simp_all add: mem_read_def magic numeral_eq_Suc del: of_nat_add)
  have fields': "take 6 (h @ ct) = str_bytes ''KOEBAK''" "mem_read 16 16 (h @ ct) = salt" "mem_read 48 24 (h @ ct) = nonce"
    "mem_read 72 8 (h @ ct) = le64 (of_nat (length plain + 16))" "mem_read 80 (length ct) (h @ ct) = ct"
    using fields h by (simp_all add: mem_read_def)
  have "dk_files dk inp = Some (h @ ct)" using assms(10) by (simp add: h_def)
  then show ?thesis
    using assms(2,3,7) h ct(2) unfolding koe_backup_import_def
    by (simp only: option.case fe_ok_def Let_def fields' u64le.dec_enc len) simp
qed

text \<open>The plaintext of a backup, and that an export with the memory and the cipher at hand writes it.\<close>

definition backup_plain :: "disk \<Rightarrow> string \<Rightarrow> bytes" where
  "backup_plain dk base = concat (map entry_bytes (entries_dir 512 dk base ''''))"

lemma export_writes:
  assumes "aead_ok sd" "fe_ok fe" "\<And>i. mal i" "tidy dk" "length base < 510" "length (backup_plain dk base) + 16 < 2 ^ 64"
    and "so_pwhash sd passphrase salt = Some key" "koe_encrypt sd (backup_plain dk base) nonce key = Some ct"
    and "parent_exists out dk" "dk_dirs dk out = None"
  shows "\<exists>dk'. koe_backup_export sd fe mal 512 salt nonce junk rest now out passphrase base dk = Some (0, dk')
    \<and> dk_files dk' = (dk_files dk)(out \<mapsto> backup_header junk rest now salt nonce (of_nat (length (backup_plain dk base) + 16)) @ ct)"
proof -
  have "length (base @ ''/'' @ '''') < 511" "511 - length (base @ ''/'' @ '''') < 512" using assms(5) by simp_all
  from archive_dir_entries [where mal = mal, OF assms(2-3) assms(5,4) this, of "(\<lparr>av_data = [], av_cap = 65536\<rparr>, 1)"]
  obtain arc i where arc: "archive_dir 512 fe mal dk base '''' (\<lparr>av_data = [], av_cap = 65536\<rparr>, 1) = Some (arc, i)"
    "av_data arc = backup_plain dk base"
    by (auto simp: backup_plain_def)
  have "length ct = length (backup_plain dk base) + 16" using koe_decrypt_encrypt [OF assms(1,8)] by simp
  moreover have "unat (of_nat (length (backup_plain dk base) + 16) :: u64) = length (backup_plain dk base) + 16"
    by (rule unat_of_nat_small) (use assms(6) in simp)
  ultimately have take: "take (unat (of_nat (length (av_data arc) + 16) :: u64)) ct = ct" by (simp only: arc(2)) simp
  show ?thesis
    using assms(2,3,7-10) unfolding koe_backup_export_def arc(1)
    by (simp add: take [unfolded arc(2)] arc(2) Let_def write_file_def fe_ok_def del: of_nat_add)
qed

section \<open>Properties\<close>


text \<open>A backup of nested directories restores nothing into a fresh directory and still reports
  success: the importer creates only the last directory of a path, so when that directory and
  the one above it are missing for every file, the disk stays as it was.\<close>

theorem backup_loses_nested:
  assumes "aead_ok sd" and "fe_ok fe" and "\<And>i. mal i" and "length salt = 16" and "length rest = 16" and "length nonce = 24"
    and "so_pwhash sd passphrase salt = Some key" and "koe_encrypt sd (backup_plain dk base) nonce key = Some ct"
    and "tidy dk" and "length base < 510" and "length dir \<le> length base" and "length (backup_plain dk base) + 16 < 2 ^ 64"
    and "dk_files E inp = Some (backup_header junk rest now salt nonce (of_nat (length (backup_plain dk base) + 16)) @ ct)"
    and "\<forall>rel. shown_dir dk base rel \<longrightarrow> (\<exists>r d. shown_file dk base r d \<and> parent_of (dir @ ''/'' @ r) = Some (dir @ ''/'' @ rel)) \<longrightarrow>
           dk_dirs E (dir @ ''/'' @ rel) = None \<and> \<not> parent_exists (dir @ ''/'' @ rel) E"
  shows "koe_backup_import sd fe mal inp passphrase dir E = Some (0, E)"
proof -
  let ?es = "entries_dir 512 dk base ''''"
  have es: "(rel_ok (fst e) \<and> length dir + 1 + length (fst e) < 511 \<and> length (snd e) \<le> 64 * 1024 * 1024)
    \<and> (\<exists>p. parent_of (dir @ ''/'' @ fst e) = Some p \<and> dk_dirs E p = None \<and> \<not> parent_exists p E)" if "e \<in> set ?es" for e
  proof -
    have e: "shown_file dk base (fst e) (snd e)" using that set_entries_dir [OF assms(9,10), of "fst e" "snd e"] by simp
    note ok = shown_file_ok [OF assms(9) e]
    then obtain rel where "shown_dir dk base rel" "parent_of (dir @ ''/'' @ fst e) = Some (dir @ ''/'' @ rel)" by blast
    with assms(14) e have "\<exists>p. parent_of (dir @ ''/'' @ fst e) = Some p \<and> dk_dirs E p = None \<and> \<not> parent_exists p E" by blast
    moreover have "length dir + 1 + length (fst e) < 511" using ok assms(11) by linarith
    ultimately show ?thesis using ok by blast
  qed
  have "restore_all fe dir ?es E = E" by (rule restore_all_orphans) (use es in blast)
  then show ?thesis
    using import_plain [where mal = mal, OF assms(1-8,12,13), of dir] extract_loop_entries [of ?es dir fe "[]" E] es
    by (simp add: backup_plain_def)
qed

text \<open>C34. An archive can make the importer read past its end: when the last path runs up to within
  three bytes of the end, the four bytes of the length that should follow are read out of bounds.
  Decryption under the passphrase is the only check on the archive.\<close>

theorem backup_import_overrun:
  assumes "aead_ok sd" and "fe_ok fe" and "\<And>i. mal i" and "length salt = 16" and "length rest = 16" and "length nonce = 24"
    and "so_pwhash sd passphrase salt = Some key" and "koe_encrypt sd plain nonce key = Some ct"
    and "plain = le16 (of_nat (length path)) @ path @ tail" and "length path < 2 ^ 16" and "length tail < 4" and "4 < length path + length tail"
    and "dk_files E inp = Some (backup_header junk rest now salt nonce (of_nat (length plain + 16)) @ ct)"
  shows "koe_backup_import sd fe mal inp passphrase dir E = None"
proof -
  have len: "length plain = 2 + length path + length tail" "mem_read 0 2 plain = le16 (of_nat (length path))"
    using assms(9) by (simp_all add: mem_read_def)
  have "unat (of_nat (length path) :: u16) = length path" using assms(10) by (simp add: unat_of_nat_small)
  then have "extract_loop fe dir plain 0 E = None"
    using assms(11,12) by (subst extract_loop.simps) (simp add: Let_def len)
  moreover have "length plain + 16 < 2 ^ 64" using len(1) assms(10,11) by simp
  ultimately show ?thesis using import_plain [where mal = mal, OF assms(1-8) _ assms(13), of dir] by simp
qed

section \<open>Examples\<close>

definition demo_env :: fs_env where
  "demo_env = \<lparr>fe_read = \<lambda>s d. Some d, fe_list = \<lambda>s. True, fe_write = \<lambda>s d. Some d\<rparr>"

lemma demo_env_ok: "fe_ok demo_env"
  by (simp add: fe_ok_def demo_env_def)

definition flat_disk :: disk where
  "flat_disk = \<lparr>dk_files = [''d//f'' \<mapsto> [1], ''d//sub/g'' \<mapsto> [2, 3], ''d//.h'' \<mapsto> [4]],
     dk_dirs = [''d/'' \<mapsto> [''f'', ''sub'', ''.h''], ''d//sub'' \<mapsto> [''g'']]\<rparr>"

definition deep_disk :: disk where
  "deep_disk = \<lparr>dk_files = [''d//a/b/f'' \<mapsto> [7]],
     dk_dirs = [''d/'' \<mapsto> [''a''], ''d//a'' \<mapsto> [''b''], ''d//a/b'' \<mapsto> [''f'']]\<rparr>"

lemma demo_tidy: "tidy flat_disk" "tidy deep_disk"
  by (auto simp: tidy_def flat_disk_def deep_disk_def split: if_splits)

lemma demo_entries:
  "entries_dir 512 flat_disk ''d'' '''' = [(''/f'', [1]), (''/sub/g'', [2, 3])]"
  "entries_dir 512 deep_disk ''d'' '''' = [(''/a/b/f'', [7])]"
proof -
  have "entries_dir (Suc (Suc (Suc k))) flat_disk ''d'' '''' = [(''/f'', [1]), (''/sub/g'', [2, 3])]"
    "entries_dir (Suc (Suc (Suc k))) deep_disk ''d'' '''' = [(''/a/b/f'', [7])]" for k
    by (simp_all add: flat_disk_def deep_disk_def name_entries_def file_entries_def)
  from this [of 509] show "entries_dir 512 flat_disk ''d'' '''' = [(''/f'', [1]), (''/sub/g'', [2, 3])]"
    "entries_dir 512 deep_disk ''d'' '''' = [(''/a/b/f'', [7])]"
    by (simp_all only: Suc_numeral add_num_simps)
qed

lemma shown_dir_exists: "shown_dir dk base rel \<Longrightarrow> dk_dirs dk (base @ ''/'') \<noteq> None \<Longrightarrow> dk_dirs dk (base @ ''/'' @ rel) \<noteq> None"
  by (erule shown_dir.cases) auto

lemma demo_pwhash: "\<exists>key. so_pwhash demo_sodium p salt = Some key" and demo_encrypts: "\<exists>ct. koe_encrypt demo_sodium plain nonce key = Some ct"
  by (simp_all add: demo_sodium_def koe_encrypt_def)


theorem backup_loses_nested_witness:
  "\<exists>key ct. so_pwhash demo_sodium ''pw'' (replicate 16 1) = Some key \<and>
     koe_encrypt demo_sodium (backup_plain deep_disk ''d'') (replicate 24 2) key = Some ct \<and>
     (let E = \<lparr>dk_files = [''bak'' \<mapsto> backup_header 0 (replicate 16 0) 5 (replicate 16 1) (replicate 24 2)
                  (of_nat (length (backup_plain deep_disk ''d'') + 16)) @ ct], dk_dirs = [''n/'' \<mapsto> []]\<rparr>
      in koe_backup_import demo_sodium demo_env (\<lambda>_. True) ''bak'' ''pw'' ''n'' E = Some (0, E) \<and> dk_files E ''n//a/b/f'' = None)"
proof -
  obtain key where key: "so_pwhash demo_sodium ''pw'' (replicate 16 1) = Some key" using demo_pwhash by blast
  obtain ct where ct: "koe_encrypt demo_sodium (backup_plain deep_disk ''d'') (replicate 24 2) key = Some ct" using demo_encrypts by blast
  let ?E = "\<lparr>dk_files = [''bak'' \<mapsto> backup_header 0 (replicate 16 0) 5 (replicate 16 1) (replicate 24 2)
                  (of_nat (length (backup_plain deep_disk ''d'') + 16)) @ ct], dk_dirs = [''n/'' \<mapsto> []]\<rparr>"
  have shown: "shown_file deep_disk ''d'' r d \<longleftrightarrow> r = ''/a/b/f'' \<and> d = [7]" for r d
    using set_entries_dir [OF demo_tidy(2), of "''d''" r d] by (simp add: demo_entries)
  have fits: "length (backup_plain deep_disk ''d'') + 16 < 2 ^ 64" by (simp add: backup_plain_def demo_entries entry_bytes_def)
  have "parent_of (''n'' @ ''/'' @ ''/a/b/f'') = Some ''n//a/b''" "\<not> parent_exists ''n//a/b'' ?E" "dk_dirs ?E ''n//a/b'' = None"
    by (simp_all add: parent_exists_def parent_of_def)
  then have "koe_backup_import demo_sodium demo_env (\<lambda>_. True) ''bak'' ''pw'' ''n'' ?E = Some (0, ?E)"
    by (intro backup_loses_nested [where mal = "\<lambda>_. True" and dir = "''n''" and E = ?E and base = "''d''" and dk = deep_disk,
        OF demo_aead_ok demo_env_ok _ _ _ _ key ct demo_tidy(2) _ _ fits]) (auto simp: shown)
  with key ct show ?thesis by (simp add: Let_def)
qed

theorem backup_import_overrun_witness:
  "\<exists>ct. koe_backup_import demo_sodium demo_env (\<lambda>_. True) ''bak'' ''pw'' ''n''
     \<lparr>dk_files = [''bak'' \<mapsto> backup_header 0 (replicate 16 0) 5 (replicate 16 1) (replicate 24 2) (of_nat (length (le16 5 @ replicate 5 65) + 16)) @ ct],
      dk_dirs = Map.empty\<rparr> = None"
proof -
  obtain key where key: "so_pwhash demo_sodium ''pw'' (replicate 16 1) = Some key" using demo_pwhash by blast
  obtain ct where ct: "koe_encrypt demo_sodium (le16 5 @ replicate 5 65) (replicate 24 2) key = Some ct" using demo_encrypts by blast
  show ?thesis
    by (rule exI [of _ ct], rule backup_import_overrun [where path = "replicate 5 65" and tail = "[]" and mal = "\<lambda>_. True",
        OF demo_aead_ok demo_env_ok _ _ _ _ key ct]) simp_all
qed

end
