(* ===== verification/Koe_Sealed.thy ===== *)
theory Koe_Sealed
  imports Koe_Crypto Koe_Packet
begin

text \<open>
  The packet set-up that presence, media, channels and calls repeat: initialise the header, fill
  in length, addresses and nonce, compute the checksum and attach the ciphertext. The lemmas
  give what every receiver relies on: such a packet survives the wire, passes validation, and
  decrypts to the plaintext it was made from.
\<close>

definition sealed_packet :: "u8 \<Rightarrow> u8 \<Rightarrow> u32 \<Rightarrow> bytes \<Rightarrow> bytes \<Rightarrow> bytes \<Rightarrow> bytes \<Rightarrow> koe_packet" where
  "sealed_packet ty fl len from_pk to_pk nonce ct =
     (let pkt = koe_packet_init ty fl;
          h = (header pkt)\<lparr>h_length := len, h_from := from_pk, h_to := to_pk, h_nonce := nonce\<rparr>
      in pkt\<lparr>header := h\<lparr>h_checksum := koe_packet_checksum h\<rparr>, payload := Some ct\<rparr>)"

lemma sealed_packet_sel [simp]:
  "h_type (header (sealed_packet ty fl len from_pk to_pk nonce ct)) = ty"
  "h_flags (header (sealed_packet ty fl len from_pk to_pk nonce ct)) = fl"
  "h_length (header (sealed_packet ty fl len from_pk to_pk nonce ct)) = len"
  "h_from (header (sealed_packet ty fl len from_pk to_pk nonce ct)) = from_pk"
  "h_to (header (sealed_packet ty fl len from_pk to_pk nonce ct)) = to_pk"
  "h_nonce (header (sealed_packet ty fl len from_pk to_pk nonce ct)) = nonce"
  "payload (sealed_packet ty fl len from_pk to_pk nonce ct) = Some ct"
  by (simp_all add: sealed_packet_def Let_def)

lemma sealed_packet_wire:
  assumes "length from_pk = 32" "length to_pk = 32" "length nonce = 24" "unat len = length ct" "0 < length ct"
    and "length ct \<le> KOE_MAX_PAYLOAD"
  shows "wire_packet (sealed_packet ty fl len from_pk to_pk nonce ct)
    \<and> koe_packet_validate (sealed_packet ty fl len from_pk to_pk nonce ct) = 0"
proof
  show "wire_packet (sealed_packet ty fl len from_pk to_pk nonce ct)"
    using assms by (auto simp: wire_packet_def wf_packet_def wf_header_def sealed_packet_def Let_def)
  show "koe_packet_validate (sealed_packet ty fl len from_pk to_pk nonce ct) = 0"
    by (rule koe_packet_validate_checksummed) (simp_all add: sealed_packet_def Let_def)
qed

text \<open>A plaintext sealed under a key: what the peer who has that key reads.\<close>

lemma sealed_packet_opens:
  assumes "aead_ok sd" "koe_encrypt sd plain nonce key = Some ct" "length from_pk = 32" "length to_pk = 32"
    and "length nonce = 24" "length plain + 16 \<le> KOE_MAX_PAYLOAD" "len = of_nat (length plain + 16)"
  shows "wire_packet (sealed_packet ty fl len from_pk to_pk nonce ct)
    \<and> koe_packet_validate (sealed_packet ty fl len from_pk to_pk nonce ct) = 0
    \<and> unat len = length ct \<and> length ct = length plain + 16
    \<and> koe_decrypt sd ct nonce key = Some plain"
proof -
  have ct: "koe_decrypt sd ct nonce key = Some plain" "length ct = length plain + 16"
    using koe_decrypt_encrypt [OF assms(1,2)] by simp_all
  have "unat len = length ct" unfolding assms(7) ct(2) using assms(6) by (intro unat_of_nat_small) simp
  with sealed_packet_wire [OF assms(3-5), of len ct ty fl] ct assms(6) show ?thesis by simp
qed

end
