(* ===== verification/Koe_Session.thy ===== *)
theory Koe_Session
  imports Koe_Crypto
begin

text \<open>
  The session table (\<^verbatim>\<open>src/koe_session.c\<close>): a fixed array of 256 slots with a count of the
  occupied ones. The lemmas show the representation invariant for every reachable table
  (the count is exact and a free slot holds no key material), that add, find and remove
  implement a finite map as long as a peer is added only once, what expiry removes, and what
  a second add for the same peer does. The \<open>NULL\<close> checks on the arguments are not
  represented: a table and a key are values here. Each \<open>time(NULL)\<close> is an argument.
\<close>

section \<open>Model\<close>

abbreviation (input) KOE_MAX_SESSIONS :: nat where "KOE_MAX_SESSIONS \<equiv> 256"

record koe_session_entry =
  se_peer_pk :: bytes
  se_sess :: koe_session
  se_created_at :: unix_time
  se_last_used :: unix_time
  se_active :: bool

record koe_session_table =
  tb_entries :: "koe_session_entry list"
  tb_count :: int

text \<open>\<open>memset(&entry, 0, sizeof(koe_session_entry_t))\<close>.\<close>

definition zero_entry :: koe_session_entry where
  "zero_entry = \<lparr>se_peer_pk = replicate 32 0, se_sess = zero_session, se_created_at = 0,
     se_last_used = 0, se_active = False\<rparr>"

definition koe_session_table_init :: koe_session_table where
  "koe_session_table_init = \<lparr>tb_entries = replicate KOE_MAX_SESSIONS zero_entry, tb_count = 0\<rparr>"

definition koe_session_table_add ::
  "unix_time \<Rightarrow> unix_time \<Rightarrow> bytes \<Rightarrow> koe_session \<Rightarrow> koe_session_table \<Rightarrow> int \<times> koe_session_table" where
  "koe_session_table_add t1 t2 peer_pk sess tbl =
     (if tb_count tbl \<ge> int KOE_MAX_SESSIONS then (-1, tbl)
      else case find_idx (\<lambda>e. \<not> se_active e) (tb_entries tbl) of
        None \<Rightarrow> (-1, tbl)
      | Some i \<Rightarrow> (0, tbl\<lparr>tb_entries := (tb_entries tbl)[i := \<lparr>se_peer_pk = peer_pk, se_sess = sess,
            se_created_at = t1, se_last_used = t2, se_active = True\<rparr>],
          tb_count := tb_count tbl + 1\<rparr>))"

definition is_peer :: "bytes \<Rightarrow> koe_session_entry \<Rightarrow> bool" where
  "is_peer peer_pk e \<longleftrightarrow> se_active e \<and> se_peer_pk e = peer_pk"

text \<open>The pointer to the session inside the table is returned as the session it points to.\<close>

definition koe_session_table_find ::
  "unix_time \<Rightarrow> bytes \<Rightarrow> koe_session_table \<Rightarrow> koe_session ptr \<times> koe_session_table" where
  "koe_session_table_find now peer_pk tbl =
     (case find_idx (is_peer peer_pk) (tb_entries tbl) of
        None \<Rightarrow> (NULL, tbl)
      | Some i \<Rightarrow>
          let e = tb_entries tbl ! i
          in (Some (se_sess e), tbl\<lparr>tb_entries := (tb_entries tbl)[i := e\<lparr>se_last_used := now\<rparr>]\<rparr>))"

definition koe_session_table_remove :: "bytes \<Rightarrow> koe_session_table \<Rightarrow> int \<times> koe_session_table" where
  "koe_session_table_remove peer_pk tbl =
     (case find_idx (is_peer peer_pk) (tb_entries tbl) of
        None \<Rightarrow> (-1, tbl)
      | Some i \<Rightarrow> (0, tbl\<lparr>tb_entries := (tb_entries tbl)[i := zero_entry], tb_count := tb_count tbl - 1\<rparr>))"

text \<open>The expiry loop, one slot at a time.\<close>

fun cleanup_loop :: "unix_time \<Rightarrow> int \<Rightarrow> koe_session_entry list \<Rightarrow> int \<Rightarrow> koe_session_entry list \<times> int" where
  "cleanup_loop now max_age [] count = ([], count)"
| "cleanup_loop now max_age (e # es) count =
     (if se_active e \<and> now - se_last_used e > max_age
      then apfst ((#) zero_entry) (cleanup_loop now max_age es (count - 1))
      else apfst ((#) e) (cleanup_loop now max_age es count))"

definition koe_session_table_cleanup ::
  "unix_time \<Rightarrow> int \<Rightarrow> koe_session_table \<Rightarrow> koe_session_table" where
  "koe_session_table_cleanup now max_age_seconds tbl =
     (if max_age_seconds \<le> 0 then tbl
      else let (entries, count) = cleanup_loop now max_age_seconds (tb_entries tbl) (tb_count tbl)
           in tbl\<lparr>tb_entries := entries, tb_count := count\<rparr>)"

section \<open>Invariant\<close>

definition active_count :: "koe_session_entry list \<Rightarrow> nat" where
  "active_count es = length (filter se_active es)"

definition table_ok :: "koe_session_table \<Rightarrow> bool" where
  "table_ok t \<longleftrightarrow> length (tb_entries t) = KOE_MAX_SESSIONS \<and>
     tb_count t = int (active_count (tb_entries t)) \<and>
     (\<forall>e\<in>set (tb_entries t). \<not> se_active e \<longrightarrow> e = zero_entry)"

text \<open>A table anywhere in its life: one step per call of the interface.\<close>

inductive session_step :: "koe_session_table \<Rightarrow> koe_session_table \<Rightarrow> bool" where
  step_add: "koe_session_table_add t1 t2 pk s t = (rc, t') \<Longrightarrow> session_step t t'"
| step_find: "koe_session_table_find now pk t = (r, t') \<Longrightarrow> session_step t t'"
| step_remove: "koe_session_table_remove pk t = (rc, t') \<Longrightarrow> session_step t t'"
| step_cleanup: "koe_session_table_cleanup now age t = t' \<Longrightarrow> session_step t t'"

inductive session_reachable :: "koe_session_table \<Rightarrow> bool" where
  reach_init: "session_reachable koe_session_table_init"
| reach_step: "session_reachable t \<Longrightarrow> session_step t t' \<Longrightarrow> session_reachable t'"

lemma active_count_update:
  "i < length es \<Longrightarrow> active_count (es[i := e]) + (if se_active (es ! i) then 1 else 0) =
    active_count es + (if se_active e then 1 else 0)"
  unfolding active_count_def by (rule filter_list_update_length)

lemma active_count_le: "active_count es \<le> length es"
  by (simp add: active_count_def)

lemma active_count_lt: "active_count es < length es \<longleftrightarrow> (\<exists>e\<in>set es. \<not> se_active e)"
proof
  assume "active_count es < length es"
  then show "\<exists>e\<in>set es. \<not> se_active e" by (rule contrapos_pp) (simp add: active_count_def)
next
  assume "\<exists>e\<in>set es. \<not> se_active e"
  then show "active_count es < length es" by (auto simp: active_count_def intro: length_filter_less)
qed

lemma zero_entry_inactive [simp]: "\<not> se_active zero_entry"
  by (simp add: zero_entry_def)

lemma table_ok_init: "table_ok koe_session_table_init"
  by (simp add: table_ok_def koe_session_table_init_def active_count_def)

lemma table_ok_update:
  assumes "table_ok t" and "i < KOE_MAX_SESSIONS" and "\<not> se_active e \<longrightarrow> e = zero_entry"
    and "t' = t\<lparr>tb_entries := (tb_entries t)[i := e], tb_count := c\<rparr>"
    and "c = tb_count t - (if se_active (tb_entries t ! i) then 1 else 0) + (if se_active e then 1 else 0)"
  shows "table_ok t'"
proof -
  have len: "length (tb_entries t) = 256" "tb_count t = int (active_count (tb_entries t))"
    and zero: "\<forall>e\<in>set (tb_entries t). \<not> se_active e \<longrightarrow> e = zero_entry"
    using assms(1) by (simp_all add: table_ok_def)
  have "c = int (active_count ((tb_entries t)[i := e]))"
    using active_count_update [of i "tb_entries t" e] assms(2,5) len by auto
  moreover have "\<forall>x\<in>set ((tb_entries t)[i := e]). \<not> se_active x \<longrightarrow> x = zero_entry"
    using zero assms(3) set_update_subset_insert [of "tb_entries t" i e] by blast
  ultimately show ?thesis using len(1) assms(4) by (simp add: table_ok_def)
qed

text \<open>Slot facts: an index found in a table is within the array.\<close>

lemma find_slot:
  assumes "table_ok t" and "find_idx P (tb_entries t) = Some i"
  shows "i < KOE_MAX_SESSIONS" and "P (tb_entries t ! i)"
  using assms find_idx_SomeD [OF assms(2)] by (auto simp: table_ok_def)

lemma cleanup_loop_eq:
  "cleanup_loop now age es c =
    (map (\<lambda>e. if se_active e \<and> now - se_last_used e > age then zero_entry else e) es,
     c - int (length (filter (\<lambda>e. se_active e \<and> now - se_last_used e > age) es)))"
  by (induction es arbitrary: c) auto

lemma active_count_cleanup:
  "active_count (map (\<lambda>e. if se_active e \<and> P e then zero_entry else e) es) +
    length (filter (\<lambda>e. se_active e \<and> P e) es) = active_count es"
  by (induction es) (auto simp: active_count_def)

lemma table_ok_add:
  assumes ok: "table_ok t"
  shows "table_ok (snd (koe_session_table_add t1 t2 pk s t))"
proof (cases "find_idx (\<lambda>e. \<not> se_active e) (tb_entries t)")
  case (Some i)
  note slot = find_slot [OF ok Some]
  show ?thesis
    using ok by (simp add: koe_session_table_add_def Some)
      (intro impI, rule table_ok_update [OF ok slot(1) _ refl], simp_all add: slot(2))
qed (use ok in \<open>simp add: koe_session_table_add_def del: find_idx_None\<close>)

lemma table_ok_find:
  assumes ok: "table_ok t"
  shows "table_ok (snd (koe_session_table_find now pk t))"
proof (cases "find_idx (is_peer pk) (tb_entries t)")
  case (Some i)
  note slot = find_slot [OF ok Some]
  show ?thesis
    by (simp add: koe_session_table_find_def Some Let_def)
      (rule table_ok_update [OF ok slot(1), where c = "tb_count t"
          and e = "(tb_entries t ! i)\<lparr>se_last_used := now\<rparr>"],
        use slot(2) in \<open>simp_all add: is_peer_def\<close>)
qed (use ok in \<open>simp add: koe_session_table_find_def del: find_idx_None\<close>)

lemma table_ok_remove:
  assumes ok: "table_ok t"
  shows "table_ok (snd (koe_session_table_remove pk t))"
proof (cases "find_idx (is_peer pk) (tb_entries t)")
  case (Some i)
  note slot = find_slot [OF ok Some]
  show ?thesis
    by (simp add: koe_session_table_remove_def Some)
      (rule table_ok_update [OF ok slot(1) _ refl], use slot(2) in \<open>simp_all add: is_peer_def\<close>)
qed (use ok in \<open>simp add: koe_session_table_remove_def del: find_idx_None\<close>)

lemma table_ok_cleanup: "table_ok t \<Longrightarrow> table_ok (koe_session_table_cleanup now age t)"
  using active_count_cleanup [of "\<lambda>e. now - se_last_used e > age" "tb_entries t"]
  by (auto simp: koe_session_table_cleanup_def cleanup_loop_eq table_ok_def)

lemma table_ok_step: "session_step t t' \<Longrightarrow> table_ok t \<Longrightarrow> table_ok t'"
  by (induction rule: session_step.induct)
    (metis snd_conv table_ok_add, metis snd_conv table_ok_find, metis snd_conv table_ok_remove,
      metis table_ok_cleanup)

lemma table_ok_reachable: "session_reachable t \<Longrightarrow> table_ok t"
  by (induction rule: session_reachable.induct) (auto intro: table_ok_init table_ok_step)

section \<open>The table as a map\<close>

text \<open>What a client of a table of peers relies on. \<open>inv\<close> is the representation invariant,
  \<open>contents\<close> the map the table stands for, \<open>used\<close> the number of entries, \<open>room\<close> tells whether an
  entry can be added and \<open>mk\<close> is the entry made for a key.\<close>

locale peer_table =
  fixes inv :: "'t \<Rightarrow> bool" and contents :: "'t \<Rightarrow> 'k \<Rightarrow> 'v option"
    and used :: "'t \<Rightarrow> nat" and room :: "'t \<Rightarrow> bool" and mk :: "'k \<Rightarrow> 'n \<Rightarrow> 'v"
    and ins :: "'k \<Rightarrow> 'n \<Rightarrow> 't \<Rightarrow> int \<times> 't"
    and get :: "'k \<Rightarrow> 't \<Rightarrow> 'v option \<times> 't"
    and del :: "'k \<Rightarrow> 't \<Rightarrow> int \<times> 't"
  assumes get_spec: "inv t \<Longrightarrow>
      fst (get k t) = contents t k \<and> inv (snd (get k t)) \<and>
      contents (snd (get k t)) = contents t \<and> used (snd (get k t)) = used t"
    and ins_full: "inv t \<Longrightarrow> \<not> room t \<Longrightarrow> ins k v t = (-1, t)"
    and ins_fresh: "inv t \<Longrightarrow> room t \<Longrightarrow> contents t k = None \<Longrightarrow>
      fst (ins k v t) = 0 \<and> inv (snd (ins k v t)) \<and>
      contents (snd (ins k v t)) = (contents t)(k \<mapsto> mk k v) \<and> used (snd (ins k v t)) = Suc (used t)"
    and del_absent: "inv t \<Longrightarrow> contents t k = None \<Longrightarrow> del k t = (-1, t)"
    and del_present: "inv t \<Longrightarrow> contents t k \<noteq> None \<Longrightarrow>
      fst (del k t) = 0 \<and> inv (snd (del k t)) \<and>
      contents (snd (del k t)) = (contents t)(k := None) \<and> Suc (used (snd (del k t))) = used t"
begin

lemma get_after_ins:
  assumes "inv t" and "room t" and "contents t k = None"
  shows "fst (get k' (snd (ins k v t))) = (if k' = k then Some (mk k v) else contents t k')"
  using ins_fresh [OF assms, of v] by (simp add: get_spec)

lemma get_after_del:
  assumes "inv t"
  shows "fst (get k' (snd (del k t))) = (if k' = k then None else contents t k')"
  using assms del_absent [of t k] del_present [of t k]
  by (cases "contents t k") (auto simp: get_spec)

text \<open>Removing what was just added leaves the map as it was.\<close>

lemma del_after_ins:
  assumes "inv t" and "room t" and "contents t k = None"
  shows "contents (snd (del k (snd (ins k v t)))) = contents t \<and>
    used (snd (del k (snd (ins k v t)))) = used t"
  using ins_fresh [OF assms, of v] del_present [of "snd (ins k v t)" k] assms(3)
  by (auto simp: fun_upd_idem)

end

text \<open>A table that refuses a key it already has.\<close>

locale unique_table = peer_table +
  assumes ins_dup: "inv t \<Longrightarrow> contents t k \<noteq> None \<Longrightarrow> ins k v t = (-1, t)"
begin

lemma ins_cases:
  assumes "inv t"
  shows "inv (snd (ins k v t)) \<and> contents (snd (ins k v t))
    = (if room t \<and> contents t k = None then (contents t)(k \<mapsto> mk k v) else contents t)"
  using ins_full [OF assms, of k v] ins_fresh [OF assms, of k v] ins_dup [OF assms, of k v] assms by auto

text \<open>An entry survives every insertion.\<close>

lemma ins_keeps: "inv t \<Longrightarrow> contents t k = Some x \<Longrightarrow> contents (snd (ins k' v t)) k = Some x"
  using ins_cases [of t k' v] by auto

end

definition session_contents :: "koe_session_table \<Rightarrow> bytes \<Rightarrow> koe_session option" where
  "session_contents t pk = map_option (\<lambda>i. se_sess (tb_entries t ! i)) (find_idx (is_peer pk) (tb_entries t))"

definition unique_peers :: "koe_session_table \<Rightarrow> bool" where
  "unique_peers t \<longleftrightarrow> (\<forall>pk i j. i < length (tb_entries t) \<longrightarrow> j < length (tb_entries t) \<longrightarrow>
     is_peer pk (tb_entries t ! i) \<longrightarrow> is_peer pk (tb_entries t ! j) \<longrightarrow> i = j)"

text \<open>With unique peers, a peer is found at any slot that holds it.\<close>

lemma session_contents_at:
  assumes "unique_peers t" and "i < length (tb_entries t)" and "is_peer pk (tb_entries t ! i)"
  shows "find_idx (is_peer pk) (tb_entries t) = Some i"
proof (rule find_idx_unique [of i "tb_entries t" "is_peer pk", OF assms(2,3)])
  show "j = i" if "j < length (tb_entries t)" "is_peer pk (tb_entries t ! j)" for j
    using assms that unfolding unique_peers_def by blast
qed

lemma session_contents_iff:
  assumes "unique_peers t"
  shows "session_contents t pk = Some s \<longleftrightarrow>
    (\<exists>i<length (tb_entries t). is_peer pk (tb_entries t ! i) \<and> se_sess (tb_entries t ! i) = s)"
proof
  assume "session_contents t pk = Some s"
  then show "\<exists>i<length (tb_entries t). is_peer pk (tb_entries t ! i) \<and> se_sess (tb_entries t ! i) = s"
    using find_idx_SomeD [of "is_peer pk" "tb_entries t"] by (auto simp: session_contents_def)
next
  assume "\<exists>i<length (tb_entries t). is_peer pk (tb_entries t ! i) \<and> se_sess (tb_entries t ! i) = s"
  then show "session_contents t pk = Some s"
    using session_contents_at [OF assms] by (auto simp: session_contents_def)
qed

lemma session_contents_None:
  "session_contents t pk = None \<longleftrightarrow> (\<forall>i<length (tb_entries t). \<not> is_peer pk (tb_entries t ! i))"
  by (auto simp: session_contents_def all_set_conv_all_nth)

text \<open>Overwriting one slot changes the map at the old and the new occupant only.\<close>

lemma unique_peers_update:
  assumes "unique_peers t" and "tb_entries t' = (tb_entries t)[i := e]" and "i < length (tb_entries t)"
    and "\<forall>pk j. is_peer pk e \<longrightarrow> j < length (tb_entries t) \<longrightarrow> j \<noteq> i \<longrightarrow> \<not> is_peer pk (tb_entries t ! j)"
  shows "unique_peers t'"
  unfolding unique_peers_def
proof (intro allI impI)
  fix pk a b
  assume "a < length (tb_entries t')" "b < length (tb_entries t')"
    "is_peer pk (tb_entries t' ! a)" "is_peer pk (tb_entries t' ! b)"
  then have ab: "a < length (tb_entries t)" "b < length (tb_entries t)"
    "is_peer pk (if a = i then e else tb_entries t ! a)" "is_peer pk (if b = i then e else tb_entries t ! b)"
    using assms(3) by (simp_all add: assms(2) nth_list_update eq_commute [of i])
  show "a = b"
  proof (cases "a = i \<or> b = i")
    case True
    with ab assms(4) show ?thesis by metis
  next
    case False
    with ab assms(1) show ?thesis unfolding unique_peers_def by metis
  qed
qed

lemma session_contents_update:
  assumes uniq: "unique_peers t" and t': "tb_entries t' = (tb_entries t)[i := e]"
    and i: "i < length (tb_entries t)"
    and new: "\<forall>pk j. is_peer pk e \<longrightarrow> j < length (tb_entries t) \<longrightarrow> j \<noteq> i \<longrightarrow> \<not> is_peer pk (tb_entries t ! j)"
  shows "session_contents t' pk =
    (if is_peer pk e then Some (se_sess e)
     else if is_peer pk (tb_entries t ! i) then None else session_contents t pk)"
proof -
  note uniq' = unique_peers_update [OF uniq t' i new]
  show ?thesis
  proof (cases "is_peer pk e \<or> is_peer pk (tb_entries t ! i)")
    case True
    have "\<not> is_peer pk (tb_entries t' ! j)"
      if "\<not> is_peer pk e" "is_peer pk (tb_entries t ! i)" "j < length (tb_entries t)" for j
      using that uniq i unfolding t' unique_peers_def by (cases "j = i") auto
    with True session_contents_at [OF uniq', of i pk] i show ?thesis
      by (auto simp: t' session_contents_None) (auto simp: t' session_contents_def)
  next
    case False
    then have "is_peer pk (tb_entries t' ! j) \<and> se_sess (tb_entries t' ! j) = s \<longleftrightarrow>
        is_peer pk (tb_entries t ! j) \<and> se_sess (tb_entries t ! j) = s"
      if "j < length (tb_entries t)" for j s
      using that i by (cases "j = i") (simp_all add: t')
    moreover have "length (tb_entries t') = length (tb_entries t)" by (simp add: t')
    ultimately have "session_contents t' pk = Some s \<longleftrightarrow> session_contents t pk = Some s" for s
      unfolding session_contents_iff [OF uniq'] session_contents_iff [OF uniq] by metis
    with False show ?thesis by (metis not_Some_eq)
  qed
qed

definition session_used :: "koe_session_table \<Rightarrow> nat" where
  "session_used t = active_count (tb_entries t)"

definition session_inv :: "koe_session_table \<Rightarrow> bool" where
  "session_inv t \<longleftrightarrow> table_ok t \<and> unique_peers t"

lemma session_find_spec:
  assumes "session_inv t"
  shows "fst (koe_session_table_find now k t) = session_contents t k \<and>
    session_inv (snd (koe_session_table_find now k t)) \<and>
    session_contents (snd (koe_session_table_find now k t)) = session_contents t \<and>
    session_used (snd (koe_session_table_find now k t)) = session_used t"
proof (cases "find_idx (is_peer k) (tb_entries t)")
  case None
  with assms show ?thesis
    by (simp add: koe_session_table_find_def session_contents_def del: find_idx_None)
next
  case (Some i)
  let ?e = "(tb_entries t ! i)\<lparr>se_last_used := now\<rparr>"
  let ?t = "t\<lparr>tb_entries := (tb_entries t)[i := ?e]\<rparr>"
  have ok: "table_ok t" "unique_peers t" using assms by (simp_all add: session_inv_def)
  note slot = find_slot [OF ok(1) Some]
  have i: "i < length (tb_entries t)" using slot(1) ok(1) by (simp add: table_ok_def)
  have eq: "is_peer pk ?e \<longleftrightarrow> is_peer pk (tb_entries t ! i)" for pk by (simp add: is_peer_def)
  have new: "\<forall>pk j. is_peer pk ?e \<longrightarrow> j < length (tb_entries t) \<longrightarrow> j \<noteq> i \<longrightarrow> \<not> is_peer pk (tb_entries t ! j)"
    using ok(2) i unfolding eq unique_peers_def by blast
  have t: "koe_session_table_find now k t = (Some (se_sess (tb_entries t ! i)), ?t)"
    by (simp add: koe_session_table_find_def Some Let_def)
  have "session_contents ?t pk = session_contents t pk" for pk
    using session_contents_update [OF ok(2) _ i new, of ?t pk] session_contents_at [OF ok(2) i, of pk]
    by (auto simp: eq session_contents_def)
  moreover have "unique_peers ?t" by (rule unique_peers_update [OF ok(2) _ i new]) simp_all
  moreover have "active_count (tb_entries ?t) = active_count (tb_entries t)"
    using active_count_update [OF i, of ?e] by (simp split: if_splits)
  ultimately show ?thesis
    using table_ok_find [OF ok(1), of now k] Some
    by (auto simp: t session_inv_def session_used_def session_contents_def)
qed

lemma session_add_spec:
  assumes "session_inv t" and "session_used t < KOE_MAX_SESSIONS" and "session_contents t k = None"
  shows "fst (koe_session_table_add t1 t2 k v t) = 0 \<and>
    session_inv (snd (koe_session_table_add t1 t2 k v t)) \<and>
    session_contents (snd (koe_session_table_add t1 t2 k v t)) = (session_contents t)(k \<mapsto> v) \<and>
    session_used (snd (koe_session_table_add t1 t2 k v t)) = Suc (session_used t)"
proof -
  have ok: "table_ok t" "unique_peers t" using assms(1) by (simp_all add: session_inv_def)
  have "\<exists>e\<in>set (tb_entries t). \<not> se_active e"
    using assms(2) ok(1) by (simp add: session_used_def table_ok_def flip: active_count_lt)
  then obtain i where Some: "find_idx (\<lambda>e. \<not> se_active e) (tb_entries t) = Some i"
    by (metis find_idx_None not_Some_eq)
  note slot = find_slot [OF ok(1) Some]
  have i: "i < length (tb_entries t)" using slot(1) ok(1) by (simp add: table_ok_def)
  let ?e = "\<lparr>se_peer_pk = k, se_sess = v, se_created_at = t1, se_last_used = t2, se_active = True\<rparr>"
  let ?t = "t\<lparr>tb_entries := (tb_entries t)[i := ?e], tb_count := tb_count t + 1\<rparr>"
  have t: "koe_session_table_add t1 t2 k v t = (0, ?t)"
    using assms(2) ok(1) by (simp add: koe_session_table_add_def Some table_ok_def session_used_def)
  have new: "\<forall>pk j. is_peer pk ?e \<longrightarrow> j < length (tb_entries t) \<longrightarrow> j \<noteq> i \<longrightarrow> \<not> is_peer pk (tb_entries t ! j)"
    using assms(3) by (auto simp: session_contents_None is_peer_def)
  have "session_contents ?t pk = ((session_contents t)(k \<mapsto> v)) pk" for pk
    using session_contents_update [OF ok(2) _ i new, of ?t pk] slot(2) by (simp add: is_peer_def)
  moreover have "unique_peers ?t" by (rule unique_peers_update [OF ok(2) _ i new]) simp_all
  moreover have "active_count (tb_entries ?t) = Suc (active_count (tb_entries t))"
    using active_count_update [OF i, of ?e] slot(2) by simp
  ultimately show ?thesis
    using table_ok_add [OF ok(1), of t1 t2 k v] by (auto simp: t session_inv_def session_used_def)
qed

lemma session_remove_spec:
  assumes "session_inv t" and "session_contents t k \<noteq> None"
  shows "fst (koe_session_table_remove k t) = 0 \<and>
    session_inv (snd (koe_session_table_remove k t)) \<and>
    session_contents (snd (koe_session_table_remove k t)) = (session_contents t)(k := None) \<and>
    Suc (session_used (snd (koe_session_table_remove k t))) = session_used t"
proof -
  have ok: "table_ok t" "unique_peers t" using assms(1) by (simp_all add: session_inv_def)
  from assms(2) obtain i where Some: "find_idx (is_peer k) (tb_entries t) = Some i"
    by (auto simp: session_contents_def simp del: find_idx_None)
  note slot = find_slot [OF ok(1) Some]
  have i: "i < length (tb_entries t)" using slot(1) ok(1) by (simp add: table_ok_def)
  let ?t = "t\<lparr>tb_entries := (tb_entries t)[i := zero_entry], tb_count := tb_count t - 1\<rparr>"
  have t: "koe_session_table_remove k t = (0, ?t)" by (simp add: koe_session_table_remove_def Some)
  have new: "\<forall>pk j. is_peer pk zero_entry \<longrightarrow> j < length (tb_entries t) \<longrightarrow> j \<noteq> i \<longrightarrow>
      \<not> is_peer pk (tb_entries t ! j)"
    by (simp add: is_peer_def)
  have "session_contents ?t pk = ((session_contents t)(k := None)) pk" for pk
    using session_contents_update [OF ok(2) _ i new, of ?t pk] slot(2) by (auto simp: is_peer_def)
  moreover have "unique_peers ?t" by (rule unique_peers_update [OF ok(2) _ i new]) simp_all
  moreover have "Suc (active_count (tb_entries ?t)) = active_count (tb_entries t)"
    using active_count_update [OF i, of zero_entry] slot(2) by (simp add: is_peer_def)
  ultimately show ?thesis
    using table_ok_remove [OF ok(1), of k] by (auto simp: t session_inv_def session_used_def)
qed

lemma session_add_full:
  assumes "table_ok t"
  shows "fst (koe_session_table_add t1 t2 k v t) = (if session_used t < KOE_MAX_SESSIONS then 0 else -1)"
proof -
  have count: "tb_count t = int (session_used t)" "length (tb_entries t) = 256"
    using assms by (simp_all add: table_ok_def session_used_def)
  have "find_idx (\<lambda>e. \<not> se_active e) (tb_entries t) = None \<longleftrightarrow> \<not> session_used t < 256"
    using active_count_lt [of "tb_entries t"] count(2) unfolding find_idx_None session_used_def by metis
  then show ?thesis
    by (cases "find_idx (\<lambda>e. \<not> se_active e) (tb_entries t)")
      (simp_all add: koe_session_table_add_def count del: find_idx_None)
qed

interpretation st: peer_table session_inv session_contents session_used
  "\<lambda>t. session_used t < KOE_MAX_SESSIONS" "\<lambda>k s. s"
  "koe_session_table_add ta tb" "koe_session_table_find now" koe_session_table_remove
  for ta tb now :: unix_time
proof
  fix t :: koe_session_table and k v
  assume inv: "session_inv t"
  show "koe_session_table_add ta tb k v t = (-1, t)" if "\<not> session_used t < KOE_MAX_SESSIONS"
    using inv that by (simp add: koe_session_table_add_def session_inv_def table_ok_def session_used_def)
  show "koe_session_table_remove k t = (-1, t)" if "session_contents t k = None"
    using that by (simp add: koe_session_table_remove_def session_contents_def del: find_idx_None)
qed (rule session_find_spec session_add_spec session_remove_spec; assumption)+

lemma unique_peers_init: "unique_peers koe_session_table_init"
  by (simp add: unique_peers_def koe_session_table_init_def is_peer_def)

lemma replicate_slots: "replicate 256 z = z # replicate 255 z" "replicate 255 z = z # replicate 254 z"
  using replicate_Suc [of 255 z] replicate_Suc [of 254 z] by simp_all

lemma session_inv_init: "session_inv koe_session_table_init"
  by (simp add: session_inv_def table_ok_init unique_peers_init)

lemma session_init_empty: "session_contents koe_session_table_init k = None" "session_used koe_session_table_init = 0"
  by (simp_all add: session_contents_None koe_session_table_init_def is_peer_def session_used_def active_count_def)

section \<open>Properties\<close>

text \<open>C6. In every table reachable through the interface, the count is the number of occupied
  slots and lies between 0 and 256, every free slot is all zeros (no session key survives
  removal or expiry), and adding succeeds exactly while a slot is free.\<close>

theorem session_table_invariant:
  assumes "session_reachable t"
  shows "length (tb_entries t) = 256 \<and> tb_count t = int (length (filter se_active (tb_entries t))) \<and>
    0 \<le> tb_count t \<and> tb_count t \<le> 256 \<and>
    (\<forall>e\<in>set (tb_entries t). se_active e \<or> e = zero_entry) \<and>
    fst (koe_session_table_add t1 t2 pk s t) = (if tb_count t < 256 then 0 else -1)"
proof -
  have ok: "table_ok t" using assms by (rule table_ok_reachable)
  then show ?thesis
    using active_count_le [of "tb_entries t"] session_add_full [OF ok, of t1 t2 pk s]
    by (auto simp: table_ok_def session_used_def active_count_def)
qed

theorem session_table_invariant_witness:
  "tb_count (snd (koe_session_table_add 5 5 (replicate 32 1) zero_session koe_session_table_init)) = 1 \<and>
   session_reachable (snd (koe_session_table_add 5 5 (replicate 32 1) zero_session koe_session_table_init)) \<and>
   fst (koe_session_table_add 6 6 (replicate 32 2) zero_session
     (snd (koe_session_table_add 5 5 (replicate 32 1) zero_session koe_session_table_init))) = 0"
proof -
  let ?t = "snd (koe_session_table_add 5 5 (replicate 32 1) zero_session koe_session_table_init)"
  have reach: "session_reachable ?t"
    by (rule reach_step [OF reach_init step_add [OF prod.collapse [symmetric]]])
  have "table_ok ?t" "session_used ?t = 1"
    using session_add_spec [OF session_inv_init, of "replicate 32 1" 5 5 zero_session]
    by (simp_all add: session_init_empty session_inv_def)
  then have "tb_count ?t = 1" by (simp add: table_ok_def session_used_def)
  with reach session_table_invariant [OF reach, of 6 6 "replicate 32 2" zero_session]
  show ?thesis by simp
qed



text \<open>Expiry removes exactly the sessions unused for longer than the limit: afterwards a
  peer is found if and only if it was found before and its slot was used recently enough,
  every other occupied slot is wiped, untouched sessions keep their keys and time stamps,
  and the count is again exact.\<close>

theorem session_cleanup_exact:
  assumes "table_ok t" and "0 < age"
  shows "table_ok (koe_session_table_cleanup now age t) \<and>
    tb_entries (koe_session_table_cleanup now age t) =
      map (\<lambda>e. if se_active e \<and> now - se_last_used e > age then zero_entry else e) (tb_entries t) \<and>
    (\<forall>e\<in>set (tb_entries (koe_session_table_cleanup now age t)).
       se_active e \<longrightarrow> e \<in> set (tb_entries t) \<and> now - se_last_used e \<le> age)"
  using assms table_ok_cleanup [OF assms(1), of now age]
  by (auto simp: koe_session_table_cleanup_def cleanup_loop_eq split: if_splits)

theorem session_cleanup_exact_witness:
  defines "t \<equiv> snd (koe_session_table_add 1 1 (replicate 32 1) zero_session koe_session_table_init)"
  shows "tb_entries (koe_session_table_cleanup 100 50 t) = replicate 256 zero_entry \<and>
    koe_session_table_cleanup 40 50 t = t"
proof -
  have ok: "table_ok t" unfolding t_def by (rule table_ok_add [OF table_ok_init])
  have es: "tb_entries t = \<lparr>se_peer_pk = replicate 32 1, se_sess = zero_session, se_created_at = 1,
      se_last_used = 1, se_active = True\<rparr> # replicate 255 zero_entry"
    by (simp add: t_def koe_session_table_add_def koe_session_table_init_def replicate_slots)
  have "koe_session_table_cleanup 40 50 t = t"
    by (simp add: koe_session_table_cleanup_def cleanup_loop_eq es)
  moreover have "tb_entries (koe_session_table_cleanup 100 50 t) = replicate 256 zero_entry"
    using session_cleanup_exact [OF ok, of 50 100] es by (simp add: replicate_slots)
  ultimately show ?thesis by simp
qed

text \<open>A new session for a peer that already has one does not replace it: both adds succeed
  and take a slot each, lookups keep returning the old session, and removing the peer makes
  the newer one visible instead of ending the peer's access.\<close>

theorem session_rekey_is_shadowed:
  assumes "t1 = snd (koe_session_table_add n1 n1 k old koe_session_table_init)"
    and "t2 = snd (koe_session_table_add n2 n2 k new t1)"
  shows "fst (koe_session_table_add n2 n2 k new t1) = 0 \<and> tb_count t2 = 2 \<and>
    fst (koe_session_table_find now k t2) = Some old \<and>
    fst (koe_session_table_remove k t2) = 0 \<and>
    fst (koe_session_table_find now k (snd (koe_session_table_remove k t2))) = Some new"
proof -
  let ?e = "\<lambda>s n. \<lparr>se_peer_pk = k, se_sess = s, se_created_at = n, se_last_used = n, se_active = True\<rparr>"
  have rep: "replicate 256 zero_entry = zero_entry # zero_entry # replicate 254 zero_entry"
    by (simp add: replicate_slots)
  have t1: "t1 = \<lparr>tb_entries = ?e old n1 # zero_entry # replicate 254 zero_entry, tb_count = 1\<rparr>"
    unfolding assms(1) koe_session_table_add_def koe_session_table_init_def rep by simp
  have t2: "koe_session_table_add n2 n2 k new t1 =
      (0, \<lparr>tb_entries = ?e old n1 # ?e new n2 # replicate 254 zero_entry, tb_count = 2\<rparr>)"
    by (simp add: t1 koe_session_table_add_def)
  then have t2_eq: "t2 = \<lparr>tb_entries = ?e old n1 # ?e new n2 # replicate 254 zero_entry, tb_count = 2\<rparr>"
    using assms(2) by simp
  have t3: "koe_session_table_remove k t2 =
      (0, \<lparr>tb_entries = zero_entry # ?e new n2 # replicate 254 zero_entry, tb_count = 1\<rparr>)"
    by (simp add: t2_eq koe_session_table_remove_def is_peer_def)
  have "fst (koe_session_table_find now k (snd (koe_session_table_remove k t2))) = Some new"
    unfolding t3 by (simp add: koe_session_table_find_def is_peer_def Let_def)
  moreover have "fst (koe_session_table_find now k t2) = Some old" "tb_count t2 = 2"
    by (simp_all add: t2_eq koe_session_table_find_def is_peer_def Let_def)
  ultimately show ?thesis using t2 t3 by simp
qed

theorem session_rekey_is_shadowed_witness:
  defines "t \<equiv> snd (koe_session_table_add 2 2 (replicate 32 1) \<lparr>tx_key = [1], rx_key = [2]\<rparr>
    (snd (koe_session_table_add 1 1 (replicate 32 1) zero_session koe_session_table_init)))"
  shows "fst (koe_session_table_find 3 (replicate 32 1) t) = Some zero_session"
  using session_rekey_is_shadowed [OF refl refl, of 2 "replicate 32 1" "\<lparr>tx_key = [1], rx_key = [2]\<rparr>"
      1 zero_session 3]
  by (simp add: t_def)

end
