(* ===== verification/Koe_Channel.thy ===== *)
theory Koe_Channel
  imports Koe_Sealed Koe_Message Koe_Session
begin

text \<open>
  Broadcast channels (\<^verbatim>\<open>src/koe_channel.c\<close>): the subscriber list, a post to all subscribers, and
  the subscription request. The list is the linked list from its head; what \<open>send_fn\<close> is called
  with is the list of (recipient, packet) pairs that a post returns. The lemmas show that the
  list is a table without duplicates, that a post reaches every subscriber once with the body
  encrypted under that subscriber's key, and who can read it.
\<close>

record koe_channel =
  ch_id :: bytes
  ch_name :: string
  ch_description :: string
  ch_created_at :: unix_time
  ch_post_count :: u64
  ch_owner :: int

record koe_subscriber_node =
  sn_pk :: bytes
  sn_subscribed_at :: unix_time

record koe_subscriber_list =
  sl_nodes :: "koe_subscriber_node list"
  sl_count :: nat

section \<open>Operations\<close>

definition koe_channel_create :: "unix_time \<Rightarrow> koe_identity \<Rightarrow> string \<Rightarrow> string \<Rightarrow> int \<times> koe_channel" where
  "koe_channel_create now local_id name description =
     (0, \<lparr>ch_id = id_pk local_id, ch_name = strncpy_str 127 name, ch_description = strncpy_str 511 description,
          ch_created_at = now, ch_post_count = 0, ch_owner = 1\<rparr>)"

text \<open>The scan for a key.\<close>

definition find_subscriber :: "koe_subscriber_list \<Rightarrow> bytes \<Rightarrow> koe_subscriber_node option" where
  "find_subscriber subs pk = find (\<lambda>n. sn_pk n = pk) (sl_nodes subs)"

definition koe_channel_add_subscriber :: "alloc \<Rightarrow> unix_time \<Rightarrow> bytes \<Rightarrow> koe_subscriber_list \<Rightarrow> int \<times> koe_subscriber_list" where
  "koe_channel_add_subscriber mal now pk subs =
     (if find_subscriber subs pk \<noteq> None then (-1, subs)
      else if \<not> mal 0 then (-1, subs)
      else (0, subs\<lparr>sl_nodes := \<lparr>sn_pk = pk, sn_subscribed_at = now\<rparr> # sl_nodes subs, sl_count := size_t (sl_count subs + 1)\<rparr>))"

definition koe_channel_remove_subscriber :: "bytes \<Rightarrow> koe_subscriber_list \<Rightarrow> int \<times> koe_subscriber_list" where
  "koe_channel_remove_subscriber pk subs =
     (case find_idx (\<lambda>n. sn_pk n = pk) (sl_nodes subs) of
        None \<Rightarrow> (-1, subs)
      | Some i \<Rightarrow> (0, subs\<lparr>sl_nodes := take i (sl_nodes subs) @ drop (Suc i) (sl_nodes subs),
                          sl_count := size_t (sl_count subs + (2 ^ 64 - 1))\<rparr>))"

definition koe_subscriber_list_free :: "koe_subscriber_list \<Rightarrow> koe_subscriber_list" where
  "koe_subscriber_list_free subs = \<lparr>sl_nodes = [], sl_count = 0\<rparr>"

text \<open>The key for one subscriber.\<close>

definition sub_key :: "sodium \<Rightarrow> koe_identity \<Rightarrow> bytes \<Rightarrow> bytes" where
  "sub_key sd owner_id pk = so_generichash sd 32 32 (id_sk owner_id @ pk)"

text \<open>The loop body: the packet for one subscriber, or none when memory or encryption fails. The
  signature that is computed goes nowhere.\<close>

definition post_packet :: "sodium \<Rightarrow> bool \<Rightarrow> bytes \<Rightarrow> koe_identity \<Rightarrow> bytes \<Rightarrow> koe_subscriber_node \<Rightarrow> koe_packet option" where
  "post_packet sd ok nonce owner_id body sub =
     (if \<not> ok then None
      else case koe_encrypt sd body nonce (sub_key sd owner_id (sn_pk sub)) of
        None \<Rightarrow> None
      | Some ct \<Rightarrow> Some (sealed_packet (type_code KOE_TYPE_CHANNEL) (flag_bit KOE_FLAG_ENCRYPTED OR flag_bit KOE_FLAG_SIGNED)
                          (of_nat (length body + 16)) (id_pk owner_id) (sn_pk sub) nonce ct))"

text \<open>\<open>mal i\<close> and \<open>nonces i\<close> are the allocation and the nonce of the \<open>i\<close>-th subscriber.\<close>

fun post_loop ::
  "sodium \<Rightarrow> alloc \<Rightarrow> (nat \<Rightarrow> bytes) \<Rightarrow> koe_identity \<Rightarrow> bytes \<Rightarrow> nat \<Rightarrow> koe_subscriber_node list \<Rightarrow> (bytes \<times> koe_packet) list" where
  "post_loop sd mal nonces owner_id body i [] = []"
| "post_loop sd mal nonces owner_id body i (sub # subs) =
     (case post_packet sd (mal i) (nonces i) owner_id body sub of
        None \<Rightarrow> post_loop sd mal nonces owner_id body (Suc i) subs
      | Some pkt \<Rightarrow> (sn_pk sub, pkt) # post_loop sd mal nonces owner_id body (Suc i) subs)"

definition koe_channel_post ::
  "sodium \<Rightarrow> alloc \<Rightarrow> (nat \<Rightarrow> bytes) \<Rightarrow> koe_channel \<Rightarrow> koe_identity \<Rightarrow> koe_subscriber_list \<Rightarrow> bytes \<Rightarrow>
   int \<times> koe_channel \<times> (bytes \<times> koe_packet) list" where
  "koe_channel_post sd mal nonces ch owner_id subs body =
     (if ch_owner ch = 0 then (-1, ch, [])
      else (0, ch\<lparr>ch_post_count := ch_post_count ch + 1\<rparr>, post_loop sd mal nonces owner_id body 0 (sl_nodes subs)))"

definition koe_channel_subscribe ::
  "sodium \<Rightarrow> alloc \<Rightarrow> bytes \<Rightarrow> koe_packet \<Rightarrow> koe_identity \<Rightarrow> bytes \<Rightarrow> koe_session \<Rightarrow> int \<times> koe_packet" where
  "koe_channel_subscribe sd mal nonce pkt local_id owner_pk sess =
     (if \<not> mal 0 then (-1, pkt)
      else case koe_encrypt sd (id_pk local_id) nonce (tx_key sess) of
        None \<Rightarrow> (-1, pkt)
      | Some ct \<Rightarrow> (0, sealed_packet (type_code KOE_TYPE_MSG) (flag_bit KOE_FLAG_ENCRYPTED) (of_nat (32 + 16))
                       (id_pk local_id) owner_pk nonce ct))"

definition koe_channel_receive_post ::
  "sodium \<Rightarrow> alloc \<Rightarrow> unix_time \<Rightarrow> koe_message \<Rightarrow> koe_packet \<Rightarrow> bytes \<Rightarrow> koe_session \<Rightarrow> (int \<times> koe_message) option" where
  "koe_channel_receive_post sd mal now msg pkt owner_pk sess = koe_message_decrypt sd mal now msg pkt sess"

section \<open>The subscriber list\<close>

definition subs_ok :: "koe_subscriber_list \<Rightarrow> bool" where
  "subs_ok subs \<longleftrightarrow> distinct (map sn_pk (sl_nodes subs)) \<and> sl_count subs = size_t (length (sl_nodes subs))"

lemma subs_ok_free: "subs_ok (koe_subscriber_list_free subs)"
  by (simp add: subs_ok_def koe_subscriber_list_free_def)

lemma size_t_Suc: "size_t (size_t n + 1) = size_t (Suc n)" and size_t_pred: "0 < n \<Longrightarrow> size_t (size_t n + (2 ^ 64 - 1)) = size_t (n - 1)"
proof -
  show "size_t (size_t n + 1) = size_t (Suc n)" by (simp add: size_t_def mod_Suc_eq)
  show "size_t (size_t n + (2 ^ 64 - 1)) = size_t (n - 1)" if "0 < n"
  proof -
    have "(n mod 2 ^ 64 + (2 ^ 64 - 1)) mod 2 ^ 64 = (n + (2 ^ 64 - 1)) mod (2 ^ 64 :: nat)" by (rule mod_add_left_eq)
    also have "n + (2 ^ 64 - 1) = n - 1 + (2 ^ 64 :: nat)" using that by simp
    finally show ?thesis by (simp add: size_t_def)
  qed
qed

lemma koe_channel_remove_subscriber_ok:
  assumes "subs_ok subs"
  shows "subs_ok (snd (koe_channel_remove_subscriber pk subs))
    \<and> find_subscriber (snd (koe_channel_remove_subscriber pk subs)) = (find_subscriber subs)(pk := None)
    \<and> (if find_subscriber subs pk = None then koe_channel_remove_subscriber pk subs = (-1, subs)
       else fst (koe_channel_remove_subscriber pk subs) = 0
         \<and> Suc (length (sl_nodes (snd (koe_channel_remove_subscriber pk subs)))) = length (sl_nodes subs))"
proof (cases "find_idx (\<lambda>n. sn_pk n = pk) (sl_nodes subs)")
  case None
  then have "koe_channel_remove_subscriber pk subs = (-1, subs)" by (simp add: koe_channel_remove_subscriber_def del: find_idx_None)
  moreover have "find_subscriber subs pk = None" using None unfolding find_idx_find by (simp add: find_subscriber_def)
  ultimately show ?thesis using assms by (simp add: fun_upd_idem)
next
  case (Some i)
  have i: "i < length (sl_nodes subs)" using find_idx_SomeD [OF Some] by simp
  then have "size_t (size_t (length (sl_nodes subs)) + (2 ^ 64 - 1)) = size_t (length (sl_nodes subs) - 1)"
    by (intro size_t_pred) (use i in linarith)
  moreover have "find_subscriber subs pk \<noteq> None"
    using Some find_idx_find [of "\<lambda>n. sn_pk n = pk" "sl_nodes subs"] by (auto simp: find_subscriber_def simp del: find_idx_None)
  ultimately show ?thesis
    using assms i Some find_remove_idx [OF _ Some]
    by (auto simp: koe_channel_remove_subscriber_def find_subscriber_def subs_ok_def fun_eq_iff)
qed

lemma koe_channel_add_subscriber_ok:
  assumes "subs_ok subs" "mal 0" "find_subscriber subs pk = None"
  shows "fst (koe_channel_add_subscriber mal now pk subs) = 0 \<and> subs_ok (snd (koe_channel_add_subscriber mal now pk subs))
    \<and> find_subscriber (snd (koe_channel_add_subscriber mal now pk subs))
      = (find_subscriber subs)(pk \<mapsto> \<lparr>sn_pk = pk, sn_subscribed_at = now\<rparr>)
    \<and> length (sl_nodes (snd (koe_channel_add_subscriber mal now pk subs))) = Suc (length (sl_nodes subs))"
  using assms size_t_Suc [of "length (sl_nodes subs)"]
  by (auto simp: koe_channel_add_subscriber_def subs_ok_def find_subscriber_def find_None_iff fun_eq_iff)

interpretation sl: unique_table subs_ok find_subscriber "\<lambda>s. length (sl_nodes s)" "\<lambda>s. mal 0"
  "\<lambda>pk now. \<lparr>sn_pk = pk, sn_subscribed_at = now\<rparr>" "\<lambda>pk now. koe_channel_add_subscriber mal now pk"
  "\<lambda>pk s. (find_subscriber s pk, s)" koe_channel_remove_subscriber
  for mal :: alloc
  by unfold_locales
    (use koe_channel_add_subscriber_ok koe_channel_remove_subscriber_ok in \<open>auto simp: koe_channel_add_subscriber_def\<close>)

section \<open>Posts\<close>

lemma receive_sealed:
  assumes "koe_decrypt sd ct nonce (rx_key sess) = Some body" "unat len = length ct" "length ct = length body + 16"
    and "fl AND flag_bit KOE_FLAG_ENCRYPTED \<noteq> 0" "mal 0"
  shows "\<exists>msg'. koe_message_decrypt sd mal now msg (sealed_packet ty fl len from_pk to_pk nonce ct) sess = Some (0, msg')
    \<and> m_body msg' = Some body \<and> m_body_len msg' = length body \<and> m_from msg' = from_pk"
proof -
  have "\<not> len < 16" using assms(2,3) by (simp add: word_less_nat_alt)
  then show ?thesis using assms by (simp add: koe_message_decrypt_def Let_def)
qed

definition readable_post :: "sodium \<Rightarrow> koe_identity \<Rightarrow> bytes \<Rightarrow> bytes \<times> koe_packet \<Rightarrow> bool" where
  "readable_post sd owner_id body = (\<lambda>(pk, pkt). wire_packet pkt \<and> koe_packet_validate pkt = 0 \<and> h_to (header pkt) = pk \<and>
     (\<forall>mal now msg sess. mal 0 \<longrightarrow> rx_key sess = sub_key sd owner_id pk \<longrightarrow>
       (\<exists>msg'. koe_channel_receive_post sd mal now msg pkt (id_pk owner_id) sess = Some (0, msg')
          \<and> m_body msg' = Some body \<and> m_body_len msg' = length body \<and> m_from msg' = id_pk owner_id)))"

lemma post_packet_readable:
  assumes "aead_ok sd" "length nonce = 24" "length (id_pk owner_id) = 32" "length (sn_pk sub) = 32" "length body + 16 \<le> KOE_MAX_PAYLOAD"
    and "post_packet sd ok nonce owner_id body sub = Some pkt"
  shows "readable_post sd owner_id body (sn_pk sub, pkt)"
proof -
  obtain ct where ct: "koe_encrypt sd body nonce (sub_key sd owner_id (sn_pk sub)) = Some ct"
    and pkt: "pkt = sealed_packet (type_code KOE_TYPE_CHANNEL) (flag_bit KOE_FLAG_ENCRYPTED OR flag_bit KOE_FLAG_SIGNED)
      (of_nat (length body + 16)) (id_pk owner_id) (sn_pk sub) nonce ct"
    using assms(6) by (auto simp: post_packet_def split: option.splits if_splits)
  have fl: "(flag_bit KOE_FLAG_ENCRYPTED OR flag_bit KOE_FLAG_SIGNED) AND flag_bit KOE_FLAG_ENCRYPTED \<noteq> 0" by simp
  note opens = sealed_packet_opens [OF assms(1) ct assms(3,4,2,5) refl, of "type_code KOE_TYPE_CHANNEL"
      "flag_bit KOE_FLAG_ENCRYPTED OR flag_bit KOE_FLAG_SIGNED"]
  have "\<exists>msg'. koe_message_decrypt sd mal now msg pkt sess = Some (0, msg') \<and> m_body msg' = Some body
      \<and> m_body_len msg' = length body \<and> m_from msg' = id_pk owner_id"
    if "mal 0" "rx_key sess = sub_key sd owner_id (sn_pk sub)" for mal now msg sess
    unfolding pkt by (rule receive_sealed [where mal = mal, OF _ _ _ fl that(1)]) (use opens that(2) in simp_all)
  with opens show ?thesis by (simp add: readable_post_def koe_channel_receive_post_def pkt del: of_nat_add)
qed

lemma post_loop_readable:
  assumes "aead_ok sd" "\<forall>i. mal i" "\<forall>i. length (nonces i) = 24" "length (id_pk owner_id) = 32"
    and "length body + 16 \<le> KOE_MAX_PAYLOAD" "\<forall>nonce key. koe_encrypt sd body nonce key \<noteq> None"
    and "\<forall>n\<in>set subs. length (sn_pk n) = 32"
  shows "map fst (post_loop sd mal nonces owner_id body i subs) = map sn_pk subs
    \<and> list_all (readable_post sd owner_id body) (post_loop sd mal nonces owner_id body i subs)"
  using assms(7)
proof (induction subs arbitrary: i)
  case (Cons sub subs)
  obtain pkt where pkt: "post_packet sd (mal i) (nonces i) owner_id body sub = Some pkt"
    using assms(2,6) by (force simp: post_packet_def split: option.splits)
  have "readable_post sd owner_id body (sn_pk sub, pkt)"
    by (rule post_packet_readable [OF assms(1) _ assms(4) _ assms(5) pkt]) (use assms(3) Cons.prems in simp_all)
  with pkt Cons.IH [of "Suc i"] Cons.prems show ?case by simp
qed simp

section \<open>Properties\<close>

text \<open>C35. A post reaches every subscriber exactly once, in the order of the list: the owner's post
  returns success, increments the post count and sends one valid packet to each subscriber,
  addressed to them, which decrypts to the body under the key hashed from the owner's secret key
  and the subscriber's public key. Other callers than the owner send nothing.\<close>

theorem channel_post_delivers:
  assumes "aead_ok sd" and "subs_ok subs" and "\<forall>i. mal i" and "\<forall>i. length (nonces i) = 24" and "length (id_pk owner_id) = 32"
    and "length body + 16 \<le> KOE_MAX_PAYLOAD" and "\<forall>nonce key. koe_encrypt sd body nonce key \<noteq> None"
    and "\<forall>n\<in>set (sl_nodes subs). length (sn_pk n) = 32"
    and "koe_channel_post sd mal nonces ch owner_id subs body = (rc, ch', sent)"
  shows "if ch_owner ch = 0 then rc = -1 \<and> ch' = ch \<and> sent = []
    else rc = 0 \<and> ch' = ch\<lparr>ch_post_count := ch_post_count ch + 1\<rparr> \<and> map fst sent = map sn_pk (sl_nodes subs)
      \<and> distinct (map fst sent) \<and> list_all (readable_post sd owner_id body) sent"
  using post_loop_readable [OF assms(1,3-8), of 0] assms(2,9)
  by (auto simp: koe_channel_post_def subs_ok_def split: if_splits)

theorem channel_post_delivers_witness:
  "\<exists>ch' sent. koe_channel_post demo_sodium (\<lambda>_. True) (\<lambda>_. replicate 24 0)
      (snd (koe_channel_create 5 \<lparr>id_pk = replicate 32 1, id_sk = replicate 64 1\<rparr> ''news'' ''''))
      \<lparr>id_pk = replicate 32 1, id_sk = replicate 64 1\<rparr>
      \<lparr>sl_nodes = [\<lparr>sn_pk = replicate 32 2, sn_subscribed_at = 6\<rparr>, \<lparr>sn_pk = replicate 32 3, sn_subscribed_at = 7\<rparr>], sl_count = 2\<rparr> [72, 105]
     = (0, ch', sent) \<and> map fst sent = [replicate 32 2, replicate 32 3] \<and> ch_post_count ch' = 1"
proof -
  let ?subs = "\<lparr>sl_nodes = [\<lparr>sn_pk = replicate 32 2, sn_subscribed_at = 6\<rparr>, \<lparr>sn_pk = replicate 32 3, sn_subscribed_at = 7\<rparr>], sl_count = 2\<rparr>"
  let ?id = "\<lparr>id_pk = replicate 32 1, id_sk = replicate 64 1\<rparr>"
  let ?ch = "snd (koe_channel_create 5 ?id ''news'' '''')"
  obtain rc ch' sent where post: "koe_channel_post demo_sodium (\<lambda>_. True) (\<lambda>_. replicate 24 0) ?ch ?id ?subs [72, 105] = (rc, ch', sent)"
    by (metis prod_cases3)
  have ok: "subs_ok ?subs" by (simp add: subs_ok_def replicate_eq_replicate)
  have enc: "\<forall>nonce key. koe_encrypt demo_sodium [72, 105] nonce key \<noteq> None" by (simp add: koe_encrypt_def demo_sodium_def)
  have "ch_owner ?ch = 1" "ch_post_count ?ch = 0" by (simp_all add: koe_channel_create_def)
  then show ?thesis
    using channel_post_delivers [OF demo_aead_ok ok _ _ _ _ enc _ post] post by simp
qed

end
