(* ===== verification/Koe_Revoke.thy ===== *)
theory Koe_Revoke
  imports Koe_Sealed
begin

text \<open>
  Key revocation (\<^verbatim>\<open>src/koe_revoke.c\<close>): a statement that one key replaces another, signed with the
  old key. The packet carries the C struct as it lies in memory; \<open>rev_bytes\<close> spells out that
  layout. The lemmas show that a revocation arrives as built and verifies, and that the signature
  does not cover the reason.
\<close>

record koe_revocation =
  rv_old_pk :: bytes
  rv_new_pk :: bytes
  rv_revoked_at :: unix_time
  rv_reason :: string
  rv_sig :: bytes

definition rev_bytes :: "koe_revocation \<Rightarrow> bytes" where
  "rev_bytes rv = rv_old_pk rv @ rv_new_pk rv @ le64 (word_of_int (rv_revoked_at rv)) @ char_array 128 (rv_reason rv) @ rv_sig rv"

definition rev_of_bytes :: "bytes \<Rightarrow> koe_revocation" where
  "rev_of_bytes bs = \<lparr>rv_old_pk = mem_read 0 32 bs, rv_new_pk = mem_read 32 32 bs, rv_revoked_at = sint (le64_dec (mem_read 64 8 bs)),
     rv_reason = char_array_str (mem_read 72 128 bs), rv_sig = mem_read 200 64 bs\<rparr>"

section \<open>Operations\<close>

text \<open>The bytes that are signed.\<close>

definition revoke_msg :: "koe_revocation \<Rightarrow> bytes" where
  "revoke_msg rv = rv_old_pk rv @ rv_new_pk rv @ le64 (word_of_int (rv_revoked_at rv))"

definition koe_revoke_build :: "sodium \<Rightarrow> unix_time \<Rightarrow> koe_identity \<Rightarrow> koe_identity \<Rightarrow> string \<Rightarrow> int \<times> koe_revocation" where
  "koe_revoke_build sd now old_id new_id reason =
     (let rv = \<lparr>rv_old_pk = id_pk old_id, rv_new_pk = id_pk new_id, rv_revoked_at = now,
                 rv_reason = strncpy_str 127 reason, rv_sig = replicate 64 0\<rparr>
      in case koe_sign sd (revoke_msg rv) old_id of
           None \<Rightarrow> (-1, rv)
         | Some sig \<Rightarrow> (0, rv\<lparr>rv_sig := sig\<rparr>))"

definition koe_revoke_verify :: "sodium \<Rightarrow> koe_revocation \<Rightarrow> int" where
  "koe_revoke_verify sd rv = koe_verify sd (rv_sig rv) (revoke_msg rv) (rv_old_pk rv)"

definition koe_revoke_build_packet :: "alloc \<Rightarrow> koe_packet \<Rightarrow> koe_revocation \<Rightarrow> bytes \<Rightarrow> int \<times> koe_packet" where
  "koe_revoke_build_packet mal pkt rv to_pk =
     (if \<not> mal 0 then (-1, pkt)
      else (0, sealed_packet (type_code KOE_TYPE_REVOKE) (flag_bit KOE_FLAG_SIGNED) 264 (rv_old_pk rv) to_pk (replicate 24 0) (rev_bytes rv)))"

definition koe_revoke_parse_packet :: "sodium \<Rightarrow> koe_revocation \<Rightarrow> koe_packet \<Rightarrow> int \<times> koe_revocation" where
  "koe_revoke_parse_packet sd rv pkt =
     (case payload pkt of
        NULL \<Rightarrow> (-1, rv)
      | Some pay \<Rightarrow>
          if unat (h_length (header pkt)) < 264 then (-1, rv)
          else let rv = rev_of_bytes (take 264 pay) in (koe_revoke_verify sd rv, rv))"

section \<open>Lemmas\<close>

definition rev_ok :: "koe_revocation \<Rightarrow> bool" where
  "rev_ok rv \<longleftrightarrow> length (rv_old_pk rv) = 32 \<and> length (rv_new_pk rv) = 32 \<and> - (2 ^ 63) \<le> rv_revoked_at rv \<and> rv_revoked_at rv < 2 ^ 63
     \<and> cstr_ok 128 (rv_reason rv) \<and> length (rv_sig rv) = 64"

lemma length_rev_bytes: "rev_ok rv \<Longrightarrow> length (rev_bytes rv) = 264"
  by (simp add: rev_bytes_def rev_ok_def length_char_array cstr_ok_def)

lemma rev_bytes_back:
  assumes "rev_ok rv"
  shows "rev_of_bytes (rev_bytes rv) = rv"
proof -
  have l: "length (rv_old_pk rv) = 32" "length (rv_new_pk rv) = 32" "length (rv_sig rv) = 64"
    "length (char_array 128 (rv_reason rv)) = 128"
    using assms by (simp_all add: rev_ok_def length_char_array cstr_ok_def)
  have t: "sint (word_of_int (rv_revoked_at rv) :: u64) = rv_revoked_at rv"
    using assms by (simp add: rev_ok_def signed_of_int signed_take_bit_int_eq_self)
  have s: "char_array_str (char_array 128 (rv_reason rv)) = rv_reason rv"
    using assms by (simp add: rev_ok_def char_array_str_array)
  show ?thesis
    by (cases rv) (use l t s in \<open>simp add: rev_of_bytes_def rev_bytes_def mem_read_def\<close>)
qed

lemma koe_revoke_build_ok:
  assumes "sign_ok sd (id_pk old_id) (id_sk old_id)" "length (id_pk old_id) = 32" "length (id_pk new_id) = 32"
    and "- (2 ^ 63) \<le> now" "now < 2 ^ 63" "CHR 0x00 \<notin> set reason"
    and "koe_revoke_build sd now old_id new_id reason = (0, rv)"
  shows "rev_ok rv \<and> koe_revoke_verify sd rv = 0 \<and> rv_old_pk rv = id_pk old_id \<and> rv_new_pk rv = id_pk new_id
    \<and> rv_revoked_at rv = now \<and> rv_reason rv = take 127 reason"
proof -
  obtain sig where sig: "koe_sign sd (id_pk old_id @ id_pk new_id @ le64 (word_of_int now)) old_id = Some sig"
    and rv: "rv = \<lparr>rv_old_pk = id_pk old_id, rv_new_pk = id_pk new_id, rv_revoked_at = now, rv_reason = strncpy_str 127 reason, rv_sig = sig\<rparr>"
    using assms(7) by (auto simp: koe_revoke_build_def Let_def revoke_msg_def split: option.splits)
  have "CHR 0x00 \<notin> set (take 127 reason)" using assms(6) by (meson in_set_takeD)
  then show ?thesis
    using koe_verify_sign [OF assms(1) sig] assms(2-5) by (simp add: rv rev_ok_def koe_revoke_verify_def revoke_msg_def cstr_ok_def strncpy_str_def)
qed

section \<open>Properties\<close>

text \<open>A revocation arrives as it was built: parsing the packet of a successfully built revocation
  verifies it against the old key and gives back every field, the reason cut to 127 characters,
  and the packet passes validation.\<close>

theorem revocation_roundtrip:
  assumes "sign_ok sd (id_pk old_id) (id_sk old_id)" and "length (id_pk old_id) = 32" and "length (id_pk new_id) = 32" and "length to_pk = 32"
    and "- (2 ^ 63) \<le> now" and "now < 2 ^ 63" and "CHR 0x00 \<notin> set reason"
    and "koe_revoke_build sd now old_id new_id reason = (0, rv)"
    and "koe_revoke_build_packet mal pkt0 rv to_pk = (0, pkt)"
  shows "wire_packet pkt \<and> koe_packet_validate pkt = 0 \<and> koe_revoke_parse_packet sd rev0 pkt = (0, rv)
    \<and> rv_old_pk rv = id_pk old_id \<and> rv_new_pk rv = id_pk new_id \<and> rv_revoked_at rv = now \<and> rv_reason rv = take 127 reason"
proof -
  note ok = koe_revoke_build_ok [OF assms(1-3,5-8)]
  have pkt: "pkt = sealed_packet (type_code KOE_TYPE_REVOKE) (flag_bit KOE_FLAG_SIGNED) 264 (rv_old_pk rv) to_pk (replicate 24 0) (rev_bytes rv)"
    using assms(9) by (auto simp: koe_revoke_build_packet_def split: if_splits)
  have "length (rv_old_pk rv) = 32" using ok assms(2) by simp
  from sealed_packet_wire [OF this assms(4), of "replicate 24 0" 264 "rev_bytes rv"] ok
  show ?thesis by (simp add: pkt length_rev_bytes koe_revoke_parse_packet_def rev_bytes_back)
qed

theorem revocation_roundtrip_witness:
  "\<exists>rv pkt. koe_revoke_build demo_sodium 100 \<lparr>id_pk = replicate 32 1, id_sk = replicate 64 1\<rparr> \<lparr>id_pk = replicate 32 2, id_sk = replicate 64 2\<rparr> ''lost''
      = (0, rv) \<and> koe_revoke_build_packet (\<lambda>_. True) (koe_packet_init 0 0) rv (replicate 32 3) = (0, pkt)
    \<and> koe_revoke_parse_packet demo_sodium rv pkt = (0, rv) \<and> rv_reason rv = ''lost''"
proof -
  let ?old = "\<lparr>id_pk = replicate 32 1, id_sk = replicate 64 1\<rparr>" and ?new = "\<lparr>id_pk = replicate 32 2, id_sk = replicate 64 2\<rparr>"
  obtain rv where rv: "koe_revoke_build demo_sodium 100 ?old ?new ''lost'' = (0, rv)"
    by (simp add: koe_revoke_build_def Let_def koe_sign_def demo_sodium_def)
  obtain pkt where pkt: "koe_revoke_build_packet (\<lambda>_. True) (koe_packet_init 0 0) rv (replicate 32 3) = (0, pkt)"
    by (simp add: koe_revoke_build_packet_def)
  have "sign_ok demo_sodium (id_pk ?old) (id_sk ?old)" by (rule demo_sign_ok) simp
  from revocation_roundtrip [OF this _ _ _ _ _ _ rv pkt] rv pkt show ?thesis by simp
qed

text \<open>The reason of a revocation is not protected: whoever relays a revocation can replace its
  reason by any other text, and it still verifies.\<close>

theorem revocation_reason_forgeable:
  "koe_revoke_verify sd (rv\<lparr>rv_reason := text\<rparr>) = koe_revoke_verify sd rv"
  by (simp add: koe_revoke_verify_def revoke_msg_def)

end
