(* ===== verification/Koe_Handshake.thy ===== *)
theory Koe_Handshake
  imports Koe_Crypto Koe_Packet
begin

text \<open>
  The two-message key exchange (\<^verbatim>\<open>src/koe_handshake.c\<close>): HELLO, HELLO_ACK, and the
  initiator's completion. The lemmas show that a run between two honest peers completes with
  matching keys, the same version and both ephemeral secrets erased; what a responder has
  checked when it accepts a HELLO; and that the initiator does not compare the identity in
  the HELLO_ACK with the one it meant to reach. Random seeds are arguments; \<open>mal 0\<close> is the
  payload allocation.
\<close>

section \<open>Model\<close>

abbreviation (input) HELLO_PAYLOAD :: nat where "HELLO_PAYLOAD \<equiv> 130"

datatype koe_handshake_state = KOE_HS_IDLE | KOE_HS_SENT_HELLO | KOE_HS_COMPLETE | KOE_HS_FAILED

record koe_handshake =
  hs_state :: koe_handshake_state
  hs_local_eph :: koe_ephemeral
  hs_remote_pk :: bytes
  hs_session :: koe_session
  hs_negotiated_version :: koe_version

definition zero_handshake :: koe_handshake where
  "zero_handshake = \<lparr>hs_state = KOE_HS_IDLE,
     hs_local_eph = \<lparr>eph_pk = replicate 32 0, eph_sk = replicate 32 0\<rparr>,
     hs_remote_pk = replicate 32 0, hs_session = zero_session,
     hs_negotiated_version = \<lparr>ver_major = 0, ver_minor = 0\<rparr>\<rparr>"

text \<open>The signed part of a HELLO or HELLO_ACK payload (66 bytes).\<close>

definition hello_body :: "koe_version \<Rightarrow> bytes \<Rightarrow> bytes \<Rightarrow> bytes" where
  "hello_body v eph idpk = [ver_major v, ver_minor v] @ eph @ idpk"

text \<open>The packet around a 130-byte payload.\<close>

definition hello_packet :: "koe_packet_type \<Rightarrow> bytes \<Rightarrow> bytes \<Rightarrow> bytes \<Rightarrow> koe_packet" where
  "hello_packet type from to body =
     (let pkt = koe_packet_init (type_code type) (flag_bit KOE_FLAG_SIGNED);
          hdr = (header pkt)\<lparr>h_length := of_nat HELLO_PAYLOAD, h_from := from, h_to := to\<rparr>
      in \<lparr>header = hdr\<lparr>h_checksum := koe_packet_checksum hdr\<rparr>, payload = Some body\<rparr>)"

text \<open>\<open>hello_out\<close> is the caller's packet, which failures leave alone.\<close>

definition koe_handshake_init ::
  "sodium \<Rightarrow> alloc \<Rightarrow> bytes \<Rightarrow> koe_packet \<Rightarrow> koe_identity \<Rightarrow> bytes \<Rightarrow>
   int \<times> koe_handshake \<times> koe_packet" where
  "koe_handshake_init sd mal seed hello_out local_id remote_pk =
     (let hs = zero_handshake\<lparr>hs_remote_pk := remote_pk\<rparr>;
          (rc, eph) = koe_ephemeral_generate sd seed (hs_local_eph hs);
          hs = hs\<lparr>hs_local_eph := eph\<rparr>
      in if rc \<noteq> 0 then (-1, hs, hello_out)
         else if \<not> mal 0 then (-1, hs, hello_out)
         else
           let body = hello_body koe_version_local (eph_pk eph) (id_pk local_id) in
           case koe_sign sd body local_id of
             None \<Rightarrow> (-1, hs, hello_out)
           | Some sig \<Rightarrow>
               (0, hs\<lparr>hs_state := KOE_HS_SENT_HELLO\<rparr>,
                hello_packet KOE_TYPE_HELLO (id_pk local_id) remote_pk (body @ sig)))"

text \<open>The fields read from a received payload.\<close>

definition hello_version :: "bytes \<Rightarrow> koe_version" where
  "hello_version pay = \<lparr>ver_major = pay ! 0, ver_minor = pay ! 1\<rparr>"

definition hello_eph :: "bytes \<Rightarrow> bytes" where "hello_eph pay = mem_read 2 32 pay"
definition hello_id :: "bytes \<Rightarrow> bytes" where "hello_id pay = mem_read 34 32 pay"
definition hello_sig :: "bytes \<Rightarrow> bytes" where "hello_sig pay = mem_read 66 64 pay"

definition koe_handshake_respond ::
  "sodium \<Rightarrow> alloc \<Rightarrow> bytes \<Rightarrow> koe_packet \<Rightarrow> koe_packet \<Rightarrow> koe_identity \<Rightarrow>
   int \<times> koe_handshake \<times> koe_packet" where
  "koe_handshake_respond sd mal seed ack_out hello local_id =
     (let hs = zero_handshake in
      case payload hello of
        NULL \<Rightarrow> (-1, hs, ack_out)
      | Some pay \<Rightarrow>
        if h_length (header hello) < of_nat HELLO_PAYLOAD then (-1, hs, ack_out)
        else case koe_version_negotiate koe_version_local (hello_version pay) of
          None \<Rightarrow> (-1, hs, ack_out)
        | Some v \<Rightarrow>
          let hs = hs\<lparr>hs_negotiated_version := v\<rparr> in
          if koe_verify sd (hello_sig pay) (take 66 pay) (hello_id pay) \<noteq> 0 then (-1, hs, ack_out)
          else
            let hs = hs\<lparr>hs_remote_pk := hello_id pay\<rparr>;
                (rc, eph) = koe_ephemeral_generate sd seed (hs_local_eph hs);
                hs = hs\<lparr>hs_local_eph := eph\<rparr>
            in if rc \<noteq> 0 then (-1, hs, ack_out)
               else
                 let (rc, sess, eph) = koe_session_derive sd (hs_session hs) eph (hello_eph pay)
                       local_id (hello_id pay) False;
                     hs = hs\<lparr>hs_session := sess, hs_local_eph := eph\<rparr>
                 in if rc \<noteq> 0 then (-1, hs, ack_out)
                    else if \<not> mal 0 then (-1, hs, ack_out)
                    else
                      let body = hello_body v (eph_pk eph) (id_pk local_id) in
                      case koe_sign sd body local_id of
                        None \<Rightarrow> (-1, hs, ack_out)
                      | Some sig \<Rightarrow>
                          (0, hs\<lparr>hs_state := KOE_HS_COMPLETE\<rparr>,
                           hello_packet KOE_TYPE_HELLO_ACK (id_pk local_id) (hello_id pay) (body @ sig)))"

definition koe_handshake_finalise ::
  "sodium \<Rightarrow> koe_handshake \<Rightarrow> koe_packet \<Rightarrow> koe_identity \<Rightarrow> int \<times> koe_handshake" where
  "koe_handshake_finalise sd hs ack local_id =
     (case payload ack of
        NULL \<Rightarrow> (-1, hs)
      | Some pay \<Rightarrow>
        if h_length (header ack) < of_nat HELLO_PAYLOAD then (-1, hs)
        else case koe_version_negotiate koe_version_local (hello_version pay) of
          None \<Rightarrow> (-1, hs)
        | Some v \<Rightarrow>
          let hs = hs\<lparr>hs_negotiated_version := v\<rparr> in
          if koe_verify sd (hello_sig pay) (take 66 pay) (hello_id pay) \<noteq> 0 then (-1, hs)
          else
            let (rc, sess, eph) = koe_session_derive sd (hs_session hs) (hs_local_eph hs) (hello_eph pay)
                  local_id (hello_id pay) True;
                hs = hs\<lparr>hs_session := sess, hs_local_eph := eph\<rparr>
            in if rc \<noteq> 0 then (-1, hs) else (0, hs\<lparr>hs_state := KOE_HS_COMPLETE\<rparr>))"

section \<open>Lemmas\<close>

lemma hello_body_fields:
  assumes "length eph = 32" and "length idpk = 32" and "length sig = 64"
  shows "length (hello_body v eph idpk @ sig) = 130"
    and "take 66 (hello_body v eph idpk @ sig) = hello_body v eph idpk"
    and "hello_version (hello_body v eph idpk @ sig) = v"
    and "hello_eph (hello_body v eph idpk @ sig) = eph"
    and "hello_id (hello_body v eph idpk @ sig) = idpk"
    and "hello_sig (hello_body v eph idpk @ sig) = sig"
  using assms
  by (simp_all add: hello_body_def hello_version_def hello_eph_def hello_id_def hello_sig_def
      mem_read_def numeral_2_eq_2 [symmetric] drop_Cons' take_Cons')

lemma hello_packet_sel [simp]:
  "payload (hello_packet t f r b) = Some b" "h_length (header (hello_packet t f r b)) = 130"
  "h_from (header (hello_packet t f r b)) = f" "h_to (header (hello_packet t f r b)) = r"
  "h_type (header (hello_packet t f r b)) = type_code t"
  by (simp_all add: hello_packet_def Let_def)

lemma hello_packet_validates: "koe_packet_validate (hello_packet t f r b) = 0"
  by (rule koe_packet_validate_checksummed) (simp_all add: hello_packet_def Let_def)

lemma wire_hello_packet:
  "length f = 32 \<Longrightarrow> length r = 32 \<Longrightarrow> length b = 130 \<Longrightarrow> wire_packet (hello_packet t f r b)"
  by (auto simp: wire_packet_def wf_packet_def wf_header_def hello_packet_def Let_def)

text \<open>What the primitives must deliver for one side of a run: an ephemeral key pair from the
  seed, and signatures that verify.\<close>

definition side_ok :: "sodium \<Rightarrow> koe_identity \<Rightarrow> bytes \<Rightarrow> koe_ephemeral \<Rightarrow> bool" where
  "side_ok sd ident seed eph \<longleftrightarrow> wf_identity ident \<and> sign_ok sd (id_pk ident) (id_sk ident) \<and>
     (\<forall>m. so_sign_detached sd m (id_sk ident) \<noteq> None) \<and>
     so_box_keypair sd seed = Some (eph_pk eph, eph_sk eph) \<and> length (eph_pk eph) = 32"

lemma side_ok_sign:
  assumes "side_ok sd ident seed eph"
  obtains sig where "koe_sign sd m ident = Some sig" and "length sig = 64"
    and "koe_verify sd sig m (id_pk ident) = 0"
proof -
  obtain sig where "so_sign_detached sd m (id_sk ident) = Some sig"
    using assms unfolding side_ok_def by blast
  then show thesis
    using assms that [of sig] by (simp add: side_ok_def koe_sign_def koe_verify_def sign_ok_def)
qed

lemma koe_handshake_init_ok:
  assumes "side_ok sd ident seed eph" and "mal 0"
  obtains sig where "length sig = 64"
    and "koe_verify sd sig (hello_body koe_version_local (eph_pk eph) (id_pk ident)) (id_pk ident) = 0"
    and "koe_handshake_init sd mal seed out ident remote =
      (0, zero_handshake\<lparr>hs_remote_pk := remote, hs_local_eph := eph, hs_state := KOE_HS_SENT_HELLO\<rparr>,
       hello_packet KOE_TYPE_HELLO (id_pk ident) remote
         (hello_body koe_version_local (eph_pk eph) (id_pk ident) @ sig))"
proof -
  obtain sig where "koe_sign sd (hello_body koe_version_local (eph_pk eph) (id_pk ident)) ident = Some sig"
    "length sig = 64"
    "koe_verify sd sig (hello_body koe_version_local (eph_pk eph) (id_pk ident)) (id_pk ident) = 0"
    using side_ok_sign [OF assms(1)] .
  with assms show ?thesis
    by (intro that [of sig])
      (auto simp: koe_handshake_init_def koe_ephemeral_generate_def side_ok_def Let_def)
qed

text \<open>What a responder and an initiator do with a well-signed payload.\<close>

lemma koe_handshake_respond_ok:
  assumes side: "side_ok sd ident seed eph" and "mal 0"
    and hello: "payload hello = Some pay" "h_length (header hello) = 130"
    and "hello_version pay = koe_version_local"
    and "koe_verify sd (hello_sig pay) (take 66 pay) (hello_id pay) = 0"
    and dh: "so_scalarmult sd (eph_sk eph) (hello_eph pay) = Some dh"
  obtains sig where "length sig = 64"
    and "koe_verify sd sig (hello_body koe_version_local (eph_pk eph) (id_pk ident)) (id_pk ident) = 0"
    and "koe_handshake_respond sd mal seed out hello ident =
      (0, \<lparr>hs_state = KOE_HS_COMPLETE, hs_local_eph = eph\<lparr>eph_sk := replicate 32 0\<rparr>,
           hs_remote_pk = hello_id pay,
           hs_session = \<lparr>tx_key = mem_read 32 32 (session_secret sd dh (hello_id pay) (id_pk ident)),
                         rx_key = mem_read 0 32 (session_secret sd dh (hello_id pay) (id_pk ident))\<rparr>,
           hs_negotiated_version = koe_version_local\<rparr>,
       hello_packet KOE_TYPE_HELLO_ACK (id_pk ident) (hello_id pay)
         (hello_body koe_version_local (eph_pk eph) (id_pk ident) @ sig))"
proof -
  obtain sig where "koe_sign sd (hello_body koe_version_local (eph_pk eph) (id_pk ident)) ident = Some sig"
    "length sig = 64"
    "koe_verify sd sig (hello_body koe_version_local (eph_pk eph) (id_pk ident)) (id_pk ident) = 0"
    using side_ok_sign [OF side] .
  with assms show ?thesis
    by (intro that [of sig])
      (auto simp: koe_handshake_respond_def koe_ephemeral_generate_def side_ok_def Let_def
        zero_handshake_def koe_session_derive_cases zero_session_def)
qed

lemma koe_handshake_finalise_ok:
  assumes "payload ack = Some pay" and "h_length (header ack) = 130"
    and "hello_version pay = koe_version_local"
    and "koe_verify sd (hello_sig pay) (take 66 pay) (hello_id pay) = 0"
    and "so_scalarmult sd (eph_sk (hs_local_eph hs)) (hello_eph pay) = Some dh"
  shows "koe_handshake_finalise sd hs ack ident =
    (0, hs\<lparr>hs_state := KOE_HS_COMPLETE,
           hs_local_eph := (hs_local_eph hs)\<lparr>eph_sk := replicate 32 0\<rparr>,
           hs_session := (hs_session hs)\<lparr>
             tx_key := mem_read 0 32 (session_secret sd dh (id_pk ident) (hello_id pay)),
             rx_key := mem_read 32 32 (session_secret sd dh (id_pk ident) (hello_id pay))\<rparr>,
           hs_negotiated_version := koe_version_local\<rparr>)"
  using assms by (simp add: koe_handshake_finalise_def Let_def koe_session_derive_cases)

text \<open>A complete run: \<open>alice\<close> opens a handshake meant for \<open>intended\<close>, \<open>bob\<close> answers, \<open>alice\<close>
  finalises.\<close>

lemma handshake_run:
  assumes A: "side_ok sd alice seed_a eph_a" and B: "side_ok sd bob seed_b eph_b" and mal: "mal 0"
    and dh: "dh_ok sd (eph_sk eph_a, eph_pk eph_a) (eph_sk eph_b, eph_pk eph_b)"
      "so_scalarmult sd (eph_sk eph_a) (eph_pk eph_b) \<noteq> None" and hash: "hash_ok sd"
  obtains hs_a hello hs_b ack hs_a' where
    "koe_handshake_init sd mal seed_a out_a alice intended = (0, hs_a, hello)"
    and "koe_handshake_respond sd mal seed_b out_b hello bob = (0, hs_b, ack)"
    and "koe_handshake_finalise sd hs_a ack alice = (0, hs_a')"
    and "h_from (header hello) = id_pk alice" "h_to (header hello) = intended"
    and "koe_packet_validate hello = 0" "koe_packet_validate ack = 0"
    and "hs_state hs_a' = KOE_HS_COMPLETE" "hs_state hs_b = KOE_HS_COMPLETE"
    and "tx_key (hs_session hs_a') = rx_key (hs_session hs_b)"
    and "rx_key (hs_session hs_a') = tx_key (hs_session hs_b)"
    and "wf_session (hs_session hs_a')"
    and "hs_remote_pk hs_b = id_pk alice" "hs_remote_pk hs_a' = intended"
    and "hs_negotiated_version hs_a' = hs_negotiated_version hs_b"
    and "eph_sk (hs_local_eph hs_a') = replicate 32 0" "eph_sk (hs_local_eph hs_b) = replicate 32 0"
proof -
  let ?body = "\<lambda>eph ident. hello_body koe_version_local (eph_pk eph) (id_pk ident)"
  obtain sa where sa: "length sa = 64" "koe_verify sd sa (?body eph_a alice) (id_pk alice) = 0"
    and init: "koe_handshake_init sd mal seed_a out_a alice intended =
      (0, zero_handshake\<lparr>hs_remote_pk := intended, hs_local_eph := eph_a, hs_state := KOE_HS_SENT_HELLO\<rparr>,
       hello_packet KOE_TYPE_HELLO (id_pk alice) intended (?body eph_a alice @ sa))"
    using koe_handshake_init_ok [where mal = mal, OF A mal] .
  obtain d where d: "so_scalarmult sd (eph_sk eph_b) (eph_pk eph_a) = Some d"
    "so_scalarmult sd (eph_sk eph_a) (eph_pk eph_b) = Some d"
    using dh by (auto simp: dh_ok_def)
  have len: "length (eph_pk eph_a) = 32" "length (id_pk alice) = 32"
    "length (eph_pk eph_b) = 32" "length (id_pk bob) = 32"
    using A B by (simp_all add: side_ok_def wf_identity_def)
  note fa = hello_body_fields [OF len(1,2) sa(1), of koe_version_local]
  obtain sb where sb: "length sb = 64" "koe_verify sd sb (?body eph_b bob) (id_pk bob) = 0"
    and resp: "koe_handshake_respond sd mal seed_b out_b
        (hello_packet KOE_TYPE_HELLO (id_pk alice) intended (?body eph_a alice @ sa)) bob =
      (0, \<lparr>hs_state = KOE_HS_COMPLETE, hs_local_eph = eph_b\<lparr>eph_sk := replicate 32 0\<rparr>,
           hs_remote_pk = id_pk alice,
           hs_session = \<lparr>tx_key = mem_read 32 32 (session_secret sd d (id_pk alice) (id_pk bob)),
                         rx_key = mem_read 0 32 (session_secret sd d (id_pk alice) (id_pk bob))\<rparr>,
           hs_negotiated_version = koe_version_local\<rparr>,
       hello_packet KOE_TYPE_HELLO_ACK (id_pk bob) (id_pk alice) (?body eph_b bob @ sb))"
    using koe_handshake_respond_ok [where mal = mal, OF B mal, of
        "hello_packet KOE_TYPE_HELLO (id_pk alice) intended (?body eph_a alice @ sa)" "?body eph_a alice @ sa" d out_b]
      sa d by (auto simp: fa simp del: take_append)
  note fb = hello_body_fields [OF len(3,4) sb(1), of koe_version_local]
  show thesis
    by (rule that [OF init resp koe_handshake_finalise_ok [of _ "?body eph_b bob @ sb" _ _ d]])
      (use sb d hash in \<open>simp_all add: fb hello_packet_validates wf_session_def session_secret_def
         hash_ok_def del: take_append\<close>)
qed

lemma demo_side_ok:
  "side_ok demo_sodium \<lparr>id_pk = replicate 32 x, id_sk = replicate 64 x\<rparr> (replicate 32 y)
    \<lparr>eph_pk = replicate 32 y, eph_sk = replicate 32 y\<rparr>"
proof -
  have "sign_ok demo_sodium (replicate 32 x) (replicate 64 x)" by (rule demo_sign_ok) simp
  then show ?thesis by (simp add: side_ok_def wf_identity_def) (simp add: demo_sodium_def)
qed

lemma demo_dh:
  "dh_ok demo_sodium (replicate 32 x, replicate 32 x) (replicate 32 y, replicate 32 y)"
  "so_scalarmult demo_sodium a b \<noteq> None"
  by (simp_all add: dh_ok_def demo_sodium_def xor.commute)

section \<open>Properties\<close>

text \<open>C3. A handshake between two honest peers completes: each of the three calls returns 0,
  both packets pass header validation, both sides end in the complete state knowing each
  other's identity, with the same protocol version, matching session keys in both directions,
  and their ephemeral secrets erased.\<close>

theorem handshake_agreement:
  assumes "side_ok sd alice seed_a eph_a" and "side_ok sd bob seed_b eph_b" and "mal 0"
    and "dh_ok sd (eph_sk eph_a, eph_pk eph_a) (eph_sk eph_b, eph_pk eph_b)"
    and "so_scalarmult sd (eph_sk eph_a) (eph_pk eph_b) \<noteq> None" and "hash_ok sd"
  shows "\<exists>hs_a hello hs_b ack hs_a'.
    koe_handshake_init sd mal seed_a out_a alice (id_pk bob) = (0, hs_a, hello) \<and>
    koe_handshake_respond sd mal seed_b out_b hello bob = (0, hs_b, ack) \<and>
    koe_handshake_finalise sd hs_a ack alice = (0, hs_a') \<and>
    koe_packet_validate hello = 0 \<and> koe_packet_validate ack = 0 \<and>
    hs_state hs_a' = KOE_HS_COMPLETE \<and> hs_state hs_b = KOE_HS_COMPLETE \<and>
    hs_remote_pk hs_a' = id_pk bob \<and> hs_remote_pk hs_b = id_pk alice \<and>
    hs_negotiated_version hs_a' = hs_negotiated_version hs_b \<and>
    tx_key (hs_session hs_a') = rx_key (hs_session hs_b) \<and>
    rx_key (hs_session hs_a') = tx_key (hs_session hs_b) \<and>
    eph_sk (hs_local_eph hs_a') = replicate 32 0 \<and> eph_sk (hs_local_eph hs_b) = replicate 32 0"
proof -
  show ?thesis
    by (rule handshake_run [where mal = mal, OF assms, of out_a "id_pk bob" out_b]) blast
qed

theorem handshake_agreement_witness:
  "\<exists>hs_a hello hs_b ack hs_a'.
    koe_handshake_init demo_sodium (\<lambda>_. True) (replicate 32 5) zero_packet
      \<lparr>id_pk = replicate 32 1, id_sk = replicate 64 1\<rparr> (replicate 32 2) = (0, hs_a, hello) \<and>
    koe_handshake_respond demo_sodium (\<lambda>_. True) (replicate 32 6) zero_packet hello
      \<lparr>id_pk = replicate 32 2, id_sk = replicate 64 2\<rparr> = (0, hs_b, ack) \<and>
    koe_handshake_finalise demo_sodium hs_a ack \<lparr>id_pk = replicate 32 1, id_sk = replicate 64 1\<rparr> = (0, hs_a') \<and>
    tx_key (hs_session hs_a') = rx_key (hs_session hs_b)"
  using handshake_agreement [where mal = "\<lambda>_. True" and out_a = zero_packet and out_b = zero_packet,
      OF demo_side_ok [of 1 5] demo_side_ok [of 2 6]] demo_dh(1) [of 5 6] demo_dh(2)
  by simp blast

text \<open>C20. A responder that accepts a HELLO has checked it: the payload is complete, its protocol
  version is compatible, and the signature over version, ephemeral key and identity verifies
  under the identity the payload names, which is the identity the session is recorded for. Its
  own ephemeral secret is already erased.\<close>

theorem respond_accepts_only_signed:
  assumes "koe_handshake_respond sd mal seed out hello ident = (0, hs, ack)"
  shows "\<exists>pay. payload hello = Some pay \<and> 130 \<le> unat (h_length (header hello)) \<and>
    koe_version_compatible koe_version_local (hello_version pay) \<and>
    so_verify_detached sd (hello_sig pay) (take 66 pay) (hello_id pay) \<and>
    hs_remote_pk hs = hello_id pay \<and> hs_state hs = KOE_HS_COMPLETE \<and>
    eph_sk (hs_local_eph hs) = replicate 32 0 \<and> koe_packet_validate ack = 0 \<and>
    h_to (header ack) = hello_id pay"
  using assms
  by (auto simp: koe_handshake_respond_def Let_def koe_verify_def koe_version_negotiate_def
      koe_session_derive_cases koe_ephemeral_generate_def hello_packet_validates word_less_nat_alt
      split: option.splits if_splits prod.splits)

theorem respond_accepts_only_signed_witness:
  "\<exists>hs_a hello hs_b ack.
    koe_handshake_init demo_sodium (\<lambda>_. True) (replicate 32 5) zero_packet
      \<lparr>id_pk = replicate 32 1, id_sk = replicate 64 1\<rparr> (replicate 32 2) = (0, hs_a, hello) \<and>
    koe_handshake_respond demo_sodium (\<lambda>_. True) (replicate 32 6) zero_packet hello
      \<lparr>id_pk = replicate 32 2, id_sk = replicate 64 2\<rparr> = (0, hs_b, ack) \<and>
    eph_sk (hs_local_eph hs_b) = replicate 32 0"
proof -
  obtain hs_a hello hs_b ack where run:
    "koe_handshake_init demo_sodium (\<lambda>_. True) (replicate 32 5) zero_packet
      \<lparr>id_pk = replicate 32 1, id_sk = replicate 64 1\<rparr> (replicate 32 2) = (0, hs_a, hello)"
    "koe_handshake_respond demo_sodium (\<lambda>_. True) (replicate 32 6) zero_packet hello
      \<lparr>id_pk = replicate 32 2, id_sk = replicate 64 2\<rparr> = (0, hs_b, ack)"
    using handshake_run [where mal = "\<lambda>_. True" and out_a = zero_packet and out_b = zero_packet
        and intended = "replicate 32 2", OF demo_side_ok [of 1 5] demo_side_ok [of 2 6]] demo_dh(1) [of 5 6] demo_dh(2)
    by (metis demo_hash_ok koe_ephemeral.select_convs)
  then show ?thesis using respond_accepts_only_signed [OF run(2)] by blast
qed

text \<open>C23. The initiator does not check who answered: a handshake opened towards \<open>bob\<close> is
  completed by the answer of any other identity. All calls return 0, the initiator's record
  still names \<open>bob\<close>, and its session keys are shared with the other identity.\<close>

theorem finalise_accepts_any_identity:
  assumes "side_ok sd alice seed_a eph_a" and "side_ok sd mallory seed_m eph_m" and "mal 0"
    and "dh_ok sd (eph_sk eph_a, eph_pk eph_a) (eph_sk eph_m, eph_pk eph_m)"
    and "so_scalarmult sd (eph_sk eph_a) (eph_pk eph_m) \<noteq> None" and "hash_ok sd"
    and "id_pk mallory \<noteq> bob_pk"
  shows "\<exists>hs_a hello hs_m ack hs_a'.
    koe_handshake_init sd mal seed_a out_a alice bob_pk = (0, hs_a, hello) \<and>
    h_to (header hello) = bob_pk \<and>
    koe_handshake_respond sd mal seed_m out_m hello mallory = (0, hs_m, ack) \<and>
    koe_handshake_finalise sd hs_a ack alice = (0, hs_a') \<and>
    hs_state hs_a' = KOE_HS_COMPLETE \<and> hs_remote_pk hs_a' = bob_pk \<and>
    tx_key (hs_session hs_a') = rx_key (hs_session hs_m) \<and>
    rx_key (hs_session hs_a') = tx_key (hs_session hs_m)"
proof -
  show ?thesis
    by (rule handshake_run [where mal = mal, OF assms(1-6), of out_a bob_pk out_m]) blast
qed

theorem finalise_accepts_any_identity_witness:
  "\<exists>hs_a hello hs_m ack hs_a'.
    koe_handshake_init demo_sodium (\<lambda>_. True) (replicate 32 5) zero_packet
      \<lparr>id_pk = replicate 32 1, id_sk = replicate 64 1\<rparr> (replicate 32 2) = (0, hs_a, hello) \<and>
    koe_handshake_respond demo_sodium (\<lambda>_. True) (replicate 32 6) zero_packet hello
      \<lparr>id_pk = replicate 32 3, id_sk = replicate 64 3\<rparr> = (0, hs_m, ack) \<and>
    koe_handshake_finalise demo_sodium hs_a ack \<lparr>id_pk = replicate 32 1, id_sk = replicate 64 1\<rparr> = (0, hs_a') \<and>
    hs_remote_pk hs_a' = replicate 32 2"
  using finalise_accepts_any_identity [where mal = "\<lambda>_. True" and out_a = zero_packet and out_m = zero_packet
      and bob_pk = "replicate 32 2", OF demo_side_ok [of 1 5] demo_side_ok [of 3 6]] demo_dh(1) [of 5 6] demo_dh(2)
  by simp blast

end
