(* ===== verification/Koe_Queue.thy ===== *)
theory Koe_Queue
  imports Koe_Db Koe_Packet
begin

text \<open>
  The offline queue (\<^verbatim>\<open>src/koe_queue.c\<close>) on top of the database: a packet for an
  unreachable peer is serialised into a row, popped in sequence order and sent when the peer
  is back. \<open>db\<close> is what the queue's connection pointer points to; each database call of a
  function has its own environment, \<open>envs i\<close> for the \<open>i\<close>-th one. The drain loop may not
  terminate when the database refuses deletions, so it is a partial function. The lemmas show
  the depth bound, the round trip of one packet, the order and completeness of a drain, what a
  failing send does, and expiry.
\<close>

section \<open>Model\<close>

abbreviation (input) KOE_QUEUE_MAX_PER_PEER :: int where "KOE_QUEUE_MAX_PER_PEER \<equiv> 512"
abbreviation (input) KOE_QUEUE_TTL_SECONDS :: int where "KOE_QUEUE_TTL_SECONDS \<equiv> 7 * 24 * 3600"

text \<open>The connection pointer is an address; the connections themselves are held by the core.\<close>

record koe_queue =
  q_db :: "nat ptr"
  q_max_per_peer :: int
  q_count :: nat

definition koe_queue_open :: "bool \<Rightarrow> nat ptr \<Rightarrow> koe_db_conn ptr \<Rightarrow> int \<Rightarrow> int \<times> koe_queue" where
  "koe_queue_open schema_ok addr db max_per_peer =
     (koe_db_migrate schema_ok db,
      \<lparr>q_db = addr, q_max_per_peer = (if max_per_peer > 0 then max_per_peer else KOE_QUEUE_MAX_PER_PEER),
       q_count = 0\<rparr>)"

definition koe_queue_close :: "koe_queue \<Rightarrow> koe_queue" where
  "koe_queue_close q = q\<lparr>q_db := NULL\<rparr>"

definition koe_queue_count :: "sql_env \<Rightarrow> koe_db_conn ptr \<Rightarrow> bytes \<Rightarrow> int" where
  "koe_queue_count env db to_pk = koe_db_queue_count env db to_pk"

text \<open>
  The row of a packet: the buffer has \<open>KOE_HEADER_SIZE + length\<close> bytes, a 32-bit sum, and is
  filled by the serialiser (fresh memory is shown as zeros).
\<close>

definition queue_entry :: "unix_time \<Rightarrow> koe_packet \<Rightarrow> koe_db_queued" where
  "queue_entry now pkt =
     (let buf_len = unat (of_nat KOE_HEADER_SIZE + h_length (header pkt));
          buf = snd (koe_packet_serialise pkt (replicate buf_len 0))
      in zero_queued\<lparr>dq_to_pk := h_to (header pkt), dq_packet_bytes := Some buf,
           dq_queued_at := now, dq_expires_at := now + KOE_QUEUE_TTL_SECONDS, dq_sequence := now\<rparr>)"

text \<open>\<open>envs 0\<close> is the count, \<open>envs 1\<close> the pop that makes room, \<open>envs 2\<close> the insert; \<open>mal 0\<close> is the
  buffer of the dropped entry, \<open>mal 1\<close> the serialisation buffer.\<close>

definition koe_queue_push ::
  "(nat \<Rightarrow> sql_env) \<Rightarrow> alloc \<Rightarrow> unix_time \<Rightarrow> koe_queue \<Rightarrow> koe_db_conn ptr \<Rightarrow> koe_packet \<Rightarrow>
   int \<times> koe_db_conn ptr" where
  "koe_queue_push envs mal now q db pkt =
     (let db = (if koe_queue_count (envs 0) db (h_to (header pkt)) \<ge> q_max_per_peer q
                then fst (snd (koe_db_queue_pop (envs 1) mal db (h_to (header pkt)) zero_queued))
                else db)
      in if \<not> mal 1 then (-1, db)
         else
           let (rc, db, q_entry) = koe_db_queue_push (envs 2) db (queue_entry now pkt)
           in (if rc = 0 then dq_id q_entry else -1, db))"

text \<open>\<open>mal 0\<close> is the row's buffer, the later allocations those of the parser.\<close>

definition koe_queue_pop ::
  "sql_env \<Rightarrow> alloc \<Rightarrow> koe_db_conn ptr \<Rightarrow> bytes \<Rightarrow> koe_packet \<Rightarrow> int \<times> koe_db_conn ptr \<times> koe_packet" where
  "koe_queue_pop env mal db to_pk pkt_out =
     (case koe_db_queue_pop env mal db to_pk zero_queued of
        (rc, db, entry) \<Rightarrow>
          if rc \<noteq> 0 then (-1, db, pkt_out)
          else
            let bytes = (case dq_packet_bytes entry of NULL \<Rightarrow> [] | Some b \<Rightarrow> b);
                (rc, pkt) = koe_packet_deserialise (\<lambda>i. mal (Suc i)) pkt_out bytes
            in (rc, db, pkt))"

text \<open>The loop: \<open>send\<close> is the callback with its context \<open>s\<close>, \<open>i\<close> counts the pops.\<close>

partial_function (option) drain_loop ::
  "(nat \<Rightarrow> sql_env) \<Rightarrow> (nat \<Rightarrow> alloc) \<Rightarrow> bytes \<Rightarrow> (koe_packet \<Rightarrow> 's \<Rightarrow> int \<times> 's) \<Rightarrow>
   nat \<Rightarrow> koe_db_conn ptr \<Rightarrow> koe_packet \<Rightarrow> 's \<Rightarrow> int \<Rightarrow> (int \<times> koe_db_conn ptr \<times> 's) option" where
  "drain_loop envs mals to_pk send i db pkt s sent =
     (case koe_queue_pop (envs i) (mals i) db to_pk pkt of
        (rc, db, pkt) \<Rightarrow>
          if rc \<noteq> 0 then Some (sent, db, s)
          else case send pkt s of
            (rc, s) \<Rightarrow>
              if rc \<noteq> 0 then Some (sent, db, s)
              else drain_loop envs mals to_pk send (Suc i) db (koe_packet_free pkt) s (sent + 1))"

definition koe_queue_drain ::
  "(nat \<Rightarrow> sql_env) \<Rightarrow> (nat \<Rightarrow> alloc) \<Rightarrow> koe_db_conn ptr \<Rightarrow> bytes \<Rightarrow> (koe_packet \<Rightarrow> 's \<Rightarrow> int \<times> 's) \<Rightarrow> 's \<Rightarrow>
   (int \<times> koe_db_conn ptr \<times> 's) option" where
  "koe_queue_drain envs mals db to_pk send ctx = drain_loop envs mals to_pk send 0 db zero_packet ctx 0"

definition koe_queue_expire :: "sql_env \<Rightarrow> unix_time \<Rightarrow> koe_db_conn ptr \<Rightarrow> int \<times> koe_db_conn ptr" where
  "koe_queue_expire env now db = koe_db_queue_expire env db now"

section \<open>Lemmas\<close>

lemma koe_db_queue_push_ok:
  "env_ok env \<Longrightarrow> koe_db_queue_push env (conn_of db) q =
    (0, conn_of (queue_insert q db), q\<lparr>dq_id := db_queue_seq db + 1\<rparr>)"
  by (simp add: koe_db_queue_push_def env_ok_def queue_insert_def Let_def)

lemma koe_db_queue_pop_ok:
  "env_ok env \<Longrightarrow> mal 0 \<Longrightarrow> koe_db_queue_pop env mal (conn_of db) pk out =
    (case queue_select (sq_pick env) pk db of
       None \<Rightarrow> (-1, conn_of db, out)
     | Some r \<Rightarrow> (0, conn_of (queue_delete (\<lambda>r'. dq_id r' = dq_id r) db), r))"
  by (simp add: koe_db_queue_pop_def env_ok_def Let_def split: option.split)

lemma koe_queue_count_ok:
  "env_ok env \<Longrightarrow> koe_queue_count env (conn_of db) pk = int (length (queue_rows db pk))"
  by (simp add: koe_queue_count_def koe_db_queue_count_def env_ok_def)

text \<open>The stored bytes of a sendable packet are its wire image.\<close>

lemma queue_entry_wire:
  assumes "wire_packet p"
  shows "dq_packet_bytes (queue_entry now p) = Some (wire_image p)"
proof -
  have "unat (106 + h_length (header p)) = packet_size p"
    using packet_size_le [OF assms] by (simp add: packet_size_def unat_word_ariths)
  moreover have "length (wire_image p) = packet_size p"
    using assms by (simp add: length_wire_image wire_packet_def)
  ultimately show ?thesis
    using assms by (simp add: queue_entry_def Let_def pkt.ser_exact)
qed

lemma queue_entry_sel [simp]:
  "dq_to_pk (queue_entry now p) = h_to (header p)" "dq_sequence (queue_entry now p) = now"
  "dq_expires_at (queue_entry now p) = now + 604800"
  by (simp_all add: queue_entry_def Let_def)

lemma koe_queue_pop_eq:
  assumes "env_ok env" and "mal 0"
  shows "koe_queue_pop env mal (conn_of db) pk out =
    (case queue_take1 (sq_pick env) pk db of
       None \<Rightarrow> (-1, conn_of db, out)
     | Some ((s, b), db') \<Rightarrow>
         case koe_packet_deserialise (\<lambda>i. mal (Suc i)) out (case b of NULL \<Rightarrow> [] | Some bs \<Rightarrow> bs) of
           (rc, pkt) \<Rightarrow> (rc, conn_of db', pkt))"
  using assms
  by (simp add: koe_queue_pop_def koe_db_queue_pop_ok queue_take1_def Let_def split: option.split prod.split)

text \<open>Every stored row is the image of a sendable packet; this is what pushing keeps.\<close>

definition stored_ok :: "koe_db \<Rightarrow> bytes \<Rightarrow> bool" where
  "stored_ok db pk \<longleftrightarrow> (\<forall>(s, b)\<in>set (queue_view db pk). \<exists>p. wire_packet p \<and> b = Some (wire_image p))"

lemma koe_queue_pop_image:
  assumes "env_ok env" and "mal 0" and "mal 1"
    and "queue_take1 (sq_pick env) pk db = Some ((s, Some (wire_image p)), db')" and "wire_packet p"
  shows "koe_queue_pop env mal (conn_of db) pk out = (0, conn_of db', p)"
  using assms pkt.par_img [of p "\<lambda>i. mal (Suc i)" out "[]"] by (simp add: koe_queue_pop_eq)

lemma stored_ok_take1:
  assumes "db_ok db" and "stored_ok db pk" and "queue_take1 pick pk db = Some ((s, b), db')"
  shows "stored_ok db' pk" and "\<exists>p. wire_packet p \<and> b = Some (wire_image p)"
proof -
  note t = lq.take1_Some [OF assms(1,3)]
  then have "set (queue_view db' pk) \<subseteq> set (queue_view db pk)"
    by (metis in_diffD set_mset_mset subsetI)
  with assms(2) show "stored_ok db' pk" by (auto simp: stored_ok_def)
  from t assms(2) show "\<exists>p. wire_packet p \<and> b = Some (wire_image p)" by (auto simp: stored_ok_def)
qed

text \<open>A drain whose sends all succeed returns, having sent the taken entries in order.\<close>

lemma drain_loop_sends:
  assumes env: "env_ok env" and mals: "\<And>i j. mals i j" and send: "\<And>p s. fst (send p s) = 0"
  shows "db_ok db \<Longrightarrow> stored_ok db pk \<Longrightarrow> length (queue_view db pk) \<le> n \<Longrightarrow>
    take_many (queue_take1 (sq_pick env)) n pk db = (xs, db') \<Longrightarrow>
    \<exists>ps. map snd xs = map (\<lambda>p. Some (wire_image p)) ps \<and> (\<forall>p\<in>set ps. wire_packet p) \<and>
      drain_loop (\<lambda>_. env) mals pk send i (conn_of db) pkt s sent =
        Some (sent + int (length ps), conn_of db', fold (\<lambda>p s. snd (send p s)) ps s)"
proof (induction n arbitrary: db xs i pkt s sent)
  case 0
  then have "queue_take1 (sq_pick env) pk db = None" using lq.take1_None by auto
  then have "koe_queue_pop env (mals i) (conn_of db) pk pkt = (-1, conn_of db, pkt)"
    using env mals by (simp add: koe_queue_pop_eq)
  with 0 show ?case by (simp add: drain_loop.simps)
next
  case (Suc n)
  show ?case
  proof (cases "queue_take1 (sq_pick env) pk db")
    case None
    then have "koe_queue_pop env (mals i) (conn_of db) pk pkt = (-1, conn_of db, pkt)"
      using env mals by (simp add: koe_queue_pop_eq)
    with Suc.prems None show ?thesis by (simp add: drain_loop.simps)
  next
    case (Some y)
    then obtain sq b db1 where t: "queue_take1 (sq_pick env) pk db = Some ((sq, b), db1)" by (cases y) auto
    obtain p where p: "wire_packet p" "b = Some (wire_image p)" and st: "stored_ok db1 pk"
      using stored_ok_take1 [OF Suc.prems(1,2) t] by blast
    have ok: "db_ok db1" "length (queue_view db1 pk) \<le> n"
      using lq.take1_Some [OF Suc.prems(1) t] lq.take1_length [OF Suc.prems(1) t] Suc.prems(3) by auto
    obtain ys where ys: "take_many (queue_take1 (sq_pick env)) n pk db1 = (ys, db')" "xs = (sq, b) # ys"
      using Suc.prems(4) t by (cases "take_many (queue_take1 (sq_pick env)) n pk db1") auto
    obtain s1 where s1: "send p s = (0, s1)" using send [of p s] by (cases "send p s") auto
    obtain ps where "map snd ys = map (\<lambda>p. Some (wire_image p)) ps" "\<forall>p\<in>set ps. wire_packet p"
      "drain_loop (\<lambda>_. env) mals pk send (Suc i) (conn_of db1) (koe_packet_free p) s1 (sent + 1) =
        Some (sent + 1 + int (length ps), conn_of db', fold (\<lambda>p s. snd (send p s)) ps s1)"
      using Suc.IH [OF ok(1) st ok(2) ys(1), of "Suc i" "koe_packet_free p" s1 "sent + 1"] by blast
    moreover have "koe_queue_pop env (mals i) (conn_of db) pk pkt = (0, conn_of db1, p)"
      using koe_queue_pop_image [where mal = "mals i", OF env mals mals] t p by simp
    ultimately show ?thesis
      using p ys(2) s1 by (intro exI [of _ "p # ps"]) (simp add: drain_loop.simps [of _ _ _ _ i])
  qed
qed

text \<open>Pushing keeps the stored rows well formed and the database consistent.\<close>

lemma koe_queue_push_eq:
  assumes "\<And>i. env_ok (envs i)" and "mal 0" and "mal 1"
  shows "koe_queue_push envs mal now q (conn_of db) p =
    (let pk = h_to (header p);
         db1 = (if int (length (queue_rows db pk)) \<ge> q_max_per_peer q
                then (case queue_take1 (sq_pick (envs 1)) pk db of None \<Rightarrow> db | Some (_, db') \<Rightarrow> db')
                else db)
     in (db_queue_seq db1 + 1, conn_of (queue_insert (queue_entry now p) db1)))"
  using assms
  by (simp add: koe_queue_push_def koe_queue_count_ok koe_db_queue_pop_ok koe_db_queue_push_ok
      queue_take1_def Let_def split: option.split)

lemma queue_view_insert:
  "wire_packet p \<Longrightarrow> queue_view (queue_insert (queue_entry now p) db) =
    (queue_view db)(h_to (header p) := queue_view db (h_to (header p)) @ [(now, Some (wire_image p))])"
  by (rule ext) (simp add: queue_view_def queue_entry_wire)

text \<open>The only entry of a peer is taken as it was put.\<close>

lemma queue_single:
  assumes "db_ok db" and "wire_packet p" and "queue_view db (h_to (header p)) = []"
  shows "\<exists>db2. queue_take1 pick (h_to (header p)) (queue_insert (queue_entry now p) db) = Some ((now, Some (wire_image p)), db2)
    \<and> queue_view db2 = queue_view db \<and> queue_take1 pick (h_to (header p)) db2 = None"
proof -
  let ?pk = "h_to (header p)"
  let ?db1 = "queue_insert (queue_entry now p) db"
  have v1: "queue_view ?db1 = (queue_view db)(?pk := [(now, Some (wire_image p))])"
    using assms(2,3) by (simp add: queue_view_insert)
  have ok1: "db_ok ?db1" using assms(1) by (rule db_ok_queue_insert)
  obtain x db2 where t: "queue_take1 pick ?pk ?db1 = Some (x, db2)"
    using lq.take1_None [OF ok1, of pick ?pk] v1 by (cases "queue_take1 pick ?pk ?db1") auto
  note t' = lq.take1_Some [OF ok1 t]
  have x: "x = (now, Some (wire_image p))" using t' v1 by simp
  have v2: "queue_view db2 ?pk = []" using t' v1 x by simp
  then have "queue_view db2 = queue_view db" using t' v1 assms(3) by (intro ext) (metis fun_upd_other)
  moreover have "queue_take1 pick ?pk db2 = None" using lq.take1_None t' v2 by blast
  ultimately show ?thesis using t x by blast
qed

section \<open>Properties\<close>


text \<open>A packet and a queue for the witnesses.\<close>

definition ping :: koe_packet where
  "ping = koe_packet_init (type_code KOE_TYPE_PING) 0"

lemma wire_ping [simp]: "wire_packet ping"
  by (simp add: ping_def wire_packet_def)

lemma h_to_ping [simp]: "h_to (header ping) = replicate 32 0"
  by (simp add: ping_def koe_packet_init_def zero_packet_def zero_header_def)

lemma queue_view_empty [simp]: "queue_view empty_db pk = []"
  by (simp add: queue_view_def queue_rows_def empty_db_def)


text \<open>C18. A packet pushed for a peer with an empty queue is popped unchanged, and the queue is
  empty again; popping an empty queue fails and changes nothing.\<close>

theorem queue_push_pop_roundtrip:
  assumes "\<And>i. env_ok (envs i)" and "env_ok env" and "\<And>i. mal i" and "db_ok db" and "wire_packet p"
    and "queue_view db (h_to (header p)) = []" and "1 \<le> q_max_per_peer q"
  shows "\<exists>db1 db2. koe_queue_push envs mal now q (conn_of db) p = (db_queue_seq db + 1, conn_of db1) \<and>
    koe_queue_pop env mal (conn_of db1) (h_to (header p)) out = (0, conn_of db2, p) \<and>
    queue_view db2 = queue_view db \<and>
    koe_queue_pop env mal (conn_of db2) (h_to (header p)) out = (-1, conn_of db2, out)"
proof -
  let ?pk = "h_to (header p)"
  let ?db1 = "queue_insert (queue_entry now p) db"
  have "queue_rows db ?pk = []" using assms(6) by (simp add: queue_view_def)
  then have push: "koe_queue_push envs mal now q (conn_of db) p = (db_queue_seq db + 1, conn_of ?db1)"
    using assms(7) koe_queue_push_eq [where mal = mal, OF assms(1,3,3)] by (simp add: Let_def)
  obtain db2 where "queue_take1 (sq_pick env) ?pk ?db1 = Some ((now, Some (wire_image p)), db2)" "queue_view db2 = queue_view db"
    "queue_take1 (sq_pick env) ?pk db2 = None"
    using queue_single [OF assms(4-6)] by blast
  then show ?thesis
    using push assms(2,3,5) koe_queue_pop_image [where mal = mal, OF assms(2,3,3)]
    by (auto simp: koe_queue_pop_eq)
qed

theorem queue_push_pop_roundtrip_witness:
  "\<exists>db1 db2. koe_queue_push (\<lambda>_. good_env) (\<lambda>_. True) 100 \<lparr>q_db = NULL, q_max_per_peer = 5, q_count = 0\<rparr>
      (conn_of empty_db) ping = (1, conn_of db1) \<and>
    koe_queue_pop good_env (\<lambda>_. True) (conn_of db1) (replicate 32 0) zero_packet = (0, conn_of db2, ping)"
proof -
  have "db_queue_seq empty_db = 0" by (simp add: empty_db_def)
  then show ?thesis
    using queue_push_pop_roundtrip [of "\<lambda>_. good_env" good_env "\<lambda>_. True" empty_db ping
        "\<lparr>q_db = NULL, q_max_per_peer = 5, q_count = 0\<rparr>" 100 zero_packet]
    by (auto simp: db_ok_empty)
qed

text \<open>C7. A drain terminates and delivers everything in order: when the database works and every
  send succeeds, the loop returns the number of entries of the peer, has called the send function
  once per entry with the stored packet, in ascending sequence order, and leaves the peer's queue
  empty and the other peers' queues alone.\<close>

theorem queue_drain_complete:
  assumes "env_ok env" and "\<And>i j. mals i j" and "db_ok db" and "stored_ok db pk"
  shows "\<exists>ps xs db'. koe_queue_drain (\<lambda>_. env) mals (conn_of db) pk (\<lambda>p s. (0, s @ [p])) [] =
      Some (int (length (queue_view db pk)), conn_of db', ps) \<and>
    map snd xs = map (\<lambda>p. Some (wire_image p)) ps \<and> (\<forall>p\<in>set ps. wire_packet p) \<and>
    mset xs = mset (queue_view db pk) \<and> sorted (map fst xs) \<and> queue_view db' = (queue_view db)(pk := [])"
proof -
  obtain xs db' where t: "take_many (queue_take1 (sq_pick env)) (length (queue_view db pk)) pk db = (xs, db')"
    by fastforce
  note sorted = lq.take_many_sorted [OF assms(3) le_refl t]
  obtain ps where ps: "map snd xs = map (\<lambda>p. Some (wire_image p)) ps" "\<forall>p\<in>set ps. wire_packet p"
    "drain_loop (\<lambda>_. env) mals pk (\<lambda>p s. (0, s @ [p])) 0 (conn_of db) zero_packet [] 0 =
      Some (0 + int (length ps), conn_of db', fold (\<lambda>p s. snd (0 :: int, s @ [p])) ps [])"
    using drain_loop_sends [of env mals "\<lambda>p s. (0, s @ [p])", OF assms(1,2) _ assms(3,4) le_refl t]
    by fastforce
  have "fold (\<lambda>p s. snd (0 :: int, s @ [p])) ps s = s @ ps" for s by (induction ps arbitrary: s) auto
  moreover have "length ps = length (queue_view db pk)"
    using sorted ps(1) by (metis length_map mset_eq_length)
  moreover have "queue_view db' = (queue_view db)(pk := [])" using sorted by auto
  ultimately show ?thesis
    using ps sorted unfolding koe_queue_drain_def by auto
qed

theorem queue_drain_complete_witness:
  "\<exists>db'. koe_queue_drain (\<lambda>_. good_env) (\<lambda>_ _. True)
      (conn_of (queue_insert (queue_entry 100 ping) empty_db)) (replicate 32 0) (\<lambda>p s. (0, s @ [p])) [] =
    Some (1, conn_of db', [ping])"
proof -
  let ?db = "queue_insert (queue_entry 100 ping) empty_db"
  have v: "queue_view ?db (replicate 32 0) = [(100, Some (wire_image ping))]"
    by (simp add: queue_view_insert)
  have "stored_ok ?db (replicate 32 0)" by (auto simp: stored_ok_def v intro: wire_ping)
  then obtain ps xs db' where "koe_queue_drain (\<lambda>_. good_env) (\<lambda>_ _. True) (conn_of ?db) (replicate 32 0)
      (\<lambda>p s. (0, s @ [p])) [] = Some (1, conn_of db', ps)"
    "map snd xs = map (\<lambda>p. Some (wire_image p)) ps" "mset xs = {#(100, Some (wire_image ping))#}"
    "\<forall>p\<in>set ps. wire_packet p"
    using queue_drain_complete [OF good_env_ok, of "\<lambda>_ _. True" ?db "replicate 32 0"]
    by (auto simp: v db_ok_empty db_ok_queue_insert)
  moreover from this obtain p where "ps = [p]" "wire_image p = wire_image ping" by auto
  ultimately show ?thesis using pkt.img_inject [of p ping "[]" "[]"] by auto
qed

text \<open>A failing send loses the packet: the drain pops before it sends, so when the first send
  fails the drain returns 0 although the entry it popped is gone from the queue.\<close>

theorem drain_loses_unsent_packet:
  assumes "env_ok env" and "\<And>i j. mals i j" and "db_ok db" and "stored_ok db pk"
    and "queue_view db pk \<noteq> []" and "\<And>p s. send p s = (-1, s)"
  shows "\<exists>db' x. koe_queue_drain (\<lambda>_. env) mals (conn_of db) pk send ctx = Some (0, conn_of db', ctx) \<and>
    x \<in> set (queue_view db pk) \<and> mset (queue_view db' pk) = mset (queue_view db pk) - {#x#}"
proof -
  obtain s b db' where t: "queue_take1 (sq_pick env) pk db = Some ((s, b), db')"
    using lq.take1_None [OF assms(3), of "sq_pick env" pk] assms(5)
    by (cases "queue_take1 (sq_pick env) pk db") auto
  obtain p where p: "wire_packet p" "b = Some (wire_image p)"
    using stored_ok_take1 [OF assms(3,4) t] by blast
  have "koe_queue_pop env (mals 0) (conn_of db) pk zero_packet = (0, conn_of db', p)"
    using koe_queue_pop_image [where mal = "mals 0", OF assms(1,2,2)] t p by simp
  then have "koe_queue_drain (\<lambda>_. env) mals (conn_of db) pk send ctx = Some (0, conn_of db', ctx)"
    by (simp add: koe_queue_drain_def drain_loop.simps assms(6))
  with lq.take1_Some [OF assms(3) t] show ?thesis by blast
qed

theorem drain_loses_unsent_packet_witness:
  "\<exists>db'. koe_queue_drain (\<lambda>_. good_env) (\<lambda>_ _. True)
      (conn_of (queue_insert (queue_entry 100 ping) empty_db)) (replicate 32 0) (\<lambda>p s. (-1, s)) () =
    Some (0, conn_of db', ()) \<and> queue_view db' (replicate 32 0) = []"
proof -
  let ?db = "queue_insert (queue_entry 100 ping) empty_db"
  have v: "queue_view ?db (replicate 32 0) = [(100, Some (wire_image ping))]"
    by (simp add: queue_view_insert)
  have "stored_ok ?db (replicate 32 0)" by (auto simp: stored_ok_def v intro: wire_ping)
  then show ?thesis
    using drain_loses_unsent_packet [OF good_env_ok, of "\<lambda>_ _. True" ?db "replicate 32 0" "\<lambda>p s. (-1, s)" "()"]
    by (auto simp: v db_ok_empty db_ok_queue_insert)
qed

lemma koe_queue_pop_stuck:
  assumes "sq_prep env 0" and "sq_step env 0" and "\<not> sq_step env 1" and "\<And>j. mal j"
    and "stored_ok db pk" and "queue_view db pk \<noteq> []"
  obtains p where "koe_queue_pop env mal (conn_of db) pk out = (0, conn_of db, p)" and "wire_packet p"
proof -
  obtain r where r: "queue_select (sq_pick env) pk db = Some r"
    using queue_select_None [of "sq_pick env" pk db] assms(6) by (auto simp: queue_view_def)
  obtain p where p: "wire_packet p" "dq_packet_bytes r = Some (wire_image p)"
    using queue_select_Some(1) [OF r] assms(5) by (auto simp: stored_ok_def queue_view_def)
  have "koe_queue_pop env mal (conn_of db) pk out = (0, conn_of db, p)"
    using pkt.par_img [of p "\<lambda>i. mal (Suc i)" out "[]"] assms(1-4) p
    by (simp add: koe_queue_pop_def koe_db_queue_pop_def r Let_def)
  with p that show ?thesis by blast
qed

text \<open>If the database can read but not delete (its second statement fails), a drain with
  successful sends never returns: it pops and sends the same stored packet forever.\<close>

theorem drain_diverges_without_delete:
  assumes env: "sq_prep env 0" "sq_step env 0" "\<not> sq_step env 1" and mals: "\<And>i j. mals i j"
    and send: "\<And>p s. fst (send p s) = 0" and db: "stored_ok db pk" "queue_view db pk \<noteq> []"
  shows "koe_queue_drain (\<lambda>_. env) mals (conn_of db) pk send ctx = None"
proof -
  have "\<not> (es = (\<lambda>_. env) \<and> ms = mals \<and> k = pk \<and> f = send \<and> d = conn_of db)"
    if "drain_loop es ms k f i d p s n = Some y" for es ms k f i d p s n y
    using that
  proof (rule drain_loop.raw_induct [where P = "\<lambda>es ms k f i d p s n y.
        \<not> (es = (\<lambda>_. env) \<and> ms = mals \<and> k = pk \<and> f = send \<and> d = conn_of db)", rotated])
    fix loop es ms k f i d p s n y
    assume IH: "\<And>es ms k f i d p s n y. loop es ms k f i d p s n = Some y \<Longrightarrow>
        \<not> (es = (\<lambda>_. env) \<and> ms = mals \<and> k = pk \<and> f = send \<and> d = conn_of db)"
      and body: "(case koe_queue_pop (es i) (ms i) d k p of
          (rc, db, pkt) \<Rightarrow> if rc \<noteq> 0 then Some (n, db, s)
            else case f pkt s of (rc, s) \<Rightarrow> if rc \<noteq> 0 then Some (n, db, s)
              else loop es ms k f (Suc i) db (koe_packet_free pkt) s (n + 1)) = Some y"
    show "\<not> (es = (\<lambda>_. env) \<and> ms = mals \<and> k = pk \<and> f = send \<and> d = conn_of db)"
    proof
      assume eq: "es = (\<lambda>_. env) \<and> ms = mals \<and> k = pk \<and> f = send \<and> d = conn_of db"
      obtain p' where "koe_queue_pop env (mals i) (conn_of db) pk p = (0, conn_of db, p')"
        using koe_queue_pop_stuck [where mal = "mals i", OF env mals db] by metis
      moreover obtain s' where "send p' s = (0, s')" using send [of p' s] by (cases "send p' s") auto
      ultimately have "loop (\<lambda>_. env) mals pk send (Suc i) (conn_of db) (koe_packet_free p') s' (n + 1) = Some y"
        using body eq by simp
      then show False using IH by blast
    qed
  qed
  then show ?thesis
    unfolding koe_queue_drain_def by (metis not_Some_eq)
qed

theorem drain_diverges_without_delete_witness:
  "koe_queue_drain (\<lambda>_. good_env\<lparr>sq_step := \<lambda>i. i = 0\<rparr>) (\<lambda>_ _. True)
     (conn_of (queue_insert (queue_entry 100 ping) empty_db)) (replicate 32 0) (\<lambda>p s. (0, s)) () = None"
proof -
  let ?db = "queue_insert (queue_entry 100 ping) empty_db"
  have v: "queue_view ?db (replicate 32 0) = [(100, Some (wire_image ping))]"
    by (simp add: queue_view_insert)
  have "stored_ok ?db (replicate 32 0)" by (auto simp: stored_ok_def v intro: wire_ping)
  then show ?thesis
    by (intro drain_diverges_without_delete) (simp_all add: v good_env_def)
qed

text \<open>C20. Expiry: an entry pushed at time \<open>now\<close> survives an expiry run at time \<open>t\<close> exactly when \<open>t\<close>
  is before \<open>now\<close> plus seven days; the run removes every overdue entry of every peer, no other,
  and returns how many it removed.\<close>

theorem queue_expire_exact:
  assumes "env_ok env" and "wire_packet p"
  shows "\<exists>db'. koe_queue_expire env t (conn_of (queue_insert (queue_entry now p) db)) =
      (int (length (filter (\<lambda>r. dq_expires_at r \<le> t) (db_queue db)) + (if now + 604800 \<le> t then 1 else 0)),
       conn_of db') \<and>
    queue_rows db' pk = filter (\<lambda>r. t < dq_expires_at r) (queue_rows db pk) @
      (if h_to (header p) = pk \<and> t < now + 604800
       then [(queue_entry now p)\<lparr>dq_id := db_queue_seq db + 1\<rparr>] else [])"
proof -
  let ?db = "queue_insert (queue_entry now p) db"
  have "db_changes (queue_delete (\<lambda>r. dq_expires_at r \<le> t) ?db) =
      length (filter (\<lambda>r. dq_expires_at r \<le> t) (db_queue db)) + (if now + 604800 \<le> t then 1 else 0)"
    by (simp add: queue_delete_def queue_insert_def Let_def)
  then have "koe_queue_expire env t (conn_of ?db) =
      (int (length (filter (\<lambda>r. dq_expires_at r \<le> t) (db_queue db)) + (if now + 604800 \<le> t then 1 else 0)),
       conn_of (queue_delete (\<lambda>r. dq_expires_at r \<le> t) ?db))"
    using assms(1)
    by (simp add: koe_queue_expire_def koe_db_queue_expire_def sql_sweep_def env_ok_def Let_def)
  then show ?thesis
    by (intro exI conjI, assumption) (auto simp: not_le)
qed

theorem queue_expire_exact_witness:
  "\<exists>db'. koe_queue_expire good_env 604900 (conn_of (queue_insert (queue_entry 100 ping) empty_db)) =
      (1, conn_of db') \<and> queue_rows db' (replicate 32 0) = []"
  using queue_expire_exact [OF good_env_ok wire_ping, of 604900 100 empty_db "replicate 32 0"]
  by (auto simp: empty_db_def queue_rows_def)

end
