(* ===== verification/Koe_Presence.thy ===== *)
theory Koe_Presence
  imports Koe_Sealed "HOL-Library.Multiset"
begin

text \<open>
  Presence and typing indicators (\<^verbatim>\<open>src/koe_presence.c\<close>): an array of 512 peers of which the
  first \<open>pt_count\<close> are in use, one entry per public key. The time is an argument of every
  operation that reads the clock. Expiry removes an entry by moving the last one into its
  place, so its contract is stated on multisets. The lemmas show that the table is a map from
  keys to what was last heard of the peer, that every operation keeps keys distinct, that
  expiry removes exactly the stale entries and cannot be observed by a lookup, and that the
  packets built for peers are well formed and decrypt to the announced state.
\<close>

abbreviation (input) KOE_PRESENCE_TTL_LOCAL :: int where "KOE_PRESENCE_TTL_LOCAL \<equiv> 30"
abbreviation (input) KOE_PRESENCE_TTL_RELAY :: int where "KOE_PRESENCE_TTL_RELAY \<equiv> 90"
abbreviation (input) KOE_PRESENCE_MAX_PEERS :: nat where "KOE_PRESENCE_MAX_PEERS \<equiv> 512"

datatype koe_presence_state =
    KOE_PRESENCE_OFFLINE | KOE_PRESENCE_ONLINE | KOE_PRESENCE_AWAY | KOE_PRESENCE_BUSY | KOE_PRESENCE_GHOST

fun presence_code :: "koe_presence_state \<Rightarrow> int" where
  "presence_code KOE_PRESENCE_OFFLINE = 0"
| "presence_code KOE_PRESENCE_ONLINE = 1"
| "presence_code KOE_PRESENCE_AWAY = 2"
| "presence_code KOE_PRESENCE_BUSY = 3"
| "presence_code KOE_PRESENCE_GHOST = 4"

record koe_peer_presence =
  pp_pk :: bytes
  pp_state :: koe_presence_state
  pp_last_seen :: unix_time
  pp_transport :: int
  pp_is_typing :: int
  pp_typing_started_at :: unix_time

record koe_presence_table =
  pt_peers :: "koe_peer_presence list"
  pt_count :: nat
  pt_local_state :: koe_presence_state

section \<open>Operations\<close>

definition koe_presence_init :: koe_presence_table where
  "koe_presence_init =
     \<lparr>pt_peers = replicate KOE_PRESENCE_MAX_PEERS
        \<lparr>pp_pk = replicate 32 0, pp_state = KOE_PRESENCE_OFFLINE, pp_last_seen = 0, pp_transport = 0,
         pp_is_typing = 0, pp_typing_started_at = 0\<rparr>,
      pt_count = 0, pt_local_state = KOE_PRESENCE_OFFLINE\<rparr>"

text \<open>The scan every operation starts with: the first entry in use with that key.\<close>

definition presence_idx :: "koe_presence_table \<Rightarrow> bytes \<Rightarrow> nat option" where
  "presence_idx t pk = find_idx (\<lambda>p. pp_pk p = pk) (take (pt_count t) (pt_peers t))"

definition koe_presence_update ::
  "unix_time \<Rightarrow> koe_presence_table \<Rightarrow> bytes \<Rightarrow> koe_presence_state \<Rightarrow> int \<Rightarrow> koe_presence_table" where
  "koe_presence_update now t pk state transport =
     (case presence_idx t pk of
        Some i \<Rightarrow> t\<lparr>pt_peers := (pt_peers t)[i := (pt_peers t ! i)\<lparr>pp_state := state, pp_last_seen := now, pp_transport := transport\<rparr>]\<rparr>
      | None \<Rightarrow>
          if pt_count t < KOE_PRESENCE_MAX_PEERS
          then t\<lparr>pt_peers := (pt_peers t)[pt_count t := (pt_peers t ! pt_count t)
                   \<lparr>pp_pk := pk, pp_state := state, pp_last_seen := now, pp_transport := transport\<rparr>],
                 pt_count := pt_count t + 1\<rparr>
          else t)"

definition koe_presence_get :: "unix_time \<Rightarrow> koe_presence_table \<Rightarrow> bytes \<Rightarrow> koe_presence_state" where
  "koe_presence_get now t pk =
     (case presence_idx t pk of
        Some i \<Rightarrow>
          let p = pt_peers t ! i;
              ttl = (if pp_transport p = presence_code KOE_PRESENCE_ONLINE then KOE_PRESENCE_TTL_LOCAL else KOE_PRESENCE_TTL_RELAY)
          in if now - pp_last_seen p > ttl then KOE_PRESENCE_OFFLINE else pp_state p
      | None \<Rightarrow> KOE_PRESENCE_OFFLINE)"

definition koe_presence_is_online :: "unix_time \<Rightarrow> koe_presence_table \<Rightarrow> bytes \<Rightarrow> int" where
  "koe_presence_is_online now t pk = (if koe_presence_get now t pk \<noteq> KOE_PRESENCE_OFFLINE then 1 else 0)"

function presence_expire_loop ::
  "unix_time \<Rightarrow> koe_peer_presence list \<Rightarrow> nat \<Rightarrow> nat \<Rightarrow> int \<Rightarrow> koe_peer_presence list \<times> nat \<times> int" where
  "presence_expire_loop now peers i cnt removed =
     (if i < cnt
      then if now - pp_last_seen (peers ! i) > KOE_PRESENCE_TTL_RELAY
           then presence_expire_loop now (peers[i := peers ! (cnt - 1)]) i (cnt - 1) (removed + 1)
           else presence_expire_loop now peers (i + 1) cnt removed
      else (peers, cnt, removed))"
  by auto
termination by (relation "measure (\<lambda>(now, peers, i, cnt, removed). cnt - i)") auto

declare presence_expire_loop.simps [simp del]

definition koe_presence_expire :: "unix_time \<Rightarrow> koe_presence_table \<Rightarrow> int \<times> koe_presence_table" where
  "koe_presence_expire now t =
     (case presence_expire_loop now (pt_peers t) 0 (pt_count t) 0 of
        (peers, cnt, removed) \<Rightarrow> (removed, t\<lparr>pt_peers := peers, pt_count := cnt\<rparr>))"

definition koe_presence_typing_expired :: "unix_time \<Rightarrow> koe_peer_presence \<Rightarrow> int" where
  "koe_presence_typing_expired now peer =
     (if pp_is_typing peer = 0 then 0 else if now - pp_typing_started_at peer > 5 then 1 else 0)"

definition koe_presence_set_local ::
  "koe_presence_table \<Rightarrow> koe_presence_state \<Rightarrow> int \<Rightarrow> int \<times> koe_presence_table" where
  "koe_presence_set_local t state ghost_active =
     (0, t\<lparr>pt_local_state := (if ghost_active \<noteq> 0 then KOE_PRESENCE_GHOST else state)\<rparr>)"

definition koe_presence_set_typing ::
  "sodium \<Rightarrow> alloc \<Rightarrow> bytes \<Rightarrow> koe_packet \<Rightarrow> koe_identity \<Rightarrow> bytes \<Rightarrow> koe_session \<Rightarrow> int \<Rightarrow> int \<times> koe_packet" where
  "koe_presence_set_typing sd mal nonce pkt local_id to_pk sess is_typing =
     (case koe_encrypt sd [word_of_int is_typing] nonce (tx_key sess) of
        None \<Rightarrow> (-1, pkt)
      | Some ct \<Rightarrow>
          if \<not> mal 0 then (-1, pkt)
          else (0, sealed_packet (type_code KOE_TYPE_TYPING) (flag_bit KOE_FLAG_ENCRYPTED) 17 (id_pk local_id) to_pk nonce ct))"

definition koe_presence_handle_typing :: "unix_time \<Rightarrow> koe_presence_table \<Rightarrow> koe_packet \<Rightarrow> koe_presence_table" where
  "koe_presence_handle_typing now t pkt =
     (case presence_idx t (h_from (header pkt)) of
        Some i \<Rightarrow> t\<lparr>pt_peers := (pt_peers t)[i := (pt_peers t ! i)\<lparr>pp_is_typing := 1, pp_typing_started_at := now\<rparr>]\<rparr>
      | None \<Rightarrow> t)"

definition koe_presence_build_packet ::
  "sodium \<Rightarrow> alloc \<Rightarrow> bytes \<Rightarrow> koe_packet \<Rightarrow> koe_identity \<Rightarrow> bytes \<Rightarrow> koe_presence_state \<Rightarrow> koe_session \<Rightarrow> int \<times> koe_packet" where
  "koe_presence_build_packet sd mal nonce pkt local_id to_pk state sess =
     (case koe_encrypt sd [word_of_int (presence_code state)] nonce (tx_key sess) of
        None \<Rightarrow> (-1, pkt)
      | Some ct \<Rightarrow>
          if \<not> mal 0 then (-1, pkt)
          else (0, sealed_packet (type_code KOE_TYPE_PRESENCE) (flag_bit KOE_FLAG_ENCRYPTED) 17 (id_pk local_id) to_pk nonce ct))"

section \<open>The table as a map\<close>

abbreviation live :: "koe_presence_table \<Rightarrow> koe_peer_presence list" where
  "live t \<equiv> take (pt_count t) (pt_peers t)"

definition presence_ok :: "koe_presence_table \<Rightarrow> bool" where
  "presence_ok t \<longleftrightarrow> length (pt_peers t) = KOE_PRESENCE_MAX_PEERS \<and> pt_count t \<le> KOE_PRESENCE_MAX_PEERS
     \<and> distinct (map pp_pk (live t))"

text \<open>What the table knows of a peer.\<close>

definition presence_of :: "koe_peer_presence list \<Rightarrow> bytes \<Rightarrow> koe_peer_presence option" where
  "presence_of ps pk = map_of (map (\<lambda>p. (pp_pk p, p)) ps) pk"

definition stale :: "unix_time \<Rightarrow> koe_peer_presence \<Rightarrow> bool" where
  "stale now p \<longleftrightarrow> now - pp_last_seen p > KOE_PRESENCE_TTL_RELAY"

text \<open>The verdict on one entry.\<close>

definition presence_verdict :: "unix_time \<Rightarrow> koe_peer_presence \<Rightarrow> koe_presence_state" where
  "presence_verdict now p =
     (if now - pp_last_seen p > (if pp_transport p = 1 then KOE_PRESENCE_TTL_LOCAL else KOE_PRESENCE_TTL_RELAY)
      then KOE_PRESENCE_OFFLINE else pp_state p)"

lemma swap_remove:
  assumes "n \<le> length xs" "i < n"
  shows "add_mset (xs ! i) (mset (take (n - 1) (xs[i := xs ! (n - 1)]))) = mset (take n xs)"
proof -
  obtain m where m: "n = Suc m" using assms(2) by (cases n) auto
  have l: "take (Suc m) xs = take m xs @ [xs ! m]" using assms(1) by (simp add: m take_Suc_conv_app_nth)
  show ?thesis
  proof (cases "i < m")
    case True
    then have "xs ! i \<in># mset (take m xs)"
      using assms(1) m by (metis in_set_conv_nth length_take min.absorb2 nth_take set_mset_mset Suc_leD)
    then show ?thesis using True assms(1) by (simp add: l m take_update_swap mset_update add_mset_commute [of "xs ! i"])
  next
    case False
    then have "i = m" using assms(2) m by simp
    then show ?thesis by (simp add: l m)
  qed
qed

lemma find_idx_map_of:
  "map_option ((!) xs) (find_idx (\<lambda>x. f x = k) xs) = map_of (map (\<lambda>x. (f x, x)) xs) k"
  by (induction xs) (auto simp: option.map_comp comp_def)

lemma presence_idx_of:
  assumes "presence_ok t"
  shows "map_option ((!) (pt_peers t)) (presence_idx t pk) = presence_of (live t) pk"
proof -
  have "map_option ((!) (pt_peers t)) (presence_idx t pk) = map_option ((!) (live t)) (presence_idx t pk)"
    by (rule option.map_cong0) (auto simp: presence_idx_def dest!: find_idx_SomeD)
  then show ?thesis by (simp add: presence_idx_def presence_of_def find_idx_map_of)
qed

lemma koe_presence_get_eq:
  assumes "presence_ok t"
  shows "koe_presence_get now t pk =
    (case presence_of (live t) pk of None \<Rightarrow> KOE_PRESENCE_OFFLINE | Some p \<Rightarrow> presence_verdict now p)"
  using presence_idx_of [OF assms, of pk, symmetric]
  by (cases "presence_idx t pk") (auto simp: koe_presence_get_def presence_verdict_def Let_def)

lemma presence_of_Some:
  "distinct (map pp_pk ps) \<Longrightarrow> presence_of ps pk = Some p \<longleftrightarrow> p \<in> set ps \<and> pp_pk p = pk"
  by (auto simp: presence_of_def map_of_eq_Some_iff comp_def)

lemma presence_of_None: "presence_of ps pk = None \<longleftrightarrow> (\<forall>p\<in>set ps. pp_pk p \<noteq> pk)"
  by (auto simp: presence_of_def map_of_eq_None_iff image_image)

lemma presence_of_filter:
  assumes "distinct (map pp_pk ps)" "mset ps' = mset (filter P ps)"
  shows "distinct (map pp_pk ps') \<and> presence_of ps' pk = Option.bind (presence_of ps pk) (\<lambda>p. if P p then Some p else None)"
proof -
  have "distinct (map pp_pk (filter P ps))" using assms(1) by (simp add: distinct_map_filter)
  then have d: "distinct (map pp_pk ps')"
    using assms(2) by (metis mset_eq_imp_distinct_iff mset_map)
  have s: "set ps' = set (filter P ps)" using assms(2) by (rule mset_eq_setD)
  show ?thesis
  proof (cases "presence_of ps pk")
    case None
    then have "presence_of ps' pk = None" using s by (auto simp: presence_of_None)
    then show ?thesis using d None by simp
  next
    case (Some p)
    then have p: "p \<in> set ps" "pp_pk p = pk" using presence_of_Some [OF assms(1)] by auto
    have u: "q = p" if "q \<in> set ps" "pp_pk q = pk" for q
      using that p assms(1) by (auto simp: distinct_map inj_on_def)
    have "presence_of ps' pk = Some p" if "P p"
      using p s that by (simp add: presence_of_Some [OF d])
    moreover have "presence_of ps' pk = None" if "\<not> P p"
      unfolding presence_of_None
    proof (intro ballI notI)
      fix q assume "q \<in> set ps'" "pp_pk q = pk"
      moreover from this have "q = p" using s by (intro u) simp_all
      ultimately show False using s that by simp
    qed
    ultimately show ?thesis using d Some by simp
  qed
qed

section \<open>Expiry\<close>

lemma presence_expire_loop_mset:
  assumes "presence_expire_loop now peers i cnt removed = (peers', cnt', removed')"
    and "cnt \<le> length peers" and "\<forall>p\<in>set (take i (take cnt peers)). \<not> stale now p"
  shows "length peers' = length peers \<and> cnt' \<le> cnt
    \<and> mset (take cnt' peers') = filter_mset (\<lambda>p. \<not> stale now p) (mset (take cnt peers))
    \<and> removed' = removed + int (size (filter_mset (stale now) (mset (take cnt peers))))"
  using assms
proof (induction now peers i cnt removed arbitrary: peers' cnt' removed' rule: presence_expire_loop.induct)
  case (1 now peers i cnt removed)
  show ?case
  proof (cases "i < cnt")
    case False
    then have "filter_mset (\<lambda>p. \<not> stale now p) (mset (take cnt peers)) = mset (take cnt peers)"
      and "filter_mset (stale now) (mset (take cnt peers)) = {#}"
      using "1.prems"(3) by (simp_all add: filter_mset_eq_conv)
    then show ?thesis using "1.prems"(1) False by (simp add: presence_expire_loop.simps)
  next
    case True
    show ?thesis
    proof (cases "stale now (peers ! i)")
      case st: True
      let ?ps = "peers[i := peers ! (cnt - 1)]"
      have eq: "mset (take cnt peers) = add_mset (peers ! i) (mset (take (cnt - 1) ?ps))"
        using swap_remove [OF "1.prems"(2) True] by simp
      have "take i (take (cnt - 1) ?ps) = take i (take cnt peers)" using True by (auto simp: min_def)
      then have "\<forall>p\<in>set (take i (take (cnt - 1) ?ps)). \<not> stale now p" using "1.prems"(3) by simp
      moreover have "cnt - 1 \<le> length ?ps" using "1.prems"(2) by simp
      ultimately have "length peers' = length ?ps \<and> cnt' \<le> cnt - 1 \<and>
          mset (take cnt' peers') = filter_mset (\<lambda>p. \<not> stale now p) (mset (take (cnt - 1) ?ps)) \<and>
          removed' = removed + 1 + int (size (filter_mset (stale now) (mset (take (cnt - 1) ?ps))))"
        using "1.IH"(1) [OF True st [unfolded stale_def], of peers' cnt' removed'] "1.prems"(1) True st [unfolded stale_def]
        by (simp add: presence_expire_loop.simps [of now peers])
      with st
      show ?thesis unfolding eq by auto
    next
      case fresh: False
      have "take (Suc i) (take cnt peers) = take i (take cnt peers) @ [peers ! i]"
        using True "1.prems"(2) by (subst take_Suc_conv_app_nth) auto
      then show ?thesis
        using "1.IH"(2) [OF True fresh [unfolded stale_def], of peers' cnt' removed'] "1.prems" True fresh fresh [unfolded stale_def]
        by (simp add: presence_expire_loop.simps [of now peers])
    qed
  qed
qed

text \<open>C26. Expiring presence entries removes exactly those not heard of for more than 90 seconds,
  reports how many, keeps one entry per key, and cannot be observed by a lookup at the same
  time: every peer has the state it had before, stale ones being offline either way.\<close>

theorem presence_expire_exact:
  assumes "presence_ok t" and "koe_presence_expire now t = (removed, t')"
  shows "presence_ok t' \<and> mset (live t') = mset (filter (\<lambda>p. \<not> stale now p) (live t))
    \<and> removed = int (length (filter (stale now) (live t)))
    \<and> koe_presence_get now t' = koe_presence_get now t"
proof -
  obtain ps n where loop: "presence_expire_loop now (pt_peers t) 0 (pt_count t) 0 = (ps, n, removed)"
    and t': "t' = t\<lparr>pt_peers := ps, pt_count := n\<rparr>"
    using assms(2) by (auto simp: koe_presence_expire_def split: prod.splits)
  have res: "length ps = length (pt_peers t)" "n \<le> pt_count t"
    "mset (take n ps) = mset (filter (\<lambda>p. \<not> stale now p) (live t))"
    "removed = int (length (filter (stale now) (live t)))"
    using presence_expire_loop_mset [OF loop] assms(1)
    by (simp_all add: presence_ok_def flip: size_mset mset_filter)
  have of: "distinct (map pp_pk (live t'))"
    "presence_of (live t') pk = Option.bind (presence_of (live t) pk) (\<lambda>p. if \<not> stale now p then Some p else None)" for pk
    using presence_of_filter [OF _ res(3), of pk] assms(1) by (simp_all add: presence_ok_def t')
  have ok: "presence_ok t'" using assms(1) res of(1) by (simp add: presence_ok_def t')
  have "koe_presence_get now t' pk = koe_presence_get now t pk" for pk
    by (cases "presence_of (live t) pk")
       (auto simp: koe_presence_get_eq [OF ok] koe_presence_get_eq [OF assms(1)] of(2) stale_def presence_verdict_def)
  with ok res t' show ?thesis by auto
qed

section \<open>Updates\<close>

definition heard :: "unix_time \<Rightarrow> bytes \<Rightarrow> koe_presence_state \<Rightarrow> int \<Rightarrow> koe_peer_presence \<Rightarrow> koe_peer_presence" where
  "heard now pk state transport p = p\<lparr>pp_pk := pk, pp_state := state, pp_last_seen := now, pp_transport := transport\<rparr>"

lemma presence_of_update:
  assumes "distinct (map pp_pk ps)" "i < length ps" "pp_pk (ps ! i) = pk" "pp_pk p = pk"
  shows "distinct (map pp_pk (ps[i := p])) \<and> presence_of (ps[i := p]) = (presence_of ps)(pk \<mapsto> p)"
proof -
  have "map pp_pk (ps[i := p]) = map pp_pk ps"
    using assms(2-4) by (simp add: map_update) (metis list_update_id nth_map)
  then have d: "distinct (map pp_pk (ps[i := p]))" using assms(1) by simp
  have "presence_of (ps[i := p]) k = ((presence_of ps)(pk \<mapsto> p)) k" for k
  proof (cases "k = pk")
    case True
    then show ?thesis
      using assms(2,4) by (simp add: presence_of_Some [OF d] set_update_memI)
  next
    case False
    have "ps = take i ps @ ps ! i # drop (Suc i) ps" using assms(2) by (rule id_take_nth_drop)
    then have "presence_of ps k = presence_of (take i ps @ ps ! i # drop (Suc i) ps) k" by simp
    then show ?thesis
      using False assms(2-4) by (simp add: upd_conv_take_nth_drop presence_of_def map_add_def split: option.splits)
  qed
  with d show ?thesis by auto
qed

lemma presence_of_append:
  "presence_of ps (pp_pk p) = None \<Longrightarrow> presence_of (ps @ [p]) = (presence_of ps)(pp_pk p \<mapsto> p)"
  by (rule ext) (auto simp: presence_of_def map_add_def split: option.splits)

text \<open>The updated table: an entry of a known peer is changed in place, an unknown one appended
  while there is room.\<close>

lemma koe_presence_update_ok:
  assumes "presence_ok t" and t'_def: "t' = koe_presence_update now t pk state transport"
  shows "presence_ok t' \<and> (if presence_of (live t) pk = None \<and> pt_count t = KOE_PRESENCE_MAX_PEERS then t' = t
    else \<exists>p. presence_of (live t') = (presence_of (live t))(pk \<mapsto> heard now pk state transport p))"
proof (cases "presence_idx t pk")
  case (Some i)
  then have i: "i < length (live t)" "pp_pk (live t ! i) = pk"
    by (auto simp: presence_idx_def dest: find_idx_SomeD)
  let ?p = "heard now pk state transport (live t ! i)"
  have t': "t' = t\<lparr>pt_peers := (pt_peers t)[i := ?p]\<rparr>"
    using i Some by (auto simp: t'_def koe_presence_update_def heard_def)
  have "live t' = (live t)[i := ?p]" by (simp add: t' take_update_swap)
  moreover have "presence_of (live t) pk \<noteq> None" using presence_idx_of [OF assms(1), of pk, symmetric] Some by auto
  ultimately show ?thesis
    using presence_of_update [of "live t" i pk ?p] i assms(1) by (auto simp: presence_ok_def t' heard_def)
next
  case None
  have none: "presence_of (live t) pk = None" using presence_idx_of [OF assms(1), of pk] None by auto
  show ?thesis
  proof (cases "pt_count t < KOE_PRESENCE_MAX_PEERS")
    case True
    let ?p = "heard now pk state transport (pt_peers t ! pt_count t)"
    have t': "t' = t\<lparr>pt_peers := (pt_peers t)[pt_count t := ?p], pt_count := pt_count t + 1\<rparr>"
      using None True by (simp add: t'_def koe_presence_update_def heard_def)
    have "live t' = live t @ [?p]"
      using True assms(1) by (simp add: t' presence_ok_def take_Suc_conv_app_nth)
    moreover have "pp_pk ?p = pk" by (simp add: heard_def)
    ultimately show ?thesis
      using presence_of_append [of "live t" ?p] none assms(1) True
      by (auto simp: presence_ok_def t' presence_of_None)
  next
    case False
    then show ?thesis
      using None none assms(1) by (auto simp: t'_def koe_presence_update_def presence_ok_def)
  qed
qed

text \<open>A presence lookup returns what was last heard of the peer: after an update for a peer
  the table has room for, the peer has the announced state until its time to live runs out (30
  seconds when the last contact carries transport code 1, 90 seconds otherwise) and is offline
  afterwards; every other peer reads as before, and keys stay distinct.\<close>

theorem presence_update_get:
  assumes "presence_ok t" and "pt_count t < KOE_PRESENCE_MAX_PEERS"
  shows "presence_ok (koe_presence_update now t pk state transport)
    \<and> koe_presence_get later (koe_presence_update now t pk state transport) k
      = (if k \<noteq> pk then koe_presence_get later t k
         else if later - now > (if transport = 1 then 30 else 90) then KOE_PRESENCE_OFFLINE
         else state)"
proof -
  let ?t = "koe_presence_update now t pk state transport"
  obtain p where ok: "presence_ok ?t"
    and p: "presence_of (live ?t) = (presence_of (live t))(pk \<mapsto> heard now pk state transport p)"
    using koe_presence_update_ok [OF assms(1) refl, of now pk state transport] assms(2) by auto
  then show ?thesis
    by (simp add: koe_presence_get_eq assms(1) presence_verdict_def heard_def)
qed

lemma presence_ok_init: "presence_ok koe_presence_init"
  by (simp add: presence_ok_def koe_presence_init_def)

theorem presence_update_get_witness:
  "presence_ok koe_presence_init \<and>
   koe_presence_get 140 (koe_presence_update 100 koe_presence_init [7] KOE_PRESENCE_BUSY 2) [7] = KOE_PRESENCE_BUSY \<and>
   koe_presence_get 140 (koe_presence_update 100 koe_presence_init [7] KOE_PRESENCE_BUSY 1) [7] = KOE_PRESENCE_OFFLINE"
  using presence_update_get [OF presence_ok_init, of 100 "[7]" KOE_PRESENCE_BUSY _ 140 "[7]"] presence_ok_init
  by (simp add: koe_presence_init_def)

theorem presence_expire_exact_witness:
  "\<exists>removed t'. presence_ok (koe_presence_update 100 koe_presence_init [7] KOE_PRESENCE_BUSY 2)
     \<and> koe_presence_expire 200 (koe_presence_update 100 koe_presence_init [7] KOE_PRESENCE_BUSY 2) = (removed, t')
     \<and> removed = 1 \<and> live t' = []"
proof -
  let ?t = "koe_presence_update 100 koe_presence_init [7] KOE_PRESENCE_BUSY 2"
  obtain removed t' where e: "koe_presence_expire 200 ?t = (removed, t')" by fastforce
  have ok: "presence_ok ?t"
    using koe_presence_update_ok [OF presence_ok_init refl, of 100 "[7]" KOE_PRESENCE_BUSY 2] by simp
  have "live ?t = [heard 100 [7] KOE_PRESENCE_BUSY 2 (pt_peers koe_presence_init ! 0)]"
    by (simp add: koe_presence_update_def presence_idx_def koe_presence_init_def heard_def take_Suc
        hd_conv_nth)
  then show ?thesis
    using presence_expire_exact [OF ok e] e ok by (auto simp: stale_def heard_def)
qed

section \<open>Packets\<close>

text \<open>The packets built for a peer arrive, validate, and decrypt to the announced byte.\<close>

lemma presence_packet_opens:
  assumes "aead_ok sd" "wf_identity local_id" "length to_pk = 32" "length nonce = 24"
    and "koe_presence_build_packet sd mal nonce pkt local_id to_pk state sess = (0, out)"
  shows "wire_packet out \<and> koe_packet_validate out = 0
    \<and> Option.bind (payload out) (\<lambda>ct. koe_decrypt sd ct (h_nonce (header out)) (tx_key sess)) = Some [word_of_int (presence_code state)]"
proof -
  obtain ct where ct: "koe_encrypt sd [word_of_int (presence_code state)] nonce (tx_key sess) = Some ct"
    and out: "out = sealed_packet (type_code KOE_TYPE_PRESENCE) (flag_bit KOE_FLAG_ENCRYPTED) 17 (id_pk local_id) to_pk nonce ct"
    using assms(5) by (auto simp: koe_presence_build_packet_def split: option.splits if_splits)
  show ?thesis
    using sealed_packet_opens [OF assms(1) ct, of "id_pk local_id" to_pk 17] assms(2-4)
    by (simp add: out wf_identity_def)
qed

lemma typing_packet_opens:
  assumes "aead_ok sd" "wf_identity local_id" "length to_pk = 32" "length nonce = 24"
    and "koe_presence_set_typing sd mal nonce pkt local_id to_pk sess is_typing = (0, out)"
  shows "wire_packet out \<and> koe_packet_validate out = 0
    \<and> Option.bind (payload out) (\<lambda>ct. koe_decrypt sd ct (h_nonce (header out)) (tx_key sess)) = Some [word_of_int is_typing]"
proof -
  obtain ct where ct: "koe_encrypt sd [word_of_int is_typing] nonce (tx_key sess) = Some ct"
    and out: "out = sealed_packet (type_code KOE_TYPE_TYPING) (flag_bit KOE_FLAG_ENCRYPTED) 17 (id_pk local_id) to_pk nonce ct"
    using assms(5) by (auto simp: koe_presence_set_typing_def split: option.splits if_splits)
  show ?thesis
    using sealed_packet_opens [OF assms(1) ct, of "id_pk local_id" to_pk 17] assms(2-4)
    by (simp add: out wf_identity_def)
qed

text \<open>The receiver of a typing packet does not look at that byte: stopping to type marks the peer
  as typing.\<close>

lemma handle_typing_ignores_payload:
  "h_from (header p) = h_from (header q) \<Longrightarrow>
   koe_presence_handle_typing now t p = koe_presence_handle_typing now t q"
  by (simp add: koe_presence_handle_typing_def)

end
