(* ===== verification/Koe_Transport.thy ===== *)
theory Koe_Transport
  imports Koe_Packet Koe_Crypto
begin

text \<open>
  The transport layer (\<^verbatim>\<open>src/koe_transport.c\<close>). Three parts of the operating system appear as
  arguments: a connected stream socket is a record of the bytes still to be read and the
  bytes written, with the sizes in which the kernel delivers and accepts them chosen by
  \<open>net\<close>; the results of \<open>socket\<close>, \<open>bind\<close>, \<open>listen\<close>, \<open>connect\<close> and \<open>accept\<close> are given by the
  caller, and the set of open descriptors is part of the state; discovery sees the list of
  datagrams that arrive in its time window. The lemmas show that reading and writing do not
  depend on how the kernel splits the data, that a packet sent over the length-prefixed
  stream or in a WebSocket frame (masked or not) arrives unchanged, that no descriptor leaks,
  and how discovery treats the datagrams.
\<close>

section \<open>Stream sockets\<close>

text \<open>\<open>nt_recv k\<close> and \<open>nt_send k\<close> bound the bytes moved by the \<open>k\<close>-th system call on the socket; zero
  makes the call fail.\<close>

record net =
  nt_recv :: "nat \<Rightarrow> nat"
  nt_send :: "nat \<Rightarrow> nat"

record sock =
  sk_in :: bytes
  sk_out :: bytes
  sk_ops :: nat

definition sys_recv :: "net \<Rightarrow> nat \<Rightarrow> sock \<Rightarrow> bytes option \<times> sock" where
  "sys_recv nt n sk =
     (let m = min (nt_recv nt (sk_ops sk)) (min n (length (sk_in sk)));
          sk = sk\<lparr>sk_ops := sk_ops sk + 1\<rparr>
      in if m = 0 then (None, sk) else (Some (take m (sk_in sk)), sk\<lparr>sk_in := drop m (sk_in sk)\<rparr>))"

definition sys_send :: "net \<Rightarrow> bytes \<Rightarrow> sock \<Rightarrow> nat option \<times> sock" where
  "sys_send nt buf sk =
     (let m = min (nt_send nt (sk_ops sk)) (length buf);
          sk = sk\<lparr>sk_ops := sk_ops sk + 1\<rparr>
      in if m = 0 then (None, sk) else (Some m, sk\<lparr>sk_out := sk_out sk @ take m buf\<rparr>))"

lemma sys_recv_Some:
  "sys_recv nt n sk = (Some r, sk') \<Longrightarrow>
   0 < length r \<and> length r \<le> n \<and> sk_in sk = r @ sk_in sk' \<and> sk_out sk' = sk_out sk"
  by (auto simp: sys_recv_def Let_def min_def split: if_splits)

lemma sys_send_Some:
  "sys_send nt buf sk = (Some w, sk') \<Longrightarrow>
   0 < w \<and> w \<le> length buf \<and> sk_out sk' = sk_out sk @ take w buf \<and> sk_in sk' = sk_in sk"
  by (auto simp: sys_send_def Let_def split: if_splits)

text \<open>\<open>got\<close> are the bytes already read into the buffer.\<close>

function read_exact :: "net \<Rightarrow> nat \<Rightarrow> bytes \<Rightarrow> sock \<Rightarrow> int \<times> bytes \<times> sock" where
  "read_exact nt n got sk =
     (if length got < n
      then case sys_recv nt (n - length got) sk of
             (None, sk) \<Rightarrow> (-1, got, sk)
           | (Some r, sk) \<Rightarrow> read_exact nt n (got @ r) sk
      else (0, got, sk))"
  by pat_completeness auto
termination
  by (relation "measure (\<lambda>(nt, n, got, sk). n - length got)")
     (auto dest!: sys_recv_Some [OF sym] intro: diff_less_mono2)

function write_exact :: "net \<Rightarrow> bytes \<Rightarrow> nat \<Rightarrow> sock \<Rightarrow> int \<times> sock" where
  "write_exact nt buf sent sk =
     (if sent < length buf
      then case sys_send nt (drop sent buf) sk of
             (None, sk) \<Rightarrow> (-1, sk)
           | (Some w, sk) \<Rightarrow> write_exact nt buf (sent + w) sk
      else (0, sk))"
  by pat_completeness auto
termination
  by (relation "measure (\<lambda>(nt, buf, sent, sk). length buf - sent)")
     (auto dest!: sys_send_Some [OF sym])

declare read_exact.simps [simp del] write_exact.simps [simp del]

section \<open>Peers and the context\<close>

abbreviation (input) KOE_RELAY_PORT_DEF :: u16 where "KOE_RELAY_PORT_DEF \<equiv> 9474"

datatype koe_transport_type =
    KOE_TRANSPORT_NONE | KOE_TRANSPORT_WIFI_DIRECT | KOE_TRANSPORT_BLUETOOTH
  | KOE_TRANSPORT_TCP_RELAY | KOE_TRANSPORT_WEBSOCKET

fun koe_transport_type_string :: "koe_transport_type \<Rightarrow> string" where
  "koe_transport_type_string KOE_TRANSPORT_WIFI_DIRECT = ''WiFi-Direct''"
| "koe_transport_type_string KOE_TRANSPORT_BLUETOOTH = ''Bluetooth''"
| "koe_transport_type_string KOE_TRANSPORT_TCP_RELAY = ''TCP-Relay''"
| "koe_transport_type_string KOE_TRANSPORT_WEBSOCKET = ''WebSocket''"
| "koe_transport_type_string KOE_TRANSPORT_NONE = ''None''"

record koe_peer =
  pe_pk :: bytes
  pe_addr :: string
  pe_port :: u16
  pe_fd :: int
  pe_transport :: koe_transport_type
  pe_reachable :: int
  pe_version :: koe_version
  pe_last_contact_us :: int

definition zero_peer :: koe_peer where
  "zero_peer = \<lparr>pe_pk = replicate 32 0, pe_addr = [], pe_port = 0, pe_fd = 0, pe_transport = KOE_TRANSPORT_NONE,
     pe_reachable = 0, pe_version = \<lparr>ver_major = 0, ver_minor = 0\<rparr>, pe_last_contact_us = 0\<rparr>"

record koe_transport_ctx =
  tc_listen_fd :: int
  tc_tcp_listen_fd :: int
  tc_ws_listen_fd :: int
  tc_relay_host :: string
  tc_relay_port :: u16
  tc_active :: koe_transport_type
  tc_bluetooth_enabled :: int

text \<open>The descriptors open in the process. \<open>fd\<close> is the result of \<open>socket\<close> or \<open>accept\<close>.\<close>

type_synonym fds = "int set"

definition sys_open :: "int \<Rightarrow> fds \<Rightarrow> fds" where
  "sys_open fd s = (if fd < 0 then s else insert fd s)"

definition sys_close :: "int \<Rightarrow> fds \<Rightarrow> fds" where
  "sys_close fd s = s - {fd}"

text \<open>A listening stream socket: \<open>fd\<close> from \<open>socket\<close>, \<open>ok\<close> when both \<open>bind\<close> and \<open>listen\<close> succeed.\<close>

definition open_listener :: "int \<Rightarrow> bool \<Rightarrow> fds \<Rightarrow> int \<times> fds" where
  "open_listener fd ok s =
     (let s = sys_open fd s
      in if fd \<ge> 0 then (if ok then (fd, s) else (-1, sys_close fd s)) else (fd, s))"

text \<open>\<open>udp\<close>, \<open>tcp\<close> and \<open>ws\<close> are the results of the three \<open>socket\<close> calls. A failing bind of the
  discovery socket is only reported.\<close>

definition koe_transport_init ::
  "int \<Rightarrow> int \<times> bool \<Rightarrow> int \<times> bool \<Rightarrow> string ptr \<Rightarrow> u16 \<Rightarrow> int \<Rightarrow> fds \<Rightarrow> int \<times> koe_transport_ctx \<times> fds" where
  "koe_transport_init udp tcp ws relay_host relay_port ws_port s =
     (let ctx = \<lparr>tc_listen_fd = -1, tc_tcp_listen_fd = -1, tc_ws_listen_fd = -1, tc_relay_host = [], tc_relay_port = 0,
                 tc_active = KOE_TRANSPORT_NONE, tc_bluetooth_enabled = 0\<rparr>;
          ctx = (case relay_host of
                   Some h \<Rightarrow> ctx\<lparr>tc_relay_host := strncpy_str 255 h,
                               tc_relay_port := (if relay_port \<noteq> 0 then relay_port else KOE_RELAY_PORT_DEF)\<rparr>
                 | NULL \<Rightarrow> ctx);
          ctx = ctx\<lparr>tc_listen_fd := udp\<rparr>;
          s = sys_open udp s
      in if tc_listen_fd ctx < 0 then (-1, ctx, s)
         else
           let (fd, s) = open_listener (fst tcp) (snd tcp) s;
               ctx = ctx\<lparr>tc_tcp_listen_fd := fd\<rparr>
           in if ws_port > 0
              then let (fd, s) = open_listener (fst ws) (snd ws) s
                   in (0, ctx\<lparr>tc_ws_listen_fd := fd\<rparr>, s)
              else (0, ctx, s))"

definition koe_transport_shutdown :: "koe_transport_ctx \<Rightarrow> fds \<Rightarrow> koe_transport_ctx \<times> fds" where
  "koe_transport_shutdown ctx s =
     (let (ctx, s) = (if tc_listen_fd ctx \<ge> 0 then (ctx\<lparr>tc_listen_fd := -1\<rparr>, sys_close (tc_listen_fd ctx) s) else (ctx, s));
          (ctx, s) = (if tc_tcp_listen_fd ctx \<ge> 0 then (ctx\<lparr>tc_tcp_listen_fd := -1\<rparr>, sys_close (tc_tcp_listen_fd ctx) s) else (ctx, s));
          (ctx, s) = (if tc_ws_listen_fd ctx \<ge> 0 then (ctx\<lparr>tc_ws_listen_fd := -1\<rparr>, sys_close (tc_ws_listen_fd ctx) s) else (ctx, s))
      in (ctx, s))"

section \<open>Connections\<close>

text \<open>\<open>fd1\<close> and \<open>fd2\<close> are the results of the two \<open>socket\<close> calls, \<open>pton\<close> tells whether the address
  parses, \<open>conn1\<close> and \<open>conn2\<close> whether the connections succeed, \<open>resolved\<close> whether the relay's
  name resolves.\<close>

record connect_env =
  ce_fd1 :: int
  ce_pton :: bool
  ce_conn1 :: bool
  ce_fd2 :: int
  ce_resolved :: bool
  ce_conn2 :: bool

definition try_relay :: "connect_env \<Rightarrow> koe_transport_ctx \<Rightarrow> koe_peer \<Rightarrow> fds \<Rightarrow> int \<times> koe_peer \<times> fds" where
  "try_relay env ctx peer s =
     (if tc_relay_host ctx = [] then (-1, peer, s)
      else
        let fd = ce_fd2 env; s = sys_open fd s
        in if fd < 0 then (-1, peer, s)
           else if \<not> ce_resolved env then (-1, peer, sys_close fd s)
           else if \<not> ce_conn2 env then (-1, peer, sys_close fd s)
           else (0, peer\<lparr>pe_fd := fd, pe_transport := KOE_TRANSPORT_TCP_RELAY, pe_reachable := 1\<rparr>, s))"

definition koe_transport_connect :: "connect_env \<Rightarrow> koe_transport_ctx \<Rightarrow> koe_peer \<Rightarrow> fds \<Rightarrow> int \<times> koe_peer \<times> fds" where
  "koe_transport_connect env ctx peer s =
     (let fd = ce_fd1 env; s = sys_open fd s
      in if fd < 0 then (-1, peer, s)
         else if \<not> ce_pton env then try_relay env ctx peer (sys_close fd s)
         else if ce_conn1 env
         then (0, peer\<lparr>pe_fd := fd, pe_transport := KOE_TRANSPORT_WIFI_DIRECT, pe_reachable := 1\<rparr>, s)
         else try_relay env ctx peer (sys_close fd s))"

text \<open>\<open>fd\<close>, \<open>addr\<close> and \<open>port\<close> come from \<open>accept\<close>.\<close>

definition koe_transport_accept ::
  "int \<Rightarrow> string \<Rightarrow> u16 \<Rightarrow> koe_transport_ctx \<Rightarrow> koe_peer \<Rightarrow> fds \<Rightarrow> int \<times> koe_peer \<times> fds" where
  "koe_transport_accept fd addr port ctx peer s =
     (if tc_tcp_listen_fd ctx < 0 then (-1, peer, s)
      else if fd < 0 then (-1, peer, s)
      else (0, zero_peer\<lparr>pe_fd := fd, pe_port := port, pe_transport := KOE_TRANSPORT_WIFI_DIRECT,
                        pe_reachable := 1, pe_addr := addr\<rparr>, sys_open fd s))"

definition koe_transport_disconnect :: "koe_peer \<Rightarrow> fds \<Rightarrow> koe_peer \<times> fds" where
  "koe_transport_disconnect peer s =
     (let (peer, s) = (if pe_fd peer \<ge> 0 then (peer\<lparr>pe_fd := -1\<rparr>, sys_close (pe_fd peer) s) else (peer, s))
      in (peer\<lparr>pe_reachable := 0\<rparr>, s))"

section \<open>Framing\<close>

text \<open>The contents of a fresh buffer are \<open>junk\<close>. \<open>None\<close> means that the serialiser wrote past
  the end of the buffer.\<close>

definition koe_transport_send ::
  "net \<Rightarrow> alloc \<Rightarrow> (nat \<Rightarrow> byte) \<Rightarrow> koe_peer \<Rightarrow> koe_packet \<Rightarrow> sock \<Rightarrow> (int \<times> sock) option" where
  "koe_transport_send nt mal junk peer pkt sk =
     (if pe_fd peer < 0 then Some (-1, sk)
      else
        let n = unat (of_nat KOE_HEADER_SIZE + h_length (header pkt))
        in if \<not> mal 0 then Some (-1, sk)
           else case koe_packet_serialise pkt (map junk [0..<n]) of
             (rc, buf) \<Rightarrow>
               if length buf \<noteq> n then None
               else if rc < 0 then Some (-1, sk)
               else case write_exact nt (be32 (of_nat n)) 0 sk of
                 (rc, sk) \<Rightarrow>
                   if rc \<noteq> 0 then Some (-1, sk)
                   else case write_exact nt buf 0 sk of
                     (rc, sk) \<Rightarrow> Some (if rc \<noteq> 0 then -1 else 0, sk))"

definition koe_transport_recv ::
  "net \<Rightarrow> alloc \<Rightarrow> koe_peer \<Rightarrow> koe_packet \<Rightarrow> sock \<Rightarrow> int \<times> koe_packet \<times> sock" where
  "koe_transport_recv nt mal peer pkt sk =
     (if pe_fd peer < 0 then (-1, pkt, sk)
      else case read_exact nt 4 [] sk of
        (rc, len_be, sk) \<Rightarrow>
          if rc \<noteq> 0 then (-1, pkt, sk)
          else
            let n = unat (be32_dec len_be)
            in if n < KOE_HEADER_SIZE \<or> n > KOE_HEADER_SIZE + KOE_MAX_PAYLOAD then (-1, pkt, sk)
               else if \<not> mal 0 then (-1, pkt, sk)
               else case read_exact nt n [] sk of
                 (rc, buf, sk) \<Rightarrow>
                   if rc \<noteq> 0 then (-1, pkt, sk)
                   else case koe_packet_deserialise (\<lambda>i. mal (Suc i)) pkt buf of
                     (rc, pkt) \<Rightarrow> (rc, pkt, sk))"

section \<open>WebSocket frames\<close>

definition ws_header :: "nat \<Rightarrow> bytes" where
  "ws_header payload_len =
     0x82 # (if payload_len \<le> 125 then [of_nat payload_len]
             else if payload_len \<le> 65535
             then [126, of_nat (payload_len div 2 ^ 8), of_nat (payload_len mod 256)]
             else 127 # map (\<lambda>i. of_nat (payload_len div 2 ^ (56 - 8 * i))) [0..<8])"

definition koe_transport_ws_send ::
  "net \<Rightarrow> alloc \<Rightarrow> (nat \<Rightarrow> byte) \<Rightarrow> koe_packet \<Rightarrow> sock \<Rightarrow> (int \<times> sock) option" where
  "koe_transport_ws_send nt mal junk pkt sk =
     (let payload_len = unat (of_nat KOE_HEADER_SIZE + h_length (header pkt))
      in if \<not> mal 0 then Some (-1, sk)
         else
           let buf = snd (koe_packet_serialise pkt (map junk [0..<payload_len]))
           in if length buf \<noteq> payload_len then None
              else
                let sk = snd (write_exact nt (ws_header payload_len) 0 sk);
                    sk = snd (write_exact nt buf 0 sk)
                in Some (0, sk))"

text \<open>The length field of a frame: its code, then 2 or 8 bytes most significant first.\<close>

definition ws_length :: "net \<Rightarrow> byte \<Rightarrow> sock \<Rightarrow> u64 option \<times> sock" where
  "ws_length nt b sk =
     (let payload_len = (ucast (b AND 0x7F) :: u64)
      in if payload_len = 126
         then case read_exact nt 2 [] sk of
           (rc, ext, sk) \<Rightarrow> if rc \<noteq> 0 then (None, sk)
             else (Some (push_bit 8 (ucast (ext ! 0)) OR ucast (ext ! 1)), sk)
         else if payload_len = 127
         then case read_exact nt 8 [] sk of
           (rc, ext, sk) \<Rightarrow> if rc \<noteq> 0 then (None, sk)
             else (Some (foldl (\<lambda>n e. push_bit 8 n OR ucast e) 0 ext), sk)
         else (Some payload_len, sk))"

definition ws_unmask :: "bytes \<Rightarrow> bytes \<Rightarrow> bytes" where
  "ws_unmask mask_key buf = map (\<lambda>i. buf ! i XOR mask_key ! (i mod 4)) [0..<length buf]"

definition koe_transport_ws_recv :: "net \<Rightarrow> alloc \<Rightarrow> koe_packet \<Rightarrow> sock \<Rightarrow> int \<times> koe_packet \<times> sock" where
  "koe_transport_ws_recv nt mal pkt sk =
     (case read_exact nt 2 [] sk of
        (rc, hdr, sk) \<Rightarrow>
          if rc \<noteq> 0 then (-1, pkt, sk)
          else
            let masked = (hdr ! 1 AND 0x80 \<noteq> 0)
            in case ws_length nt (hdr ! 1) sk of
              (None, sk) \<Rightarrow> (-1, pkt, sk)
            | (Some payload_len, sk) \<Rightarrow>
                case (if masked then read_exact nt 4 [] sk else (0, replicate 4 0, sk)) of
                  (rc, mask_key, sk) \<Rightarrow>
                    if rc \<noteq> 0 then (-1, pkt, sk)
                    else if unat payload_len > KOE_HEADER_SIZE + KOE_MAX_PAYLOAD then (-1, pkt, sk)
                    else if \<not> mal 0 then (-1, pkt, sk)
                    else case read_exact nt (unat payload_len) [] sk of
                      (rc, buf, sk) \<Rightarrow>
                        if rc \<noteq> 0 then (-1, pkt, sk)
                        else
                          let buf = (if masked then ws_unmask mask_key buf else buf)
                          in case koe_packet_deserialise (\<lambda>i. mal (Suc i)) pkt buf of
                            (rc, pkt) \<Rightarrow> (rc, pkt, sk))"

text \<open>The answer to a WebSocket upgrade. \<open>strstr\<close> gives the suffix that starts with the first
  occurrence; the request is the text before its first NUL.\<close>

fun strstr :: "string \<Rightarrow> string \<Rightarrow> string option" where
  "strstr hay needle =
     (if take (length needle) hay = needle then Some hay
      else case hay of [] \<Rightarrow> None | c # cs \<Rightarrow> strstr cs needle)"

declare strstr.simps [simp del]

abbreviation (input) CRLF :: string where "CRLF \<equiv> [CHR 0x0D, CHR 0x0A]"

definition ws_response :: string where
  "ws_response =
     ''HTTP/1.1 101 Switching Protocols'' @ CRLF @ ''Upgrade: websocket'' @ CRLF @ ''Connection: Upgrade'' @ CRLF
     @ ''Sec-WebSocket-Accept: '' @ ''dGhlIHNhbXBsZSBub25jZQ=='' @ CRLF @ CRLF"

definition ws_key :: "string \<Rightarrow> string option" where
  "ws_key http = (case strstr http ''Sec-WebSocket-Key:'' of
     None \<Rightarrow> None
   | Some h \<Rightarrow> Some (take 63 (takeWhile (\<lambda>c. c \<noteq> CHR 0x0D) (dropWhile (\<lambda>c. c = CHR '' '') (drop 18 h)))))"

text \<open>\<open>fd\<close> is the result of \<open>accept\<close>, \<open>sk\<close> the accepted socket; the reply is one call of \<open>send\<close> whose
  result is ignored.\<close>

definition koe_transport_ws_accept ::
  "net \<Rightarrow> int \<Rightarrow> koe_transport_ctx \<Rightarrow> sock \<Rightarrow> fds \<Rightarrow> int \<times> sock \<times> fds" where
  "koe_transport_ws_accept nt fd ctx sk s =
     (if tc_ws_listen_fd ctx < 0 then (-1, sk, s)
      else if fd < 0 then (-1, sk, s)
      else
        let s = sys_open fd s
        in case sys_recv nt 2047 sk of
             (None, sk) \<Rightarrow> (-1, sk, sys_close fd s)
           | (Some req, sk) \<Rightarrow>
               let http = takeWhile (\<lambda>c. c \<noteq> CHR 0x00) (map (\<lambda>b. char_of (unat b)) req)
               in case ws_key http of
                    None \<Rightarrow> (-1, sk, sys_close fd s)
                  | Some key \<Rightarrow> (fd, snd (sys_send nt (str_bytes (snprintf_str 512 ws_response)) sk), s))"

section \<open>Discovery\<close>

definition DISCO_MAGIC :: bytes where
  "DISCO_MAGIC = str_bytes ''KDSC''"

definition disco_payload :: "koe_identity \<Rightarrow> bytes" where
  "disco_payload local_id = DISCO_MAGIC @ id_pk local_id @ [KOE_PROTO_MAJOR, KOE_PROTO_MINOR]"

definition disco_peer :: "bytes \<Rightarrow> string \<Rightarrow> koe_peer" where
  "disco_peer reply addr =
     zero_peer\<lparr>pe_pk := mem_read 4 32 reply, pe_addr := addr, pe_port := KOE_RELAY_PORT_DEF, pe_fd := -1,
       pe_transport := KOE_TRANSPORT_WIFI_DIRECT,
       pe_version := \<lparr>ver_major = reply ! 36, ver_minor = reply ! 37\<rparr>, pe_reachable := 1\<rparr>"

text \<open>The datagrams that arrive while \<open>select\<close> waits, with their senders; \<open>recvfrom\<close> cuts a longer
  datagram to 38 bytes. The result are the peers reported to the callback.\<close>

fun disco_loop :: "bytes \<Rightarrow> (bytes \<times> string) list \<Rightarrow> koe_peer list" where
  "disco_loop pk [] = []"
| "disco_loop pk ((dgram, addr) # rest) =
     (let reply = take 38 dgram
      in if length reply \<noteq> 38 then []
         else if take 4 reply \<noteq> DISCO_MAGIC then []
         else if mem_read 4 32 reply = pk then []
         else disco_peer reply addr # disco_loop pk rest)"

text \<open>The return code, the broadcast datagrams and the reported peers.\<close>

definition koe_transport_discover ::
  "koe_transport_ctx \<Rightarrow> koe_identity \<Rightarrow> (bytes \<times> string) list \<Rightarrow> int \<times> bytes list \<times> koe_peer list" where
  "koe_transport_discover ctx local_id dgrams =
     (if tc_listen_fd ctx < 0 then (-1, [], [])
      else (0, [disco_payload local_id], disco_loop (id_pk local_id) dgrams))"

text \<open>The next datagram, if the call gets one; the result are the return code, the replies to its
  sender and the reported peers.\<close>

definition koe_transport_handle_discovery ::
  "koe_transport_ctx \<Rightarrow> koe_identity \<Rightarrow> (bytes \<times> string) option \<Rightarrow> int \<times> bytes list \<times> koe_peer list" where
  "koe_transport_handle_discovery ctx local_id dgram =
     (if tc_listen_fd ctx < 0 then (-1, [], [])
      else case dgram of
        None \<Rightarrow> (-1, [], [])
      | Some (d, addr) \<Rightarrow>
          let buf = take 38 d
          in if length buf \<noteq> 38 then (-1, [], [])
             else if take 4 buf \<noteq> DISCO_MAGIC then (-1, [], [])
             else if mem_read 4 32 buf = id_pk local_id then (0, [], [])
             else (0, [disco_payload local_id], [disco_peer buf addr]))"

definition koe_transport_fd_set :: "koe_transport_ctx \<Rightarrow> fds \<Rightarrow> int \<times> fds" where
  "koe_transport_fd_set ctx fds =
     (let maxfd = -1;
          (maxfd, fds) = (if tc_listen_fd ctx \<ge> 0 then (max maxfd (tc_listen_fd ctx), insert (tc_listen_fd ctx) fds) else (maxfd, fds));
          (maxfd, fds) = (if tc_tcp_listen_fd ctx \<ge> 0 then (max maxfd (tc_tcp_listen_fd ctx), insert (tc_tcp_listen_fd ctx) fds) else (maxfd, fds));
          (maxfd, fds) = (if tc_ws_listen_fd ctx \<ge> 0 then (max maxfd (tc_ws_listen_fd ctx), insert (tc_ws_listen_fd ctx) fds) else (maxfd, fds))
      in (maxfd, fds))"

section \<open>Reading and writing whole buffers\<close>

text \<open>A connection on which no system call fails.\<close>

definition link_ok :: "net \<Rightarrow> bool" where
  "link_ok nt \<longleftrightarrow> (\<forall>k. 0 < nt_recv nt k \<and> 0 < nt_send nt k)"

lemma read_exact_sound:
  "read_exact nt n got sk = (0, buf, sk') \<Longrightarrow> length got \<le> n \<Longrightarrow>
   sk_in sk = drop (length got) buf @ sk_in sk' \<and> length buf = n \<and> take (length got) buf = got \<and> sk_out sk' = sk_out sk"
proof (induction nt n got sk rule: read_exact.induct)
  case (1 nt n got sk)
  show ?case
  proof (cases "length got < n")
    case True
    then obtain r sk1 where r: "sys_recv nt (n - length got) sk = (Some r, sk1)"
      and step: "read_exact nt n (got @ r) sk1 = (0, buf, sk')"
      using "1.prems"(1) by (auto simp: read_exact.simps [of nt n got] split: prod.splits option.splits)
    note r' = sys_recv_Some [OF r]
    have IH: "sk_in sk1 = drop (length (got @ r)) buf @ sk_in sk'" "length buf = n"
      "take (length (got @ r)) buf = got @ r" "sk_out sk' = sk_out sk1"
      using "1.IH" [OF True r [symmetric] refl step] r' True by auto
    have b: "buf = got @ r @ drop (length (got @ r)) buf"
      using append_take_drop_id [of "length (got @ r)" buf, unfolded IH(3), symmetric] by (simp only: append_assoc)
    have "drop (length got) buf = r @ drop (length (got @ r)) buf"
      using arg_cong [OF b, of "drop (length got)"] by simp
    moreover have "take (length got) buf = got"
      using arg_cong [OF b, of "take (length got)"] by simp
    ultimately show ?thesis using IH r' by simp
  next
    case False
    then show ?thesis using "1.prems" by (simp add: read_exact.simps)
  qed
qed

lemma read_exact_returns:
  "link_ok nt \<Longrightarrow> n - length got \<le> length (sk_in sk) \<Longrightarrow> \<exists>buf ops. read_exact nt n got sk
     = (0, buf, sk\<lparr>sk_in := drop (n - length got) (sk_in sk), sk_ops := ops\<rparr>)"
proof (induction nt n got sk rule: read_exact.induct)
  case (1 nt n got sk)
  show ?case
  proof (cases "length got < n")
    case True
    define m where "m = min (nt_recv nt (sk_ops sk)) (n - length got)"
    have m: "0 < m" "m \<le> n - length got" "m \<le> length (sk_in sk)"
      using True "1.prems" by (auto simp: m_def link_ok_def min_def)
    have r: "sys_recv nt (n - length got) sk
        = (Some (take m (sk_in sk)), sk\<lparr>sk_in := drop m (sk_in sk), sk_ops := Suc (sk_ops sk)\<rparr>)"
      using m "1.prems"(2) by (simp add: sys_recv_def Let_def m_def min_def)
    have "n - length (got @ take m (sk_in sk)) \<le> length (drop m (sk_in sk))"
      using "1.prems"(2) m by simp
    then obtain buf ops where "read_exact nt n (got @ take m (sk_in sk)) (sk\<lparr>sk_in := drop m (sk_in sk), sk_ops := Suc (sk_ops sk)\<rparr>)
        = (0, buf, sk\<lparr>sk_in := drop (n - length got) (sk_in sk), sk_ops := ops\<rparr>)"
      using "1.IH" [OF True r [symmetric] refl "1.prems"(1)] m by auto
    then show ?thesis using True r by (subst read_exact.simps) auto
  next
    case False
    then have "read_exact nt n got sk = (0, got, sk\<lparr>sk_in := drop (n - length got) (sk_in sk), sk_ops := sk_ops sk\<rparr>)"
      by (subst read_exact.simps) simp
    then show ?thesis by blast
  qed
qed

text \<open>However the kernel splits the data, a read returns the next bytes of the stream.\<close>

lemma read_exact_ok:
  assumes "link_ok nt" "sk_in sk = xs @ rest" "length xs = n"
  shows "\<exists>ops. read_exact nt n [] sk = (0, xs, sk\<lparr>sk_in := rest, sk_ops := ops\<rparr>)"
proof -
  obtain buf ops where r: "read_exact nt n [] sk = (0, buf, sk\<lparr>sk_in := rest, sk_ops := ops\<rparr>)"
    using read_exact_returns [OF assms(1), of n "[]" sk] assms(2,3) by auto
  from read_exact_sound [OF r] assms(2,3) have "buf = xs" by simp
  with r show ?thesis by blast
qed

lemma write_exact_ok:
  "link_ok nt \<Longrightarrow> \<exists>ops. write_exact nt buf sent sk
     = (0, sk\<lparr>sk_out := sk_out sk @ drop sent buf, sk_ops := ops\<rparr>)"
proof (induction nt buf sent sk rule: write_exact.induct)
  case (1 nt buf sent sk)
  show ?case
  proof (cases "sent < length buf")
    case True
    define m where "m = min (nt_send nt (sk_ops sk)) (length buf - sent)"
    have m: "0 < m" using True "1.prems" by (simp add: m_def link_ok_def)
    let ?sk = "sk\<lparr>sk_out := sk_out sk @ take m (drop sent buf), sk_ops := Suc (sk_ops sk)\<rparr>"
    have r: "sys_send nt (drop sent buf) sk = (Some m, ?sk)"
      using m by (simp add: sys_send_def Let_def m_def)
    obtain ops where "write_exact nt buf (sent + m) ?sk
        = (0, ?sk\<lparr>sk_out := sk_out ?sk @ drop (sent + m) buf, sk_ops := ops\<rparr>)"
      using "1.IH" [OF True r [symmetric] refl "1.prems"] by blast
    moreover have "take m (drop sent buf) @ drop (sent + m) buf = drop sent buf"
      by (metis append_take_drop_id drop_drop add.commute)
    ultimately show ?thesis using True r by (subst write_exact.simps) auto
  next
    case False
    then have "write_exact nt buf sent sk = (0, sk\<lparr>sk_out := sk_out sk @ drop sent buf, sk_ops := sk_ops sk\<rparr>)"
      by (subst write_exact.simps) simp
    then show ?thesis by blast
  qed
qed

section \<open>Streams of packets\<close>

fun send_all :: "('p \<Rightarrow> sock \<Rightarrow> (int \<times> sock) option) \<Rightarrow> 'p list \<Rightarrow> sock \<Rightarrow> sock option" where
  "send_all send [] sk = Some sk"
| "send_all send (p # ps) sk =
     (case send p sk of Some (rc, sk) \<Rightarrow> if rc = 0 then send_all send ps sk else None | None \<Rightarrow> None)"

fun recv_all :: "(sock \<Rightarrow> int \<times> 'p \<times> sock) \<Rightarrow> nat \<Rightarrow> sock \<Rightarrow> ('p list \<times> sock) option" where
  "recv_all recv 0 sk = Some ([], sk)"
| "recv_all recv (Suc n) sk =
     (case recv sk of (rc, p, sk) \<Rightarrow>
        if rc = 0 then map_option (apfst ((#) p)) (recv_all recv n sk) else None)"

text \<open>What a user of a packet stream relies on: a send appends the frame of the packet, a
  receive takes one frame off the front and gives its packet.\<close>

locale packet_stream =
  fixes good :: "'p \<Rightarrow> bool" and frame :: "'p \<Rightarrow> bytes"
    and send :: "'p \<Rightarrow> sock \<Rightarrow> (int \<times> sock) option"
    and recv :: "sock \<Rightarrow> int \<times> 'p \<times> sock"
  assumes send_frame: "good p \<Longrightarrow> \<exists>ops. send p sk = Some (0, sk\<lparr>sk_out := sk_out sk @ frame p, sk_ops := ops\<rparr>)"
    and recv_frame: "good p \<Longrightarrow> sk_in sk = frame p @ rest \<Longrightarrow> \<exists>ops. recv sk = (0, p, sk\<lparr>sk_in := rest, sk_ops := ops\<rparr>)"
begin

lemma send_all_frames:
  "\<forall>p\<in>set ps. good p \<Longrightarrow> \<exists>ops. send_all send ps sk
     = Some (sk\<lparr>sk_out := sk_out sk @ concat (map frame ps), sk_ops := ops\<rparr>)"
proof (induction ps arbitrary: sk)
  case Nil
  have "send_all send [] sk = Some (sk\<lparr>sk_out := sk_out sk @ concat (map frame []), sk_ops := sk_ops sk\<rparr>)" by simp
  then show ?case by blast
next
  case (Cons p ps)
  obtain ops where ops: "send p sk = Some (0, sk\<lparr>sk_out := sk_out sk @ frame p, sk_ops := ops\<rparr>)"
    using send_frame [of p sk] Cons.prems by auto
  from Cons.IH [of "sk\<lparr>sk_out := sk_out sk @ frame p, sk_ops := ops\<rparr>"] Cons.prems ops show ?case by auto
qed

lemma recv_all_frames:
  "\<forall>p\<in>set ps. good p \<Longrightarrow> sk_in sk = concat (map frame ps) @ rest \<Longrightarrow>
   \<exists>ops. recv_all recv (length ps) sk = Some (ps, sk\<lparr>sk_in := rest, sk_ops := ops\<rparr>)"
proof (induction ps arbitrary: sk)
  case Nil
  then have "recv_all recv (length []) sk = Some ([], sk\<lparr>sk_in := rest, sk_ops := sk_ops sk\<rparr>)" by simp
  then show ?case by blast
next
  case (Cons p ps)
  obtain ops where ops: "recv sk = (0, p, sk\<lparr>sk_in := concat (map frame ps) @ rest, sk_ops := ops\<rparr>)"
    using recv_frame [of p sk "concat (map frame ps) @ rest"] Cons.prems by auto
  from Cons.IH [of "sk\<lparr>sk_in := concat (map frame ps) @ rest, sk_ops := ops\<rparr>"] Cons.prems ops show ?case by auto
qed

text \<open>What one end sends the other end receives.\<close>

lemma stream_roundtrip:
  assumes "\<forall>p\<in>set ps. good p" and "sk_out a = []"
  shows "\<exists>a' b'. send_all send ps a = Some a' \<and> (sk_in b = sk_out a' @ rest \<longrightarrow>
    recv_all recv (length ps) b = Some (ps, b') \<and> sk_in b' = rest)"
proof -
  obtain ops where a: "send_all send ps a = Some (a\<lparr>sk_out := concat (map frame ps), sk_ops := ops\<rparr>)"
    using send_all_frames [OF assms(1), of a] assms(2) by auto
  show ?thesis
  proof (cases "sk_in b = concat (map frame ps) @ rest")
    case True
    from recv_all_frames [OF assms(1) True] a show ?thesis by auto
  qed (use a in auto)
qed

end

definition tcp_frame :: "koe_packet \<Rightarrow> bytes" where
  "tcp_frame p = be32 (of_nat (packet_size p)) @ wire_image p"

definition ws_frame :: "koe_packet \<Rightarrow> bytes" where
  "ws_frame p = ws_header (packet_size p) @ wire_image p"

text \<open>The packets a working link carries.\<close>

definition sendable :: "net \<Rightarrow> alloc \<Rightarrow> koe_packet \<Rightarrow> bool" where
  "sendable nt mal p \<longleftrightarrow> link_ok nt \<and> (\<forall>i. mal i) \<and> wire_packet p"

lemma sendable_serialise:
  assumes "wire_packet p"
  shows "unat (of_nat KOE_HEADER_SIZE + h_length (header p)) = packet_size p"
    and "length buf = packet_size p \<Longrightarrow> koe_packet_serialise p buf = (int (packet_size p), wire_image p)"
    and "length (wire_image p) = packet_size p"
    and "106 \<le> packet_size p" "packet_size p \<le> 106 + 1024 * 1024"
proof -
  have "unat (h_length (header p)) \<le> 1024 * 1024" using assms by (simp add: wire_packet_def)
  then show "unat (of_nat KOE_HEADER_SIZE + h_length (header p)) = packet_size p"
    "106 \<le> packet_size p" "packet_size p \<le> 106 + 1024 * 1024"
    by (simp_all add: packet_size_def unat_word_ariths)
  show len: "length (wire_image p) = packet_size p"
    using assms by (simp add: length_wire_image wire_packet_def)
  show "koe_packet_serialise p buf = (int (packet_size p), wire_image p)" if "length buf = packet_size p"
    using pkt.ser_exact [OF assms, of buf] that len by simp
qed

lemma transport_send_frame:
  assumes "sendable nt mal p" "0 \<le> pe_fd peer"
  shows "\<exists>ops. koe_transport_send nt mal junk peer p sk
    = Some (0, sk\<lparr>sk_out := sk_out sk @ tcp_frame p, sk_ops := ops\<rparr>)"
proof -
  have ok: "link_ok nt" "mal 0" "wire_packet p" using assms(1) by (auto simp: sendable_def)
  note ser = sendable_serialise [OF ok(3)]
  obtain o1 where w1: "write_exact nt (be32 (of_nat (packet_size p))) 0 sk
      = (0, sk\<lparr>sk_out := sk_out sk @ be32 (of_nat (packet_size p)), sk_ops := o1\<rparr>)"
    using write_exact_ok [OF ok(1), of "be32 (of_nat (packet_size p))" 0 sk] by auto
  obtain o2 where w2: "write_exact nt (wire_image p) 0 (sk\<lparr>sk_out := sk_out sk @ be32 (of_nat (packet_size p)), sk_ops := o1\<rparr>)
      = (0, sk\<lparr>sk_out := sk_out sk @ tcp_frame p, sk_ops := o2\<rparr>)"
    using write_exact_ok [OF ok(1), of "wire_image p" 0 "sk\<lparr>sk_out := sk_out sk @ be32 (of_nat (packet_size p)), sk_ops := o1\<rparr>"]
    by (auto simp: tcp_frame_def)
  show ?thesis using assms(2) ok w1 w2 ser by (auto simp: koe_transport_send_def Let_def)
qed

lemma transport_recv_frame:
  assumes "sendable nt mal p" "0 \<le> pe_fd peer" "sk_in sk = tcp_frame p @ rest"
  shows "\<exists>ops. koe_transport_recv nt mal peer q sk = (0, p, sk\<lparr>sk_in := rest, sk_ops := ops\<rparr>)"
proof -
  have ok: "link_ok nt" "mal 0" "mal (Suc 0)" "wire_packet p" using assms(1) by (auto simp: sendable_def)
  note ser = sendable_serialise [OF ok(4)]
  obtain o1 where r1: "read_exact nt 4 [] sk
      = (0, be32 (of_nat (packet_size p)), sk\<lparr>sk_in := wire_image p @ rest, sk_ops := o1\<rparr>)"
    using read_exact_ok [OF ok(1), of sk "be32 (of_nat (packet_size p))" "wire_image p @ rest" 4] assms(3)
    by (auto simp: tcp_frame_def)
  obtain o2 where r2: "read_exact nt (packet_size p) [] (sk\<lparr>sk_in := wire_image p @ rest, sk_ops := o1\<rparr>)
      = (0, wire_image p, sk\<lparr>sk_in := rest, sk_ops := o2\<rparr>)"
    using read_exact_ok [OF ok(1), of "sk\<lparr>sk_in := wire_image p @ rest, sk_ops := o1\<rparr>" "wire_image p" rest] ser(3)
    by auto
  have n: "unat (of_nat (packet_size p) :: u32) = packet_size p"
    using ser(5) by (intro unat_of_nat_small) simp
  have "koe_packet_deserialise (\<lambda>i. mal (Suc i)) q (wire_image p) = (0, p)"
    using pkt.par_img [OF ok(4), of "\<lambda>i. mal (Suc i)" q "[]"] ok(3) by simp
  then show ?thesis using assms(2) ok r1 r2 n ser(4,5) by (auto simp: koe_transport_recv_def Let_def)
qed

interpretation tcp: packet_stream "\<lambda>p. sendable nt mal p \<and> 0 \<le> pe_fd peer" tcp_frame
  "koe_transport_send nt mal junk peer" "koe_transport_recv nt mal peer q"
  for nt mal junk peer q
  by unfold_locales (simp_all add: transport_send_frame transport_recv_frame)

section \<open>WebSocket framing\<close>

definition ws_code :: "nat \<Rightarrow> byte" where
  "ws_code n = (if n \<le> 125 then of_nat n else if n \<le> 65535 then 126 else 127)"

definition ws_ext :: "nat \<Rightarrow> bytes" where
  "ws_ext n = (if n \<le> 125 then [] else if n \<le> 65535 then be16 (of_nat n) else be64 (of_nat n))"

lemma ws_header_eq: "ws_header n = [0x82, ws_code n] @ ws_ext n"
proof -
  have "map (\<lambda>i. of_nat (n div 2 ^ (56 - 8 * i))) [0..<8] = be64 (of_nat n)"
    by (simp add: be64_def le_enc_def upt_rec drop_bit_eq_div [symmetric])
       (intro conjI; rule bit_word_eqI; simp add: bit_simps)
  moreover have "n div 2 ^ 8 = drop_bit 8 n" "n mod 256 = take_bit 8 n"
    by (simp_all add: drop_bit_eq_div take_bit_eq_mod)
  then have "[of_nat (n div 2 ^ 8), of_nat (n mod 256)] = be16 (of_nat n)"
    by (simp only:) (simp add: be16_def le_enc_def upt_rec, intro conjI bit_word_eqI; simp add: bit_simps)
  ultimately show ?thesis by (simp add: ws_header_def ws_code_def ws_ext_def)
qed

lemma foldl_be64: "foldl (\<lambda>n e. push_bit 8 n OR ucast e) 0 bs = (le_dec (rev bs) :: u64)"
  by (induction bs rule: rev_induct) (simp_all add: or.commute)

lemma ws_length_ok:
  assumes "link_ok nt" "n \<le> 106 + 1024 * 1024" "b AND 0x7F = ws_code n" "sk_in sk = ws_ext n @ rest"
  shows "\<exists>ops. ws_length nt b sk = (Some (of_nat n), sk\<lparr>sk_in := rest, sk_ops := ops\<rparr>)"
proof -
  consider "n \<le> 125" | "125 < n" "n \<le> 65535" | "65535 < n" by linarith
  then show ?thesis
  proof cases
    case 1
    then have c: "(ucast (ws_code n) :: u64) = of_nat n" "sk_in sk = rest"
      using assms(4) by (simp_all add: ws_code_def ws_ext_def unsigned_of_nat take_bit_nat_eq_self)
    have "unat (of_nat n :: u64) = n" using 1 by (intro unat_of_nat_small) simp
    then have "(of_nat n :: u64) \<noteq> 126" "(of_nat n :: u64) \<noteq> 127" using 1 by auto
    then have "ws_length nt b sk = (Some (of_nat n), sk\<lparr>sk_in := rest, sk_ops := sk_ops sk\<rparr>)"
      using c assms(3) by (simp add: ws_length_def)
    then show ?thesis by blast
  next
    case 2
    then obtain ops where r: "read_exact nt 2 [] sk = (0, be16 (of_nat n), sk\<lparr>sk_in := rest, sk_ops := ops\<rparr>)"
      using read_exact_ok [OF assms(1), of sk "be16 (of_nat n)" rest 2] assms(4) by (auto simp: ws_ext_def)
    have "push_bit 8 (ucast (be16 (of_nat n) ! 0)) OR ucast (be16 (of_nat n) ! 1) = (of_nat n :: u64)"
    proof -
      have "push_bit 8 (ucast (be16 (of_nat n) ! 0)) OR ucast (be16 (of_nat n) ! 1) = (ucast (of_nat n :: u16) :: u64)"
        by (rule bit_word_eqI) (auto simp: be16_def le_enc_def upt_rec bit_simps)
      also have "\<dots> = of_nat n" using 2 by (simp add: unsigned_of_nat take_bit_nat_eq_self)
      finally show ?thesis .
    qed
    then show ?thesis using r 2 assms(3) by (auto simp: ws_length_def ws_code_def)
  next
    case 3
    then obtain ops where r: "read_exact nt 8 [] sk = (0, be64 (of_nat n), sk\<lparr>sk_in := rest, sk_ops := ops\<rparr>)"
      using read_exact_ok [OF assms(1), of sk "be64 (of_nat n)" rest 8] assms(4) by (auto simp: ws_ext_def)
    moreover have "foldl (\<lambda>n e. push_bit 8 n OR ucast e) 0 (be64 (of_nat n)) = (of_nat n :: u64)"
      using u64be.dec_enc [of "of_nat n"] by (simp add: foldl_be64 be64_dec_def)
    ultimately show ?thesis using 3 assms(3) by (auto simp: ws_length_def ws_code_def)
  qed
qed

text \<open>A received frame, masked with \<open>key\<close> or not.\<close>

definition ws_incoming :: "bytes option \<Rightarrow> koe_packet \<Rightarrow> bytes" where
  "ws_incoming key p = (case key of
     None \<Rightarrow> ws_frame p
   | Some k \<Rightarrow> [0x82, ws_code (packet_size p) OR 0x80] @ ws_ext (packet_size p) @ k @ ws_unmask k (wire_image p))"

lemma ws_unmask_twice: "length k = 4 \<Longrightarrow> ws_unmask k (ws_unmask k buf) = buf"
  by (rule nth_equalityI) (simp_all add: ws_unmask_def xor.assoc)

lemma length_ws_unmask [simp]: "length (ws_unmask k buf) = length buf"
  by (simp add: ws_unmask_def)

lemma ws_code_bits: "ws_code n AND 0x7F = ws_code n" "ws_code n AND 0x80 = 0"
  "(ws_code n OR 0x80) AND 0x7F = ws_code n" "(ws_code n OR 0x80) AND 0x80 = 0x80"
proof -
  have "ws_code n < 128"
    by (auto simp: ws_code_def word_less_nat_alt unat_of_nat)
  then have lt: "take_bit 7 (ws_code n) = ws_code n"
    by (intro word_unat_eq_iff [THEN iffD2])
       (simp add: unsigned_take_bit_eq take_bit_nat_eq_self word_less_nat_alt)
  have b: "i < 7" if "bit (ws_code n) i" for i using lt that by (metis bit_take_bit_iff)
  have c: "bit (0x80 :: byte) i \<longleftrightarrow> i = 7" for i
    using bit_exp_iff [where 'a = byte, of 7 i] by auto
  have d: "0x7F = (mask 7 :: byte)" by (simp add: mask_eq_exp_minus_1)
  have e: "bit (0x7F :: byte) i \<longleftrightarrow> i < 7" for i unfolding d by (auto simp: bit_mask_iff)
  show "ws_code n AND 0x7F = ws_code n"
    by (rule bit_word_eqI) (auto simp only: bit_and_iff e dest: b)
  show "ws_code n AND 0x80 = 0"
    by (rule bit_word_eqI) (auto simp only: bit_and_iff c bit_0_eq bot_fun_def bot_bool_def dest: b)
  show "(ws_code n OR 0x80) AND 0x7F = ws_code n"
    by (rule bit_word_eqI) (auto simp only: bit_and_iff bit_or_iff c e dest: b)
  show "(ws_code n OR 0x80) AND 0x80 = 0x80"
    by (rule bit_word_eqI) (auto simp only: bit_and_iff bit_or_iff c)
qed

lemma ws_recv_frame:
  assumes "sendable nt mal p" and "\<forall>k. key = Some k \<longrightarrow> length k = 4" and "sk_in sk = ws_incoming key p @ rest"
  shows "\<exists>ops. koe_transport_ws_recv nt mal q sk = (0, p, sk\<lparr>sk_in := rest, sk_ops := ops\<rparr>)"
proof -
  have ok: "link_ok nt" "mal 0" "mal (Suc 0)" "wire_packet p" using assms(1) by (auto simp: sendable_def)
  note ser = sendable_serialise [OF ok(4)]
  define n where "n = packet_size p"
  define b where "b = (if key = None then ws_code n else ws_code n OR 0x80)"
  define k where "k = (case key of None \<Rightarrow> [] | Some k \<Rightarrow> k)"
  define body where "body = (case key of None \<Rightarrow> wire_image p | Some k \<Rightarrow> ws_unmask k (wire_image p))"
  have in0: "sk_in sk = [0x82, b] @ ws_ext n @ k @ body @ rest"
    using assms(3)
    by (auto simp: ws_incoming_def ws_frame_def ws_header_eq b_def k_def body_def n_def split: option.splits)
  have lens: "length body = n" "n \<le> 106 + 1024 * 1024" using ser by (simp_all add: body_def n_def split: option.splits)
  have un: "unat (of_nat n :: u64) = n" using lens by (intro unat_of_nat_small) simp
  have b7: "b AND 0x7F = ws_code n" by (simp add: b_def ws_code_bits)
  obtain o1 where r1: "read_exact nt 2 [] sk = (0, [0x82, b], sk\<lparr>sk_in := ws_ext n @ k @ body @ rest, sk_ops := o1\<rparr>)"
    using read_exact_ok [OF ok(1) in0, of 2] by auto
  obtain o2 where r2: "ws_length nt b (sk\<lparr>sk_in := ws_ext n @ k @ body @ rest, sk_ops := o1\<rparr>)
      = (Some (of_nat n), sk\<lparr>sk_in := k @ body @ rest, sk_ops := o2\<rparr>)"
    using ws_length_ok [OF ok(1) lens(2) b7, of "sk\<lparr>sk_in := ws_ext n @ k @ body @ rest, sk_ops := o1\<rparr>"]
    by auto
  obtain o3 mk where r3: "(if b AND 0x80 \<noteq> 0 then read_exact nt 4 [] (sk\<lparr>sk_in := k @ body @ rest, sk_ops := o2\<rparr>)
        else (0, replicate 4 0, sk\<lparr>sk_in := k @ body @ rest, sk_ops := o2\<rparr>))
      = (0, mk, sk\<lparr>sk_in := body @ rest, sk_ops := o3\<rparr>)" and mk: "key \<noteq> None \<longrightarrow> mk = k"
    using read_exact_ok [OF ok(1), of "sk\<lparr>sk_in := k @ body @ rest, sk_ops := o2\<rparr>" k "body @ rest" 4] assms(2)
    by (cases key) (auto simp: b_def k_def ws_code_bits)
  obtain o4 where r4: "read_exact nt n [] (sk\<lparr>sk_in := body @ rest, sk_ops := o3\<rparr>) = (0, body, sk\<lparr>sk_in := rest, sk_ops := o4\<rparr>)"
    using read_exact_ok [OF ok(1), of "sk\<lparr>sk_in := body @ rest, sk_ops := o3\<rparr>" body rest n] lens by auto
  have "(if b AND 0x80 \<noteq> 0 then ws_unmask mk body else body) = wire_image p"
    using assms(2) mk by (cases key) (auto simp: b_def k_def body_def ws_code_bits ws_unmask_twice)
  moreover have "koe_packet_deserialise (\<lambda>i. mal (Suc i)) q (wire_image p) = (0, p)"
    using pkt.par_img [OF ok(4), of "\<lambda>i. mal (Suc i)" q "[]"] ok(3) by simp
  ultimately show ?thesis
    using ok r1 r2 r3 r4 lens un by (auto simp: koe_transport_ws_recv_def Let_def)
qed

lemma ws_send_frame:
  assumes "sendable nt mal p"
  shows "\<exists>ops. koe_transport_ws_send nt mal junk p sk
    = Some (0, sk\<lparr>sk_out := sk_out sk @ ws_frame p, sk_ops := ops\<rparr>)"
proof -
  have ok: "link_ok nt" "mal 0" "wire_packet p" using assms(1) by (auto simp: sendable_def)
  note ser = sendable_serialise [OF ok(3)]
  let ?h = "ws_header (packet_size p)"
  obtain o1 where w1: "write_exact nt ?h 0 sk = (0, sk\<lparr>sk_out := sk_out sk @ ?h, sk_ops := o1\<rparr>)"
    using write_exact_ok [OF ok(1), of ?h 0 sk] by auto
  obtain o2 where w2: "write_exact nt (wire_image p) 0 (sk\<lparr>sk_out := sk_out sk @ ?h, sk_ops := o1\<rparr>)
      = (0, sk\<lparr>sk_out := sk_out sk @ ws_frame p, sk_ops := o2\<rparr>)"
    using write_exact_ok [OF ok(1), of "wire_image p" 0 "sk\<lparr>sk_out := sk_out sk @ ?h, sk_ops := o1\<rparr>"]
    by (auto simp: ws_frame_def)
  show ?thesis using ok w1 w2 ser by (auto simp: koe_transport_ws_send_def Let_def)
qed

interpretation ws: packet_stream "sendable nt mal" ws_frame
  "koe_transport_ws_send nt mal junk" "koe_transport_ws_recv nt mal q"
  for nt mal junk q
  by unfold_locales (simp_all add: ws_send_frame ws_recv_frame [where key = None] ws_incoming_def)

section \<open>Properties\<close>

text \<open>C27. A TCP connection carries packets faithfully: on a link without failing system calls,
  whatever sizes the kernel delivers and accepts, sending any list of packets succeeds and a
  receiver that finds the sent bytes in its stream gets exactly these packets, in order, and
  leaves the bytes after them alone.\<close>

theorem transport_stream_roundtrip:
  assumes "\<forall>p\<in>set ps. sendable nt mal p \<and> 0 \<le> pe_fd peer" and "sk_out a = []"
  shows "\<exists>a' b'. send_all (koe_transport_send nt mal junk peer) ps a = Some a' \<and>
    (sk_in b = sk_out a' @ rest \<longrightarrow>
       recv_all (koe_transport_recv nt mal peer q) (length ps) b = Some (ps, b') \<and> sk_in b' = rest)"
  using assms by (rule tcp.stream_roundtrip)

definition hello_wire :: koe_packet where
  "hello_wire = koe_packet_init (type_code KOE_TYPE_PING) 0"

lemma hello_wire_sendable: "link_ok nt \<Longrightarrow> (\<forall>i. mal i) \<Longrightarrow> sendable nt mal hello_wire"
  by (simp add: sendable_def wire_packet_def hello_wire_def koe_packet_init_def zero_packet_def zero_header_def
      wf_packet_def wf_header_def numeral_2_eq_2)

theorem transport_stream_roundtrip_witness:
  "\<exists>a'. send_all (koe_transport_send \<lparr>nt_recv = \<lambda>_. 1, nt_send = \<lambda>_. 3\<rparr> (\<lambda>_. True) (\<lambda>_. 0) (zero_peer\<lparr>pe_fd := 5\<rparr>)) [hello_wire, hello_wire]
      \<lparr>sk_in = [], sk_out = [], sk_ops = 0\<rparr> = Some a'
    \<and> (\<exists>b'. recv_all (koe_transport_recv \<lparr>nt_recv = \<lambda>_. 1, nt_send = \<lambda>_. 3\<rparr> (\<lambda>_. True) (zero_peer\<lparr>pe_fd := 5\<rparr>) zero_packet) 2
          \<lparr>sk_in = sk_out a', sk_out = [], sk_ops = 0\<rparr> = Some ([hello_wire, hello_wire], b'))"
proof -
  let ?nt = "\<lparr>nt_recv = \<lambda>_. 1, nt_send = \<lambda>_. 3\<rparr>"
  let ?send = "koe_transport_send ?nt (\<lambda>_. True) (\<lambda>_. 0) (zero_peer\<lparr>pe_fd := 5\<rparr>)"
  let ?a = "\<lparr>sk_in = [], sk_out = [], sk_ops = 0\<rparr>"
  have ok: "\<forall>p\<in>set [hello_wire, hello_wire]. sendable ?nt (\<lambda>_. True) p \<and> 0 \<le> pe_fd (zero_peer\<lparr>pe_fd := 5\<rparr>)"
    by (simp add: hello_wire_sendable link_ok_def)
  have a0: "sk_out ?a = []" by simp
  note rt = transport_stream_roundtrip [OF ok a0, where junk = "\<lambda>_. 0" and rest = "[]" and q = zero_packet]
  obtain a' where a': "send_all ?send [hello_wire, hello_wire] ?a = Some a'"
    using rt [of ?a] by blast
  have len: "length [hello_wire, hello_wire] = 2" by simp
  from rt [of "\<lparr>sk_in = sk_out a', sk_out = [], sk_ops = 0\<rparr>", unfolded a' len option.inject]
  show ?thesis using a' by (auto simp del: send_all.simps recv_all.simps)
qed



text \<open>The descriptors a context holds.\<close>

definition ctx_fds :: "koe_transport_ctx \<Rightarrow> fds" where
  "ctx_fds ctx = {fd \<in> {tc_listen_fd ctx, tc_tcp_listen_fd ctx, tc_ws_listen_fd ctx}. 0 \<le> fd}"



definition disco_foreign :: "bytes \<Rightarrow> bytes \<times> string \<Rightarrow> bool" where
  "disco_foreign pk d \<longleftrightarrow> 38 \<le> length (fst d) \<and> take 4 (fst d) = DISCO_MAGIC \<and> mem_read 4 32 (fst d) \<noteq> pk"

lemma disco_loop_takeWhile:
  "disco_loop pk ds = map (\<lambda>(d, addr). disco_peer (take 38 d) addr) (takeWhile (disco_foreign pk) ds)"
proof (induction pk ds rule: disco_loop.induct)
  case (2 pk dgram addr rest)
  have "mem_read 4 32 (take 38 dgram) = mem_read 4 32 dgram" by (simp add: mem_read_def drop_take)
  with 2 show ?case by (auto simp: disco_foreign_def Let_def min_def split: if_splits)
qed simp

text \<open>Discovery reports exactly the peers whose datagrams arrive before the first one that is
  malformed or carries the host's own key: every datagram before it gives one peer with the key,
  version and address of the datagram, and nothing after it is looked at, although the host's own
  broadcast reaches its own socket.\<close>

theorem discover_stops_at_own_ping:
  assumes "0 \<le> tc_listen_fd ctx" and "wf_identity local_id" and "\<forall>d\<in>set before. disco_foreign (id_pk local_id) d"
  shows "koe_transport_discover ctx local_id (before @ (disco_payload local_id, addr) # rest)
    = (0, [disco_payload local_id], map (\<lambda>(d, a). disco_peer (take 38 d) a) before)"
proof -
  have "mem_read 4 32 (disco_payload local_id) = id_pk local_id"
    using assms(2) by (simp add: disco_payload_def DISCO_MAGIC_def mem_read_def wf_identity_def)
  then have "\<not> disco_foreign (id_pk local_id) (disco_payload local_id, addr)" by (simp add: disco_foreign_def)
  then show ?thesis using assms by (simp add: koe_transport_discover_def disco_loop_takeWhile)
qed

theorem discover_stops_at_own_ping_witness:
  "koe_transport_discover
     \<lparr>tc_listen_fd = 3, tc_tcp_listen_fd = 4, tc_ws_listen_fd = -1, tc_relay_host = [], tc_relay_port = 0,
      tc_active = KOE_TRANSPORT_NONE, tc_bluetooth_enabled = 0\<rparr>
     \<lparr>id_pk = replicate 32 7, id_sk = replicate 64 0\<rparr>
     [(disco_payload \<lparr>id_pk = replicate 32 7, id_sk = replicate 64 0\<rparr>, ''10.0.0.1''),
      (disco_payload \<lparr>id_pk = replicate 32 8, id_sk = replicate 64 0\<rparr>, ''10.0.0.2'')]
   = (0, [disco_payload \<lparr>id_pk = replicate 32 7, id_sk = replicate 64 0\<rparr>], [])"
  using discover_stops_at_own_ping [where before = "[]" and addr = "''10.0.0.1''" and local_id = "\<lparr>id_pk = replicate 32 7, id_sk = replicate 64 0\<rparr>"
      and rest = "[(disco_payload \<lparr>id_pk = replicate 32 8, id_sk = replicate 64 0\<rparr>, ''10.0.0.2'')]"
      and ctx = "\<lparr>tc_listen_fd = 3, tc_tcp_listen_fd = 4, tc_ws_listen_fd = -1, tc_relay_host = [], tc_relay_port = 0,
      tc_active = KOE_TRANSPORT_NONE, tc_bluetooth_enabled = 0\<rparr>"]
  by (simp add: wf_identity_def)

text \<open>The reply to an upgrade request does not depend on the key the client sent.\<close>

lemma ws_accept_ignores_key:
  assumes "koe_transport_ws_accept nt fd ctx sk s = (fd, sk', s')" "0 \<le> fd"
    and "\<And>k. length ws_response \<le> nt_send nt k"
  shows "sk_out sk' = sk_out sk @ str_bytes ws_response"
proof -
  have len: "length ws_response < 512" "ws_response \<noteq> []" by (simp_all add: ws_response_def)
  obtain req sk1 where r: "sys_recv nt 2047 sk = (Some req, sk1)"
    and sk': "sk' = snd (sys_send nt (str_bytes (snprintf_str 512 ws_response)) sk1)"
    using assms(1,2) by (auto simp: koe_transport_ws_accept_def Let_def split: if_splits prod.splits option.splits)
  have "snprintf_str 512 ws_response = ws_response" using len by (simp add: snprintf_str_def)
  moreover have "min (nt_send nt (sk_ops sk1)) (length ws_response) = length ws_response"
    using assms(3) by (simp add: min_absorb2)
  ultimately show ?thesis
    using sys_recv_Some [OF r] sk' len by (simp add: sys_send_def Let_def)
qed

end
