(* ===== verification/Koe_Identity.thy ===== *)
theory Koe_Identity
  imports Koe_Session Koe_Db
begin

text \<open>
  Profiles and the contact book (\<^verbatim>\<open>src/koe_identity.c\<close>). A profile is an identity file in a
  directory plus its short id; the contact book is a singly linked list of contacts, modelled
  as the list of its nodes from the head on, and its counter. The lemmas show that a created
  profile loads back under its passphrase, that the book is a map from keys to contacts whose
  counter is its size under every sequence of operations, and what saving and loading the book
  do with the database.
\<close>

abbreviation (input) KOE_DISPLAY_NAME_MAX :: nat where "KOE_DISPLAY_NAME_MAX \<equiv> 64"

record koe_profile =
  pr_keys :: koe_identity
  pr_display_name :: string
  pr_short_id :: string
  pr_created_at :: unix_time

record koe_contact =
  ct_pk :: bytes
  ct_display_name :: string
  ct_short_id :: string
  ct_added_at :: unix_time
  ct_last_seen :: unix_time
  ct_verified :: int
  ct_blocked :: int

record koe_contact_book =
  bk_contacts :: "koe_contact list"
  bk_count :: int

section \<open>Profiles\<close>

definition zero_profile :: koe_profile where
  "zero_profile = \<lparr>pr_keys = \<lparr>id_pk = replicate 32 0, id_sk = replicate 64 0\<rparr>, pr_display_name = [], pr_short_id = [], pr_created_at = 0\<rparr>"

definition profile_path :: "string \<Rightarrow> string" where
  "profile_path dir = snprintf_str 512 (dir @ ''/identity.koe'')"

text \<open>\<open>seed\<close>, \<open>salt\<close> and \<open>nonce\<close> are the random bytes drawn.\<close>

definition koe_profile_create ::
  "sodium \<Rightarrow> file_io \<Rightarrow> bytes \<Rightarrow> bytes \<Rightarrow> bytes \<Rightarrow> unix_time \<Rightarrow> string \<Rightarrow> string \<Rightarrow> string \<Rightarrow> filesys \<Rightarrow>
   int \<times> koe_profile \<times> filesys" where
  "koe_profile_create sd io seed salt nonce now display_name passphrase dir fs =
     (let p = zero_profile
      in case koe_identity_generate sd seed (pr_keys p) of
        (rc, keys) \<Rightarrow>
          if rc \<noteq> 0 then (-1, p\<lparr>pr_keys := keys\<rparr>, fs)
          else
            let p = p\<lparr>pr_keys := keys, pr_short_id := koe_identity_short_id (id_pk keys),
                      pr_display_name := strncpy_str (KOE_DISPLAY_NAME_MAX - 1) display_name, pr_created_at := now\<rparr>
            in case koe_identity_save sd io salt nonce keys (profile_path dir) passphrase fs of
                 (rc, fs) \<Rightarrow> (rc, p, fs))"

definition koe_profile_load :: "sodium \<Rightarrow> koe_profile \<Rightarrow> string \<Rightarrow> string \<Rightarrow> filesys \<Rightarrow> int \<times> koe_profile" where
  "koe_profile_load sd p dir passphrase fs =
     (case koe_identity_load sd (pr_keys p) (profile_path dir) passphrase fs of
        (rc, keys) \<Rightarrow>
          let p = p\<lparr>pr_keys := keys\<rparr>
          in if rc \<noteq> 0 then (-1, p) else (0, p\<lparr>pr_short_id := koe_identity_short_id (id_pk keys)\<rparr>))"

definition koe_profile_save ::
  "sodium \<Rightarrow> file_io \<Rightarrow> bytes \<Rightarrow> bytes \<Rightarrow> koe_profile \<Rightarrow> string \<Rightarrow> string \<Rightarrow> filesys \<Rightarrow> int \<times> filesys" where
  "koe_profile_save sd io salt nonce p dir passphrase fs =
     koe_identity_save sd io salt nonce (pr_keys p) (profile_path dir) passphrase fs"

definition koe_profile_short_id :: "bytes \<Rightarrow> string" where
  "koe_profile_short_id pk = strncpy_str KOE_SHORT_ID_LEN (koe_identity_short_id pk)"

section \<open>The contact book\<close>

definition koe_contact_book_init :: koe_contact_book where
  "koe_contact_book_init = \<lparr>bk_contacts = [], bk_count = 0\<rparr>"

definition koe_contact_book_free :: "koe_contact_book \<Rightarrow> koe_contact_book" where
  "koe_contact_book_free book = book\<lparr>bk_contacts := [], bk_count := 0\<rparr>"

definition zero_contact :: koe_contact where
  "zero_contact = \<lparr>ct_pk = replicate 32 0, ct_display_name = [], ct_short_id = [], ct_added_at = 0,
     ct_last_seen = 0, ct_verified = 0, ct_blocked = 0\<rparr>"

text \<open>The linked version of \<open>koe_db_contact_list\<close> is the one in \<^verbatim>\<open>koe_identity.c\<close>: no rows.\<close>

definition koe_db_contact_list :: "koe_db_conn ptr \<Rightarrow> nat \<Rightarrow> int \<times> koe_db_contact list" where
  "koe_db_contact_list conn maxn = (0, [])"

definition contact_of_row :: "koe_db_contact \<Rightarrow> koe_contact" where
  "contact_of_row r =
     zero_contact\<lparr>ct_pk := dc_pk r, ct_display_name := strncpy_str (KOE_DISPLAY_NAME_MAX - 1) (dc_display_name r),
       ct_short_id := strncpy_str (KOE_SHORT_ID_LEN - 1) (dc_short_id r), ct_added_at := dc_added_at r,
       ct_last_seen := dc_last_seen r, ct_verified := dc_verified r, ct_blocked := dc_blocked r\<rparr>"

fun load_rows :: "alloc \<Rightarrow> nat \<Rightarrow> koe_db_contact list \<Rightarrow> koe_contact_book \<Rightarrow> int \<times> koe_contact_book" where
  "load_rows mal i [] book = (0, book)"
| "load_rows mal i (r # rows) book =
     (if \<not> mal i then (-1, book)
      else load_rows mal (Suc i) rows
             (book\<lparr>bk_contacts := contact_of_row r # bk_contacts book, bk_count := bk_count book + 1\<rparr>))"

definition koe_contact_book_load :: "alloc \<Rightarrow> koe_contact_book \<Rightarrow> koe_db_conn ptr \<Rightarrow> int \<times> koe_contact_book" where
  "koe_contact_book_load mal book db =
     (case koe_db_contact_list db 512 of
        (rc, rows) \<Rightarrow> if rc \<noteq> 0 then (-1, book) else load_rows mal 0 rows book)"

definition row_of_contact :: "koe_contact \<Rightarrow> koe_db_contact" where
  "row_of_contact c =
     \<lparr>dc_pk = ct_pk c, dc_display_name = strncpy_str 63 (ct_display_name c), dc_short_id = strncpy_str 15 (ct_short_id c),
      dc_added_at = ct_added_at c, dc_last_seen = ct_last_seen c, dc_blocked = ct_blocked c, dc_verified = ct_verified c\<rparr>"

text \<open>\<open>envs i\<close> is the database's behaviour on the \<open>i\<close>-th row; its result is ignored.\<close>

fun save_rows :: "(nat \<Rightarrow> sql_env) \<Rightarrow> nat \<Rightarrow> koe_contact list \<Rightarrow> koe_db_conn ptr \<Rightarrow> koe_db_conn ptr" where
  "save_rows envs i [] db = db"
| "save_rows envs i (c # cs) db =
     save_rows envs (Suc i) cs (snd (koe_db_contact_upsert (envs i) db (row_of_contact c)))"

definition koe_contact_book_save :: "(nat \<Rightarrow> sql_env) \<Rightarrow> koe_contact_book \<Rightarrow> koe_db_conn ptr \<Rightarrow> int \<times> koe_db_conn ptr" where
  "koe_contact_book_save envs book db = (0, save_rows envs 0 (bk_contacts book) db)"

definition koe_contact_find :: "koe_contact_book \<Rightarrow> bytes \<Rightarrow> koe_contact ptr" where
  "koe_contact_find book pk = find (\<lambda>n. ct_pk n = pk) (bk_contacts book)"

definition koe_contact_find_by_short_id :: "koe_contact_book \<Rightarrow> string \<Rightarrow> koe_contact ptr" where
  "koe_contact_find_by_short_id book short_id = find (\<lambda>n. ct_short_id n = short_id) (bk_contacts book)"

definition new_contact :: "unix_time \<Rightarrow> bytes \<Rightarrow> string \<Rightarrow> koe_contact" where
  "new_contact now pk display_name =
     zero_contact\<lparr>ct_pk := pk, ct_display_name := strncpy_str (KOE_DISPLAY_NAME_MAX - 1) display_name,
       ct_short_id := koe_identity_short_id pk, ct_added_at := now\<rparr>"

definition koe_contact_add ::
  "alloc \<Rightarrow> unix_time \<Rightarrow> bytes \<Rightarrow> string \<Rightarrow> koe_contact_book \<Rightarrow> int \<times> koe_contact_book" where
  "koe_contact_add mal now pk display_name book =
     (if koe_contact_find book pk \<noteq> NULL then (-1, book)
      else if \<not> mal 0 then (-1, book)
      else (0, book\<lparr>bk_contacts := new_contact now pk display_name # bk_contacts book, bk_count := bk_count book + 1\<rparr>))"

definition koe_contact_remove :: "bytes \<Rightarrow> koe_contact_book \<Rightarrow> int \<times> koe_contact_book" where
  "koe_contact_remove pk book =
     (case find_idx (\<lambda>n. ct_pk n = pk) (bk_contacts book) of
        None \<Rightarrow> (-1, book)
      | Some i \<Rightarrow> (0, book\<lparr>bk_contacts := take i (bk_contacts book) @ drop (Suc i) (bk_contacts book),
                          bk_count := bk_count book - 1\<rparr>))"

text \<open>A write through the pointer that \<open>koe_contact_find\<close> returns.\<close>

definition contact_modify :: "bytes \<Rightarrow> (koe_contact \<Rightarrow> koe_contact) \<Rightarrow> koe_contact_book \<Rightarrow> int \<times> koe_contact_book" where
  "contact_modify pk f book =
     (case find_idx (\<lambda>n. ct_pk n = pk) (bk_contacts book) of
        None \<Rightarrow> (-1, book)
      | Some i \<Rightarrow> (0, book\<lparr>bk_contacts := (bk_contacts book)[i := f (bk_contacts book ! i)]\<rparr>))"

definition koe_contact_set_verified :: "koe_contact_book \<Rightarrow> bytes \<Rightarrow> int \<Rightarrow> int \<times> koe_contact_book" where
  "koe_contact_set_verified book pk v = contact_modify pk (\<lambda>c. c\<lparr>ct_verified := v\<rparr>) book"

definition koe_contact_set_blocked :: "koe_contact_book \<Rightarrow> bytes \<Rightarrow> int \<Rightarrow> int \<times> koe_contact_book" where
  "koe_contact_set_blocked book pk b = contact_modify pk (\<lambda>c. c\<lparr>ct_blocked := b\<rparr>) book"

section \<open>The book as a map\<close>

definition book_ok :: "koe_contact_book \<Rightarrow> bool" where
  "book_ok book \<longleftrightarrow> distinct (map ct_pk (bk_contacts book)) \<and> bk_count book = int (length (bk_contacts book))"

lemma koe_contact_remove_ok:
  assumes "book_ok book"
  shows "book_ok (snd (koe_contact_remove pk book))
    \<and> koe_contact_find (snd (koe_contact_remove pk book)) = (koe_contact_find book)(pk := None)
    \<and> (if koe_contact_find book pk = None then koe_contact_remove pk book = (-1, book)
       else fst (koe_contact_remove pk book) = 0
         \<and> Suc (length (bk_contacts (snd (koe_contact_remove pk book)))) = length (bk_contacts book))"
proof (cases "find_idx (\<lambda>n. ct_pk n = pk) (bk_contacts book)")
  case None
  then have "koe_contact_remove pk book = (-1, book)" by (simp add: koe_contact_remove_def del: find_idx_None)
  moreover have "koe_contact_find book pk = None" using None unfolding find_idx_find by (simp add: koe_contact_find_def)
  ultimately show ?thesis using assms by (simp add: fun_upd_idem)
next
  case (Some i)
  have "i < length (bk_contacts book)" using find_idx_SomeD [OF Some] by simp
  moreover have "koe_contact_find book pk \<noteq> None"
    using Some find_idx_find [of "\<lambda>n. ct_pk n = pk" "bk_contacts book"] by (auto simp: koe_contact_find_def simp del: find_idx_None)
  ultimately show ?thesis
    using assms Some find_remove_idx [OF _ Some]
    by (auto simp: koe_contact_remove_def koe_contact_find_def book_ok_def fun_eq_iff)
qed

lemma koe_contact_add_ok:
  assumes "book_ok book" "mal 0" "koe_contact_find book pk = None"
  shows "koe_contact_add mal now pk name book
      = (0, book\<lparr>bk_contacts := new_contact now pk name # bk_contacts book, bk_count := bk_count book + 1\<rparr>)"
    and "book_ok (snd (koe_contact_add mal now pk name book))"
    and "koe_contact_find (snd (koe_contact_add mal now pk name book)) = (koe_contact_find book)(pk \<mapsto> new_contact now pk name)"
proof -
  have n: "ct_pk (new_contact now pk name) = pk" by (simp add: new_contact_def)
  show add: "koe_contact_add mal now pk name book
      = (0, book\<lparr>bk_contacts := new_contact now pk name # bk_contacts book, bk_count := bk_count book + 1\<rparr>)"
    using assms by (simp add: koe_contact_add_def)
  show "book_ok (snd (koe_contact_add mal now pk name book))"
    using assms n unfolding add by (auto simp: book_ok_def koe_contact_find_def find_None_iff)
  show "koe_contact_find (snd (koe_contact_add mal now pk name book)) = (koe_contact_find book)(pk \<mapsto> new_contact now pk name)"
    unfolding add by (auto simp: koe_contact_find_def n fun_eq_iff)
qed

interpretation cb: unique_table book_ok koe_contact_find "\<lambda>b. length (bk_contacts b)" "\<lambda>b. mal 0"
  "new_contact now" "koe_contact_add mal now" "\<lambda>pk b. (koe_contact_find b pk, b)" koe_contact_remove
  for mal :: alloc and now
  by unfold_locales (use koe_contact_add_ok koe_contact_remove_ok in \<open>auto simp: koe_contact_add_def\<close>)

section \<open>Sequences of calls\<close>

lemma contact_modify_ok:
  assumes "book_ok book" "\<And>c. ct_pk (f c) = ct_pk c"
  shows "book_ok (snd (contact_modify pk f book))"
proof (cases "find_idx (\<lambda>n. ct_pk n = pk) (bk_contacts book)")
  case (Some i)
  then have i: "i < length (bk_contacts book)" by (auto dest: find_idx_SomeD)
  have "map ct_pk ((bk_contacts book)[i := f (bk_contacts book ! i)]) = map ct_pk (bk_contacts book)"
    using i assms(2) by (simp add: map_update) (metis list_update_id nth_map)
  then show ?thesis using assms(1) Some by (simp add: contact_modify_def book_ok_def)
qed (use assms in \<open>simp add: contact_modify_def del: find_idx_None\<close>)

inductive book_call :: "koe_contact_book \<Rightarrow> koe_contact_book \<Rightarrow> bool" where
  call_add: "koe_contact_add mal now pk name b = (rc, b') \<Longrightarrow> book_call b b'"
| call_remove: "koe_contact_remove pk b = (rc, b') \<Longrightarrow> book_call b b'"
| call_verified: "koe_contact_set_verified b pk v = (rc, b') \<Longrightarrow> book_call b b'"
| call_blocked: "koe_contact_set_blocked b pk v = (rc, b') \<Longrightarrow> book_call b b'"
| call_free: "koe_contact_book_free b = b' \<Longrightarrow> book_call b b'"

lemma book_call_ok: "book_call b b' \<Longrightarrow> book_ok b \<Longrightarrow> book_ok b'"
proof (induction rule: book_call.induct)
  case (call_add mal now pk name b rc b')
  then show ?case using cb.ins_cases [of b mal now pk name] by simp
next
  case (call_remove pk b rc b')
  then show ?case using koe_contact_remove_ok [of b pk] by simp
next
  case (call_verified b pk v rc b')
  then show ?case
    using contact_modify_ok [of b "\<lambda>c. c\<lparr>ct_verified := v\<rparr>" pk] by (simp add: koe_contact_set_verified_def)
next
  case (call_blocked b pk v rc b')
  then show ?case
    using contact_modify_ok [of b "\<lambda>c. c\<lparr>ct_blocked := v\<rparr>" pk] by (simp add: koe_contact_set_blocked_def)
next
  case (call_free b b')
  then show ?case by (auto simp: koe_contact_book_free_def book_ok_def)
qed

lemma book_ok_init: "book_ok koe_contact_book_init"
  by (simp add: book_ok_def koe_contact_book_init_def)

lemma book_reachable_ok: "rtranclp book_call koe_contact_book_init b \<Longrightarrow> book_ok b"
  by (induction rule: rtranclp_induct) (auto intro: book_call_ok book_ok_init)

text \<open>C31. The contact book is a map from public keys to contacts: after any sequence of calls its
  counter is its length, adding a key that is not in the book (with memory available) makes
  lookups of that key return the new contact and changes no other lookup, adding a known key is
  refused, and removing a key makes its lookup fail and changes no other.\<close>

theorem contact_book_map:
  assumes "rtranclp book_call koe_contact_book_init b"
  shows "bk_count b = int (length (bk_contacts b))
    \<and> koe_contact_find (snd (koe_contact_add mal now pk name b))
      = (if mal 0 \<and> koe_contact_find b pk = None then (koe_contact_find b)(pk \<mapsto> new_contact now pk name) else koe_contact_find b)
    \<and> koe_contact_find (snd (koe_contact_remove pk b)) = (koe_contact_find b)(pk := None)"
  using book_reachable_ok [OF assms] cb.ins_cases [of b mal now pk name] koe_contact_remove_ok [of b pk]
  by (auto simp: book_ok_def)

theorem contact_book_map_witness:
  "rtranclp book_call koe_contact_book_init (snd (koe_contact_add (\<lambda>_. True) 5 [1] ''ann'' koe_contact_book_init))
   \<and> koe_contact_find (snd (koe_contact_remove [1] (snd (koe_contact_add (\<lambda>_. True) 5 [1] ''ann'' koe_contact_book_init)))) [1] = None"
proof -
  have r: "rtranclp book_call koe_contact_book_init (snd (koe_contact_add (\<lambda>_. True) 5 [1] ''ann'' koe_contact_book_init))"
    by (intro r_into_rtranclp call_add [OF surjective_pairing])
  show ?thesis using r contact_book_map [OF r, of "\<lambda>_. True" 0 "[1]" "[]"] by simp
qed

section \<open>Saving and loading\<close>

lemma save_rows_eq:
  assumes "\<forall>i. env_ok (envs i)"
  shows "save_rows envs k cs (conn_of db) = conn_of (fold (\<lambda>c. contact_replace (row_of_contact c)) cs db)"
proof (induction cs arbitrary: k db)
  case (Cons c cs)
  have "snd (koe_db_contact_upsert (envs k) (conn_of db) (row_of_contact c)) = conn_of (contact_replace (row_of_contact c) db)"
    using assms by (simp add: koe_db_contact_upsert_def sql_write_def env_ok_def)
  then show ?case using Cons.IH by simp
qed simp

lemma filter_contact_replace:
  "filter (\<lambda>r. dc_pk r = k) (db_contacts (contact_replace x db))
   = (if dc_pk x = k then [x] else filter (\<lambda>r. dc_pk r = k) (db_contacts db))"
  by (auto simp: contact_replace_def filter_empty_conv intro: filter_cong)

lemma row_of_contact_pk [simp]: "dc_pk (row_of_contact c) = ct_pk c"
  by (simp add: row_of_contact_def)

lemma fold_replace_rows:
  assumes "distinct (map ct_pk cs)" "c \<in> set cs"
  shows "filter (\<lambda>r. dc_pk r = ct_pk c) (db_contacts (fold (\<lambda>c. contact_replace (row_of_contact c)) cs db)) = [row_of_contact c]"
  using assms
proof (induction cs arbitrary: db rule: rev_induct)
  case (snoc d cs)
  show ?case
  proof (cases "c = d")
    case True
    then show ?thesis by (simp add: filter_contact_replace)
  next
    case False
    then have "c \<in> set cs" "ct_pk d \<noteq> ct_pk c" using snoc.prems by auto
    then show ?thesis
      using snoc.IH [of db] snoc.prems by (simp add: filter_contact_replace)
  qed
qed simp

text \<open>Contacts are written but never read back: saving a book puts every contact into the
  database, where a lookup by key finds it with all its fields, but loading the book after a
  restart reports success and gives an empty book.\<close>

theorem contacts_saved_not_loaded:
  assumes "\<forall>i. env_ok (envs i)" and "env_ok e" and "book_ok b" and "c \<in> set (bk_contacts b)"
    and "length (ct_display_name c) \<le> 63" and "length (ct_short_id c) \<le> 15"
    and "koe_contact_book_save envs b (conn_of db) = (rc, conn)"
  shows "rc = 0 \<and> koe_db_contact_find e conn (ct_pk c) out = (0, row_of_contact c)
    \<and> contact_of_row (row_of_contact c) = c
    \<and> koe_contact_book_load mal koe_contact_book_init conn = (0, koe_contact_book_init)"
proof -
  have conn: "rc = 0" "conn = conn_of (fold (\<lambda>c. contact_replace (row_of_contact c)) (bk_contacts b) db)"
    using assms(1,7) by (simp_all add: koe_contact_book_save_def save_rows_eq)
  have "koe_db_contact_find e conn (ct_pk c) out = (0, row_of_contact c)"
    using assms(2,3) fold_replace_rows [of "bk_contacts b" c db] assms(4-6)
    by (simp add: koe_db_contact_find_def conn env_ok_def book_ok_def) (simp add: row_of_contact_def strncpy_str_fits)
  then show ?thesis
    using conn(1) assms(5,6)
    by (simp add: contact_of_row_def row_of_contact_def zero_contact_def strncpy_str_fits
        koe_contact_book_load_def koe_db_contact_list_def)
qed

theorem contacts_saved_not_loaded_witness:
  "\<exists>conn. koe_contact_book_save (\<lambda>_. good_env) (snd (koe_contact_add (\<lambda>_. True) 5 [1] ''ann'' koe_contact_book_init)) (conn_of empty_db) = (0, conn)
     \<and> fst (koe_db_contact_find good_env conn [1] (row_of_contact zero_contact)) = 0
     \<and> koe_contact_book_load (\<lambda>_. True) koe_contact_book_init conn = (0, koe_contact_book_init)"
proof -
  let ?b = "snd (koe_contact_add (\<lambda>_. True) 5 [1] ''ann'' koe_contact_book_init)"
  let ?c = "new_contact 5 [1] ''ann''"
  obtain rc conn where s: "koe_contact_book_save (\<lambda>_. good_env) ?b (conn_of empty_db) = (rc, conn)" by fastforce
  have b: "bk_contacts ?b = [?c]" "book_ok ?b"
    by (simp_all add: koe_contact_add_def koe_contact_book_init_def koe_contact_find_def book_ok_def)
  have "length (koe_identity_short_id [1]) \<le> 15"
    by (simp add: koe_identity_short_id_def length_strncpy_str split: prod.splits)
  then have len: "length (ct_display_name ?c) \<le> 63" "length (ct_short_id ?c) \<le> 15" "ct_pk ?c = [1]"
    by (simp_all add: new_contact_def strncpy_str_def)
  show ?thesis
    using contacts_saved_not_loaded [OF _ good_env_ok b(2) _ len(1,2) s, of "row_of_contact zero_contact" "\<lambda>_. True"] s b(1) len(3)
    by auto
qed

text \<open>A created profile loads back.\<close>

lemma koe_profile_roundtrip:
  assumes "aead_ok sd" "length salt = 16" "length nonce = 24" "\<forall>p d. io p d = Some d"
    and "koe_profile_create sd io seed salt nonce now name pass dir fs = (0, p, fs')" and "wf_identity (pr_keys p)"
    and "koe_profile_load sd q dir pass fs' = (rc, q')"
  shows "rc = 0 \<and> pr_keys q' = pr_keys p \<and> pr_short_id q' = pr_short_id p"
proof -
  have "koe_identity_save sd io salt nonce (pr_keys p) (profile_path dir) pass fs = (0, fs')"
    and sid: "pr_short_id p = koe_identity_short_id (id_pk (pr_keys p))"
    using assms(5) by (auto simp: koe_profile_create_def Let_def split: prod.splits if_splits)
  from koe_identity_load_save [OF assms(1,6,2,3) _ this(1)] assms(4,7) sid show ?thesis
    by (auto simp: koe_profile_load_def Let_def)
qed

end
