(* ===== verification/Koe_Account.thy ===== *)
theory Koe_Account
  imports Koe_Crypto
begin

text \<open>
  Accounts (\<^verbatim>\<open>src/koe_account.c\<close>): the registry of up to 16 account descriptors and its file,
  and the loading of an account's identity. The registry file holds the C structs as they lie in
  memory; \<open>desc_bytes\<close> spells out that layout (char arrays padded with NUL, 64-bit times, the
  4-byte flag and 4 bytes of padding). Whether a file can be written is up to \<open>io\<close>; \<open>mkdir_p\<close> is
  described by the directories it asks for. The lemmas show that the registry file reads back as written, that a
  created account survives a restart, and what deletion and the change of passphrase do.
\<close>

abbreviation (input) KOE_ACCOUNT_MAX :: nat where "KOE_ACCOUNT_MAX \<equiv> 16"

record koe_account_descriptor =
  ad_id :: bytes
  ad_display_name :: string
  ad_data_subdir :: string
  ad_created_at :: unix_time
  ad_last_active_at :: unix_time
  ad_active :: int

record koe_account =
  ac_desc :: koe_account_descriptor
  ac_keys :: koe_identity
  ac_passphrase :: string

record koe_account_registry =
  ar_accounts :: "koe_account_descriptor list"
  ar_count :: nat
  ar_data_root :: string

definition zero_desc :: koe_account_descriptor where
  "zero_desc = \<lparr>ad_id = replicate 32 0, ad_display_name = [], ad_data_subdir = [], ad_created_at = 0,
     ad_last_active_at = 0, ad_active = 0\<rparr>"

section \<open>Directories\<close>

text \<open>The directories that \<open>mkdir_p\<close> asks for, in order. \<open>None\<close>: a path of 511 characters or more leaves
  the buffer without a terminator.\<close>

fun mkdir_prefixes :: "string \<Rightarrow> string \<Rightarrow> string list" where
  "mkdir_prefixes d [] = [d]"
| "mkdir_prefixes d (c # cs) = (if c = CHR ''/'' then [d] else []) @ mkdir_prefixes (d @ [c]) cs"

definition mkdir_p :: "string \<Rightarrow> string list option" where
  "mkdir_p path =
     (if length path \<ge> 511 then None
      else case path of [] \<Rightarrow> Some [[]] | c # cs \<Rightarrow> Some (mkdir_prefixes [c] cs))"

text \<open>Exactly the ancestors of the path and the path itself are created, parents first.\<close>

lemma mkdir_prefixes_spec:
  "set (mkdir_prefixes d cs) = {d @ p | p r. cs = p @ ''/'' @ r} \<union> {d @ cs} \<and> sorted_wrt (\<lambda>x y. length x < length y) (mkdir_prefixes d cs)"
proof (induction cs arbitrary: d)
  case (Cons c cs)
  have "{d @ p | p r. c # cs = p @ ''/'' @ r} = (if c = CHR ''/'' then {d} else {}) \<union> {(d @ [c]) @ p | p r. cs = p @ ''/'' @ r}"
    by (force simp: Cons_eq_append_conv)
  then show ?case using Cons.IH [of "d @ [c]"] by auto
qed simp

lemma mkdir_p_ancestors:
  assumes "mkdir_p path = Some ds" and "path \<noteq> []"
  shows "set ds = {p | p r. path = p @ ''/'' @ r \<and> p \<noteq> []} \<union> {path} \<and> sorted_wrt (\<lambda>x y. length x < length y) ds"
proof -
  obtain c cs where path: "path = c # cs" using assms(2) by (cases path) auto
  have "{p | p r. c # cs = p @ ''/'' @ r \<and> p \<noteq> []} = {[c] @ p | p r. cs = p @ ''/'' @ r}"
    by (force simp: Cons_eq_append_conv)
  then show ?thesis using assms(1) mkdir_prefixes_spec [of "[c]" cs] by (auto simp: mkdir_p_def path split: if_splits)
qed

section \<open>The registry file\<close>

definition REGISTRY_MAGIC :: bytes where
  "REGISTRY_MAGIC = str_bytes ''KOEREG'' @ [1]"

definition registry_path :: "koe_account_registry \<Rightarrow> string" where
  "registry_path reg = snprintf_str 512 (ar_data_root reg @ ''/accounts.koe'')"

definition account_dir :: "koe_account_registry \<Rightarrow> nat \<Rightarrow> string" where
  "account_dir reg idx = snprintf_str 512 (ar_data_root reg @ ''/accounts/'' @ ad_data_subdir (ar_accounts reg ! idx))"

definition desc_bytes :: "koe_account_descriptor \<Rightarrow> bytes" where
  "desc_bytes d = ad_id d @ char_array 64 (ad_display_name d) @ char_array 256 (ad_data_subdir d)
     @ le64 (word_of_int (ad_created_at d)) @ le64 (word_of_int (ad_last_active_at d))
     @ le32 (word_of_int (ad_active d)) @ replicate 4 0"

definition desc_of_bytes :: "bytes \<Rightarrow> koe_account_descriptor" where
  "desc_of_bytes bs = \<lparr>ad_id = mem_read 0 32 bs, ad_display_name = char_array_str (mem_read 32 64 bs),
     ad_data_subdir = char_array_str (mem_read 96 256 bs), ad_created_at = sint (le64_dec (mem_read 352 8 bs)),
     ad_last_active_at = sint (le64_dec (mem_read 360 8 bs)), ad_active = sint (le32_dec (mem_read 368 4 bs))\<rparr>"

text \<open>The loop that reads \<open>n\<close> more descriptors from \<open>file\<close> into the array, from index \<open>i\<close> on.\<close>

fun read_descs :: "nat \<Rightarrow> nat \<Rightarrow> bytes \<Rightarrow> koe_account_descriptor list \<Rightarrow> int \<times> koe_account_descriptor list" where
  "read_descs 0 i file accounts = (0, accounts)"
| "read_descs (Suc n) i file accounts =
     (if length file < 376 then (-1, accounts)
      else read_descs n (Suc i) (drop 376 file)
             (accounts[i := (desc_of_bytes (take 376 file))\<lparr>ad_active := 0\<rparr>]))"

definition koe_account_registry_load :: "string \<Rightarrow> filesys \<Rightarrow> int \<times> koe_account_registry" where
  "koe_account_registry_load data_root fs =
     (let reg = \<lparr>ar_accounts = replicate KOE_ACCOUNT_MAX zero_desc, ar_count = 0, ar_data_root = strncpy_str 511 data_root\<rparr>
      in case fs (registry_path reg) of
        None \<Rightarrow> (0, reg)
      | Some file \<Rightarrow>
          if length file < 7 \<or> take 7 file \<noteq> REGISTRY_MAGIC then (-1, reg)
          else if length file < 11 then (-1, reg)
          else
            let count = sint (le32_dec (mem_read 7 4 file))
            in if count < 0 \<or> count > int KOE_ACCOUNT_MAX then (-1, reg)
               else case read_descs (nat count) 0 (drop 11 file) (ar_accounts reg) of
                 (rc, accounts) \<Rightarrow>
                   if rc \<noteq> 0 then (-1, reg\<lparr>ar_accounts := accounts\<rparr>)
                   else (0, reg\<lparr>ar_accounts := accounts, ar_count := nat count\<rparr>))"

definition registry_bytes :: "koe_account_registry \<Rightarrow> bytes" where
  "registry_bytes reg = REGISTRY_MAGIC @ le32 (of_nat (ar_count reg))
     @ concat (map desc_bytes (take (ar_count reg) (ar_accounts reg)))"

definition koe_account_registry_save :: "file_io \<Rightarrow> koe_account_registry \<Rightarrow> filesys \<Rightarrow> int \<times> filesys" where
  "koe_account_registry_save io reg fs =
     (case io (registry_path reg) (registry_bytes reg) of
        None \<Rightarrow> (-1, fs)
      | Some stored \<Rightarrow> (0, fs(registry_path reg \<mapsto> stored)))"

section \<open>Accounts\<close>

text \<open>\<open>now1\<close> and \<open>now2\<close> are the two readings of the clock.\<close>

definition koe_account_create ::
  "sodium \<Rightarrow> file_io \<Rightarrow> bytes \<Rightarrow> bytes \<Rightarrow> bytes \<Rightarrow> unix_time \<Rightarrow> unix_time \<Rightarrow> koe_account \<Rightarrow> koe_account_registry \<Rightarrow>
   string \<Rightarrow> string \<Rightarrow> filesys \<Rightarrow> int \<times> koe_account \<times> koe_account_registry \<times> filesys" where
  "koe_account_create sd io seed salt nonce now1 now2 out reg display_name passphrase fs =
     (if ar_count reg \<ge> KOE_ACCOUNT_MAX then (-1, out, reg, fs)
      else case koe_identity_generate sd seed (ac_keys out) of
        (rc, keys) \<Rightarrow>
          let out = out\<lparr>ac_keys := keys\<rparr>
          in if rc \<noteq> 0 then (-1, out, reg, fs)
             else
               let desc = zero_desc\<lparr>ad_id := id_pk keys, ad_display_name := strncpy_str 63 display_name,
                            ad_created_at := now1, ad_last_active_at := now2, ad_active := 1,
                            ad_data_subdir := strncpy_str 255 (koe_identity_short_id (id_pk keys))\<rparr>;
                   reg = reg\<lparr>ar_accounts := (ar_accounts reg)[ar_count reg := desc]\<rparr>;
                   out = out\<lparr>ac_desc := desc, ac_passphrase := strncpy_str 255 passphrase\<rparr>;
                   acct_dir = snprintf_str 512 (ar_data_root reg @ ''/accounts/'' @ ad_data_subdir desc);
                   id_path = snprintf_str 512 (acct_dir @ ''/identity.koe'')
               in case koe_identity_save sd io salt nonce keys id_path passphrase fs of
                 (rc, fs) \<Rightarrow>
                   if rc \<noteq> 0 then (-1, out, reg, fs)
                   else
                     let reg = reg\<lparr>ar_count := ar_count reg + 1\<rparr>
                     in (0, out, reg, snd (koe_account_registry_save io reg fs)))"

definition koe_account_activate ::
  "sodium \<Rightarrow> koe_account \<Rightarrow> koe_account_registry \<Rightarrow> int \<Rightarrow> string \<Rightarrow> filesys \<Rightarrow> int \<times> koe_account" where
  "koe_account_activate sd out reg idx passphrase fs =
     (if idx < 0 \<or> idx \<ge> int (ar_count reg) then (-1, out)
      else
        let desc = ar_accounts reg ! nat idx;
            id_path = snprintf_str 512 (ar_data_root reg @ ''/accounts/'' @ ad_data_subdir desc @ ''/identity.koe'')
        in case koe_identity_load sd (ac_keys out) id_path passphrase fs of
          (rc, keys) \<Rightarrow>
            let out = out\<lparr>ac_keys := keys\<rparr>
            in if rc \<noteq> 0 then (-1, out)
               else (0, out\<lparr>ac_desc := desc\<lparr>ad_active := 1\<rparr>, ac_passphrase := strncpy_str 255 passphrase\<rparr>))"

definition koe_account_deactivate :: "koe_account \<Rightarrow> koe_account" where
  "koe_account_deactivate account =
     account\<lparr>ac_keys := \<lparr>id_pk = replicate 32 0, id_sk = replicate 64 0\<rparr>, ac_passphrase := [],
             ac_desc := (ac_desc account)\<lparr>ad_active := 0\<rparr>\<rparr>"

definition koe_account_delete :: "file_io \<Rightarrow> koe_account_registry \<Rightarrow> int \<Rightarrow> filesys \<Rightarrow> int \<times> koe_account_registry \<times> filesys" where
  "koe_account_delete io reg idx fs =
     (if idx < 0 \<or> idx \<ge> int (ar_count reg) then (-1, reg, fs)
      else if ad_active (ar_accounts reg ! nat idx) \<noteq> 0 then (-1, reg, fs)
      else
        let i = nat idx; n = ar_count reg; a = ar_accounts reg;
            reg = reg\<lparr>ar_accounts := take i a @ drop (Suc i) (take n a) @ drop (n - 1) a, ar_count := n - 1\<rparr>
        in case koe_account_registry_save io reg fs of (rc, fs) \<Rightarrow> (rc, reg, fs))"

definition koe_account_rename ::
  "file_io \<Rightarrow> koe_account_registry \<Rightarrow> int \<Rightarrow> string \<Rightarrow> filesys \<Rightarrow> int \<times> koe_account_registry \<times> filesys" where
  "koe_account_rename io reg idx new_name fs =
     (if idx < 0 \<or> idx \<ge> int (ar_count reg) then (-1, reg, fs)
      else
        let reg = reg\<lparr>ar_accounts := (ar_accounts reg)[nat idx :=
                    (ar_accounts reg ! nat idx)\<lparr>ad_display_name := strncpy_str 63 new_name\<rparr>]\<rparr>
        in case koe_account_registry_save io reg fs of (rc, fs) \<Rightarrow> (rc, reg, fs))"

definition koe_account_change_passphrase ::
  "sodium \<Rightarrow> file_io \<Rightarrow> bytes \<Rightarrow> bytes \<Rightarrow> koe_account \<Rightarrow> string \<Rightarrow> string \<Rightarrow> filesys \<Rightarrow> int \<times> koe_account \<times> filesys" where
  "koe_account_change_passphrase sd io salt nonce account old_passphrase new_passphrase fs =
     (if ad_active (ac_desc account) = 0 then (-1, account, fs)
      else
        let id_path = snprintf_str 512 (ad_data_subdir (ac_desc account) @ ''/identity.koe'')
        in case koe_identity_load sd \<lparr>id_pk = replicate 32 0, id_sk = replicate 64 0\<rparr> id_path old_passphrase fs of
          (rc, check) \<Rightarrow>
            if rc \<noteq> 0 then (-1, account, fs)
            else case koe_identity_save sd io salt nonce (ac_keys account) id_path new_passphrase fs of
              (rc, fs) \<Rightarrow>
                if rc \<noteq> 0 then (-1, account, fs)
                else (0, account\<lparr>ac_passphrase := strncpy_str 255 new_passphrase\<rparr>, fs))"

section \<open>The registry file reads back\<close>

definition desc_ok :: "koe_account_descriptor \<Rightarrow> bool" where
  "desc_ok d \<longleftrightarrow> length (ad_id d) = 32 \<and> cstr_ok 64 (ad_display_name d) \<and> cstr_ok 256 (ad_data_subdir d)
     \<and> ad_created_at d \<in> {-(2 ^ 63)..<2 ^ 63} \<and> ad_last_active_at d \<in> {-(2 ^ 63)..<2 ^ 63}"

definition registry_ok :: "koe_account_registry \<Rightarrow> bool" where
  "registry_ok reg \<longleftrightarrow> length (ar_accounts reg) = KOE_ACCOUNT_MAX \<and> ar_count reg \<le> KOE_ACCOUNT_MAX
     \<and> length (ar_data_root reg) \<le> 511 \<and> (\<forall>d\<in>set (take (ar_count reg) (ar_accounts reg)). desc_ok d)"

lemma sint_word_of_int_small:
  "x \<in> {-(2 ^ 63)..<2 ^ 63} \<Longrightarrow> sint (word_of_int x :: u64) = x"
  by (simp add: signed_of_int signed_take_bit_int_eq_self)

lemma desc_bytes_back:
  assumes "desc_ok d"
  shows "length (desc_bytes d) = 376 \<and> (desc_of_bytes (desc_bytes d))\<lparr>ad_active := 0\<rparr> = d\<lparr>ad_active := 0\<rparr>"
proof -
  have len: "length (ad_id d) = 32" "length (char_array 64 (ad_display_name d)) = 64"
    "length (char_array 256 (ad_data_subdir d)) = 256"
    using assms by (simp_all add: desc_ok_def cstr_ok_def length_char_array)
  have reads: "mem_read 0 32 (desc_bytes d) = ad_id d"
    "mem_read 32 64 (desc_bytes d) = char_array 64 (ad_display_name d)"
    "mem_read 96 256 (desc_bytes d) = char_array 256 (ad_data_subdir d)"
    "mem_read 352 8 (desc_bytes d) = le64 (word_of_int (ad_created_at d))"
    "mem_read 360 8 (desc_bytes d) = le64 (word_of_int (ad_last_active_at d))"
    using len by (simp_all add: desc_bytes_def mem_read_def)
  show ?thesis
    using assms len
    by (simp add: desc_of_bytes_def reads desc_ok_def char_array_str_array sint_word_of_int_small)
       (simp add: desc_bytes_def)
qed

lemma read_descs_back:
  assumes "\<forall>d\<in>set ds. desc_ok d" "i + length ds \<le> length accounts"
  shows "read_descs (length ds) i (concat (map desc_bytes ds)) accounts
    = (0, take i accounts @ map (\<lambda>d. d\<lparr>ad_active := 0\<rparr>) ds @ drop (i + length ds) accounts)"
  using assms
proof (induction ds arbitrary: i accounts)
  case (Cons d ds)
  let ?a = "accounts[i := d\<lparr>ad_active := 0\<rparr>]"
  have "take (Suc i) ?a = take i accounts @ [d\<lparr>ad_active := 0\<rparr>]"
    using Cons.prems(2) by (simp add: take_Suc_conv_app_nth)
  moreover have "drop (Suc i + length ds) ?a = drop (Suc i + length ds) accounts" by simp
  ultimately show ?case
    using Cons.IH [of "Suc i" ?a] Cons.prems desc_bytes_back [of d] by simp
qed simp

text \<open>Reading the registry after it was written: the same accounts, none of them marked active.\<close>

lemma registry_load_save:
  assumes "registry_ok reg" "fs (registry_path reg) = Some (registry_bytes reg)"
    and "\<forall>d\<in>set (drop (ar_count reg) (ar_accounts reg)). d = zero_desc"
  shows "koe_account_registry_load (ar_data_root reg) fs
    = (0, reg\<lparr>ar_accounts := map (\<lambda>d. d\<lparr>ad_active := 0\<rparr>) (ar_accounts reg)\<rparr>)"
proof -
  let ?n = "ar_count reg" and ?a = "ar_accounts reg"
  have n: "?n \<le> 16" "length ?a = 16" "strncpy_str 511 (ar_data_root reg) = ar_data_root reg"
    using assms(1) by (simp_all add: registry_ok_def strncpy_str_fits)
  have cnt: "sint (of_nat ?n :: u32) = int ?n"
    using n(1) by (simp add: signed_of_nat signed_take_bit_int_eq_self)
  have magic: "length REGISTRY_MAGIC = 7" by (simp add: REGISTRY_MAGIC_def)
  have "read_descs ?n 0 (concat (map desc_bytes (take ?n ?a))) (replicate 16 zero_desc)
      = (0, map (\<lambda>d. d\<lparr>ad_active := 0\<rparr>) (take ?n ?a) @ drop ?n (replicate 16 zero_desc))"
    using read_descs_back [of "take ?n ?a" 0 "replicate 16 zero_desc"] assms(1) n by (simp add: registry_ok_def)
  moreover have "drop ?n (replicate 16 zero_desc) = map (\<lambda>d. d\<lparr>ad_active := 0\<rparr>) (drop ?n ?a)"
    using assms(3) n by (intro nth_equalityI) (auto simp: zero_desc_def set_conv_nth)
  ultimately have "read_descs ?n 0 (concat (map desc_bytes (take ?n ?a))) (replicate 16 zero_desc)
      = (0, map (\<lambda>d. d\<lparr>ad_active := 0\<rparr>) ?a)"
    by (simp flip: map_append)
  then show ?thesis
    using assms(2) n magic cnt
    by (simp add: koe_account_registry_load_def Let_def registry_path_def registry_bytes_def mem_read_def)
qed

section \<open>Properties\<close>

lemma short_id_cstr:
  assumes "length pk = 32"
  shows "length (koe_identity_short_id pk) = 15 \<and> strncpy_str 255 (koe_identity_short_id pk) = koe_identity_short_id pk
    \<and> cstr_ok 256 (koe_identity_short_id pk)"
proof -
  have "CHR 0x00 \<notin> set B58_ALPHA" by (simp add: B58_ALPHA_def)
  then show ?thesis
    using koe_identity_short_id_props [of pk] assms by (auto simp: cstr_ok_def strncpy_str_fits)
qed

text \<open>The descriptor a creation fills in.\<close>

definition new_desc :: "koe_identity \<Rightarrow> string \<Rightarrow> unix_time \<Rightarrow> unix_time \<Rightarrow> koe_account_descriptor" where
  "new_desc keys name now1 now2 = zero_desc\<lparr>ad_id := id_pk keys, ad_display_name := strncpy_str 63 name,
     ad_created_at := now1, ad_last_active_at := now2, ad_active := 1,
     ad_data_subdir := strncpy_str 255 (koe_identity_short_id (id_pk keys))\<rparr>"

lemma new_desc_ok:
  assumes "wf_identity keys" "CHR 0x00 \<notin> set name" "now1 \<in> {-(2 ^ 63)..<2 ^ 63}" "now2 \<in> {-(2 ^ 63)..<2 ^ 63}"
  shows "desc_ok (new_desc keys name now1 now2) \<and> length (ad_data_subdir (new_desc keys name now1 now2)) = 15"
proof -
  have "CHR 0x00 \<notin> set (strncpy_str 63 name)" using assms(2) set_take_subset by (fastforce simp: strncpy_str_def)
  then show ?thesis
    using assms short_id_cstr [of "id_pk keys"] length_strncpy_str [of 63 name]
    by (simp add: desc_ok_def cstr_ok_def new_desc_def wf_identity_def)
qed

lemma koe_account_create_ok:
  assumes "koe_account_create sd io seed salt nonce now1 now2 out reg name pass fs = (0, acct, reg', fs')"
    and "\<forall>p d. io p d = Some d"
  obtains keys fs1 where "koe_identity_generate sd seed (ac_keys out) = (0, keys)"
    and "ac_keys acct = keys" and "ac_desc acct = new_desc keys name now1 now2"
    and "reg' = reg\<lparr>ar_accounts := (ar_accounts reg)[ar_count reg := new_desc keys name now1 now2], ar_count := ar_count reg + 1\<rparr>"
    and "koe_identity_save sd io salt nonce keys
          (snprintf_str 512 (snprintf_str 512 (ar_data_root reg @ ''/accounts/'' @ ad_data_subdir (new_desc keys name now1 now2)) @ ''/identity.koe''))
          pass fs = (0, fs1)"
    and "fs' = fs1(registry_path reg \<mapsto> registry_bytes reg')"
    and "ar_count reg < 16"
  using assms
  by (auto simp: koe_account_create_def new_desc_def koe_account_registry_save_def registry_path_def Let_def
      split: if_splits prod.splits)

text \<open>The two paths of an account whose data directory is short enough not to be cut off.\<close>

lemma account_paths:
  assumes "length (ar_data_root reg) \<le> 400" "length sub = 15"
  shows "snprintf_str 512 (snprintf_str 512 (ar_data_root reg @ ''/accounts/'' @ sub) @ ''/identity.koe'')
      = ar_data_root reg @ ''/accounts/'' @ sub @ ''/identity.koe''"
    and "snprintf_str 512 (ar_data_root reg @ ''/accounts/'' @ sub @ ''/identity.koe'')
      = ar_data_root reg @ ''/accounts/'' @ sub @ ''/identity.koe''"
    and "registry_path reg = ar_data_root reg @ ''/accounts.koe''"
    and "ar_data_root reg @ ''/accounts/'' @ sub @ ''/identity.koe'' \<noteq> registry_path reg"
  using assms by (simp_all add: snprintf_str_def registry_path_def)

lemma koe_account_restart:
  assumes "aead_ok sd" and "length salt = 16" and "length nonce = 24" and "\<forall>p d. io p d = Some d"
    and "registry_ok reg" and "\<forall>d\<in>set (drop (ar_count reg) (ar_accounts reg)). d = zero_desc"
    and "length (ar_data_root reg) \<le> 400" and "CHR 0x00 \<notin> set name"
    and "now1 \<in> {-(2 ^ 63)..<2 ^ 63}" and "now2 \<in> {-(2 ^ 63)..<2 ^ 63}"
    and "koe_account_create sd io seed salt nonce now1 now2 out reg name pass fs = (0, acct, reg', fs')"
    and "wf_identity (ac_keys acct)"
    and "koe_account_registry_load (ar_data_root reg) fs' = (rc, reg2)"
    and "koe_account_activate sd blank reg2 (int (ar_count reg)) pass fs' = (rc2, acct2)"
  shows "rc = 0 \<and> take (ar_count reg2) (ar_accounts reg2)
      = map (\<lambda>d. d\<lparr>ad_active := 0\<rparr>) (take (ar_count reg) (ar_accounts reg) @ [ac_desc acct])
    \<and> rc2 = 0 \<and> ac_keys acct2 = ac_keys acct \<and> ac_desc acct2 = ac_desc acct"
proof -
  let ?n = "ar_count reg" and ?a = "ar_accounts reg"
  obtain keys fs1 where c: "ac_keys acct = keys" "ac_desc acct = new_desc keys name now1 now2"
    "reg' = reg\<lparr>ar_accounts := ?a[?n := new_desc keys name now1 now2], ar_count := ?n + 1\<rparr>"
    "koe_identity_save sd io salt nonce keys
          (snprintf_str 512 (snprintf_str 512 (ar_data_root reg @ ''/accounts/'' @ ad_data_subdir (new_desc keys name now1 now2)) @ ''/identity.koe''))
          pass fs = (0, fs1)"
    "fs' = fs1(registry_path reg \<mapsto> registry_bytes reg')" "?n < 16"
    using koe_account_create_ok [OF assms(11,4)] by metis
  let ?d = "new_desc keys name now1 now2"
  have wf: "wf_identity keys" using assms(12) c(1) by simp
  then have sid: "length (ad_data_subdir ?d) = 15" and "desc_ok ?d"
    using new_desc_ok [OF _ assms(8-10)] by auto
  have len: "length ?a = 16" using assms(5) by (simp add: registry_ok_def)
  have ok': "registry_ok reg'"
    using assms(5) \<open>desc_ok ?d\<close> c(3,6) len by (auto simp: registry_ok_def take_Suc_conv_app_nth)
  have "registry_path reg' = registry_path reg" "ar_data_root reg' = ar_data_root reg"
    by (simp_all add: c(3) registry_path_def)
  moreover have "\<forall>d\<in>set (drop (ar_count reg') (ar_accounts reg')). d = zero_desc"
    using assms(6) set_drop_subset_set_drop [of ?n "Suc ?n" ?a] by (auto simp: c(3))
  ultimately have reg2: "rc = 0" "reg2 = reg'\<lparr>ar_accounts := map (\<lambda>d. d\<lparr>ad_active := 0\<rparr>) (ar_accounts reg')\<rparr>"
    using registry_load_save [OF ok', of fs'] assms(13) c(5) by auto
  have acc: "take (ar_count reg2) (ar_accounts reg2) = map (\<lambda>d. d\<lparr>ad_active := 0\<rparr>) (take ?n ?a @ [?d])"
    "ar_accounts reg2 ! ?n = ?d\<lparr>ad_active := 0\<rparr>"
    using reg2(2) c(3,6) len by (simp_all add: take_map take_Suc_conv_app_nth)
  let ?path = "ar_data_root reg @ ''/accounts/'' @ ad_data_subdir ?d @ ''/identity.koe''"
  note paths = account_paths [OF assms(7) sid]
  have "koe_identity_load sd (ac_keys blank) ?path pass fs1 = (0, keys)"
    using koe_identity_load_save [OF assms(1) wf assms(2,3), of io ?path pass fs fs1] assms(4) c(4) paths(1) by simp
  moreover have "fs' ?path = fs1 ?path" using paths(4) c(5) by simp
  ultimately have "koe_identity_load sd (ac_keys blank) ?path pass fs' = (0, keys)"
    by (simp add: koe_identity_load_def)
  then have "koe_account_activate sd blank reg2 (int ?n) pass fs' = (0, blank\<lparr>ac_keys := keys,
      ac_desc := ?d, ac_passphrase := strncpy_str 255 pass\<rparr>)"
    using acc(2) paths(2) reg2(2) c(3) by (simp add: koe_account_activate_def Let_def) (simp add: new_desc_def)
  then show ?thesis using assms(14) reg2(1) acc(1) c(1,2) by auto
qed

text \<open>C32. An account survives a restart: after a successful creation, reading the registry file
  again gives the old accounts and the new one, and activating the new one with the passphrase
  it was created with loads exactly the generated key pair and its descriptor.\<close>

theorem account_survives_restart:
  assumes "aead_ok sd" and "length salt = 16" and "length nonce = 24" and "\<forall>p d. io p d = Some d"
    and "registry_ok reg" and "\<forall>d\<in>set (drop (ar_count reg) (ar_accounts reg)). d = zero_desc"
    and "length (ar_data_root reg) \<le> 400" and "CHR 0x00 \<notin> set name"
    and "now1 \<in> {-(2 ^ 63)..<2 ^ 63}" and "now2 \<in> {-(2 ^ 63)..<2 ^ 63}"
    and "koe_account_create sd io seed salt nonce now1 now2 out reg name pass fs = (0, acct, reg', fs')"
    and "wf_identity (ac_keys acct)"
    and "koe_account_registry_load (ar_data_root reg) fs' = (rc, reg2)"
    and "koe_account_activate sd blank reg2 (int (ar_count reg)) pass fs' = (rc2, acct2)"
  shows "rc = 0 \<and> take (ar_count reg2) (ar_accounts reg2)
      = map (\<lambda>d. d\<lparr>ad_active := 0\<rparr>) (take (ar_count reg) (ar_accounts reg) @ [ac_desc acct])
    \<and> rc2 = 0 \<and> ac_keys acct2 = ac_keys acct \<and> ac_desc acct2 = ac_desc acct"
  using assms by (rule koe_account_restart)

definition empty_registry :: koe_account_registry where
  "empty_registry = \<lparr>ar_accounts = replicate KOE_ACCOUNT_MAX zero_desc, ar_count = 0, ar_data_root = ''/data''\<rparr>"

definition blank_account :: koe_account where
  "blank_account = \<lparr>ac_desc = zero_desc, ac_keys = \<lparr>id_pk = replicate 32 0, id_sk = replicate 64 0\<rparr>, ac_passphrase = []\<rparr>"

lemma demo_create:
  "\<exists>acct reg' fs'. koe_account_create demo_sodium (\<lambda>_ d. Some d) (replicate 64 5) (replicate 16 1) (replicate 24 2) 100 100
     blank_account empty_registry ''me'' ''secret'' Map.empty = (0, acct, reg', fs')
     \<and> ac_keys acct = \<lparr>id_pk = replicate 32 5, id_sk = replicate 64 5\<rparr>"
  by (simp add: koe_account_create_def koe_identity_generate_def koe_identity_save_def koe_encrypt_def demo_sodium_def
      Let_def empty_registry_def blank_account_def)

theorem account_survives_restart_witness:
  "\<exists>acct reg' fs' reg2 acct2. koe_account_create demo_sodium (\<lambda>_ d. Some d) (replicate 64 5) (replicate 16 1) (replicate 24 2) 100 100
     blank_account empty_registry ''me'' ''secret'' Map.empty = (0, acct, reg', fs')
     \<and> koe_account_registry_load ''/data'' fs' = (0, reg2)
     \<and> koe_account_activate demo_sodium blank_account reg2 0 ''secret'' fs' = (0, acct2)
     \<and> ac_keys acct2 = \<lparr>id_pk = replicate 32 5, id_sk = replicate 64 5\<rparr>"
proof -
  obtain acct reg' fs' where c: "koe_account_create demo_sodium (\<lambda>_ d. Some d) (replicate 64 5) (replicate 16 1) (replicate 24 2) 100 100
     blank_account empty_registry ''me'' ''secret'' Map.empty = (0, acct, reg', fs')"
    and k: "ac_keys acct = \<lparr>id_pk = replicate 32 5, id_sk = replicate 64 5\<rparr>"
    using demo_create by blast
  obtain rc reg2 where l: "koe_account_registry_load ''/data'' fs' = (rc, reg2)" by fastforce
  obtain rc2 acct2 where a: "koe_account_activate demo_sodium blank_account reg2 0 ''secret'' fs' = (rc2, acct2)" by fastforce
  have "rc = 0 \<and> rc2 = 0 \<and> ac_keys acct2 = ac_keys acct"
    using account_survives_restart [OF demo_aead_ok _ _ _ _ _ _ _ _ _ c, of rc reg2 blank_account rc2 acct2] l a k
    by (simp add: registry_ok_def empty_registry_def wf_identity_def)
  then have "koe_account_registry_load ''/data'' fs' = (0, reg2)"
    "koe_account_activate demo_sodium blank_account reg2 0 ''secret'' fs' = (0, acct2)"
    "ac_keys acct2 = \<lparr>id_pk = replicate 32 5, id_sk = replicate 64 5\<rparr>" using l a k by simp_all
  with c show ?thesis by (intro exI conjI)
qed

lemma demo_restart:
  "\<exists>fs reg acct. koe_account_registry_load ''/data'' fs = (0, reg)
     \<and> koe_account_activate demo_sodium blank_account reg 0 ''secret'' fs = (0, acct)"
proof -
  obtain acct reg' fs' where c: "koe_account_create demo_sodium (\<lambda>_ d. Some d) (replicate 64 5) (replicate 16 1) (replicate 24 2) 100 100
     blank_account empty_registry ''me'' ''secret'' Map.empty = (0, acct, reg', fs')"
    and k: "wf_identity (ac_keys acct)"
    using demo_create by (auto simp: wf_identity_def)
  obtain rc reg2 where l: "koe_account_registry_load ''/data'' fs' = (rc, reg2)" by fastforce
  obtain rc2 acct2 where a: "koe_account_activate demo_sodium blank_account reg2 0 ''secret'' fs' = (rc2, acct2)" by fastforce
  have "rc = 0 \<and> rc2 = 0"
    using koe_account_restart [OF demo_aead_ok _ _ _ _ _ _ _ _ _ c k, of rc reg2 blank_account rc2 acct2] l a
    by (simp add: registry_ok_def empty_registry_def)
  with l a show ?thesis by auto
qed

lemma read_descs_inactive:
  "read_descs n i bs accounts = (rc, a) \<Longrightarrow> \<forall>d\<in>set accounts. ad_active d = 0 \<Longrightarrow>
   length a = length accounts \<and> (\<forall>d\<in>set a. ad_active d = 0)"
proof (induction n arbitrary: i bs accounts)
  case (Suc n)
  have "\<forall>d\<in>set (accounts[i := (desc_of_bytes (take 376 bs))\<lparr>ad_active := 0\<rparr>]). ad_active d = 0"
    using Suc.prems(2) set_update_subset_insert [of accounts i] by fastforce
  then show ?case
    using Suc.prems Suc.IH [of "Suc i" "drop 376 bs" "accounts[i := (desc_of_bytes (take 376 bs))\<lparr>ad_active := 0\<rparr>]"]
    by (auto split: if_splits)
qed simp

lemma registry_load_inactive:
  assumes "koe_account_registry_load root fs = (0, reg)"
  shows "length (ar_accounts reg) = 16 \<and> ar_count reg \<le> 16 \<and> (\<forall>d\<in>set (ar_accounts reg). ad_active d = 0)"
  using assms read_descs_inactive [of _ 0 _ "replicate 16 zero_desc"]
  by (auto simp: koe_account_registry_load_def zero_desc_def Let_def split: option.splits if_splits prod.splits)

text \<open>The guard against deleting the account in use does not hold after a restart: every
  account of a registry read from its file can be deleted right after it was activated, because
  the flag that the guard reads is cleared when the file is read and activation sets it only in
  the caller's copy.\<close>

theorem account_delete_while_active:
  assumes "koe_account_registry_load root fs = (0, reg)"
    and "koe_account_activate sd out reg idx pass fs = (0, acct)" and "\<forall>p d. io p d = Some d"
  shows "\<exists>reg' fs'. koe_account_delete io reg idx fs = (0, reg', fs') \<and> Suc (ar_count reg') = ar_count reg
    \<and> take (ar_count reg') (ar_accounts reg')
      = take (nat idx) (ar_accounts reg) @ drop (Suc (nat idx)) (take (ar_count reg) (ar_accounts reg))"
proof -
  let ?i = "nat idx" and ?n = "ar_count reg" and ?a = "ar_accounts reg"
  have idx: "0 \<le> idx" "idx < int ?n" using assms(2) by (auto simp: koe_account_activate_def split: if_splits)
  have reg: "length ?a = 16" "?n \<le> 16" "ad_active (?a ! ?i) = 0"
    using registry_load_inactive [OF assms(1)] idx by auto
  show ?thesis
    using idx reg assms(3) by (simp add: koe_account_delete_def koe_account_registry_save_def Let_def nat_less_iff)
qed

theorem account_delete_while_active_witness:
  "\<exists>reg fs acct reg' fs'. koe_account_registry_load ''/data'' fs = (0, reg)
     \<and> koe_account_activate demo_sodium blank_account reg 0 ''secret'' fs = (0, acct)
     \<and> koe_account_delete (\<lambda>_ d. Some d) reg 0 fs = (0, reg', fs')"
proof -
  obtain reg fs acct where l: "koe_account_registry_load ''/data'' fs = (0, reg)"
    and act: "koe_account_activate demo_sodium blank_account reg 0 ''secret'' fs = (0, acct)"
    using demo_restart by blast
  show ?thesis using account_delete_while_active [OF l act, of "\<lambda>_ d. Some d"] l act by auto
qed

text \<open>The change of a passphrase looks for the identity file below the account's subdirectory alone,
  not below the data root where creation put it: with no file there it fails, whatever the
  passphrases.\<close>

lemma change_passphrase_misses_file:
  assumes "fs (snprintf_str 512 (ad_data_subdir (ac_desc account) @ ''/identity.koe'')) = None"
  shows "koe_account_change_passphrase sd io salt nonce account old_pass new_pass fs = (-1, account, fs)"
  using assms by (simp add: koe_account_change_passphrase_def koe_identity_load_def Let_def)

end
