(* ===== verification/Koe_Media.thy ===== *)
theory Koe_Media
  imports Koe_Sealed
begin

text \<open>
  File transfer (\<^verbatim>\<open>src/koe_media.c\<close>). A file is its contents; the sender's descriptor is the file
  it reads (\<open>None\<close> when seeking in it fails), the receiver's descriptor the bytes written so far.
  The offer travels as the C struct, whose layout \<open>offer_bytes\<close> spells out. The lemmas show that
  an offer is read back as built, that the chunks of a file received in order reproduce it and
  pass the hash check, and that the receiver ignores the index each chunk carries.
\<close>

abbreviation (input) KOE_MEDIA_CHUNK_SIZE :: nat where "KOE_MEDIA_CHUNK_SIZE \<equiv> 64 * 1024"
abbreviation (input) KOE_MEDIA_MAX_FILE_SIZE :: nat where "KOE_MEDIA_MAX_FILE_SIZE \<equiv> 512 * 1024 * 1024"

record koe_media_offer =
  mo_transfer_id :: bytes
  mo_filename :: string
  mo_mime_type :: string
  mo_file_size :: u64
  mo_chunk_count :: u32
  mo_sha256 :: bytes
  mo_sender_pk :: bytes
  mo_recipient_pk :: bytes
  mo_offered_at :: unix_time

datatype koe_media_state =
    KOE_MEDIA_IDLE | KOE_MEDIA_OFFERING | KOE_MEDIA_ACCEPTED | KOE_MEDIA_RECEIVING
  | KOE_MEDIA_DONE | KOE_MEDIA_REJECTED | KOE_MEDIA_FAILED

text \<open>\<open>mt_written\<close> is the contents of the file at \<open>save_path\<close> that the descriptor writes.\<close>

record koe_media_transfer =
  mt_offer :: koe_media_offer
  mt_state :: koe_media_state
  mt_chunks_sent :: u32
  mt_chunks_received :: u32
  mt_save_path :: string
  mt_fd :: int
  mt_written :: bytes

section \<open>Names and types\<close>

definition MIME_TABLE :: "(string \<times> string) list" where
  "MIME_TABLE =
    [(''jpg'', ''image/jpeg''), (''jpeg'', ''image/jpeg''), (''png'', ''image/png''), (''gif'', ''image/gif''),
     (''webp'', ''image/webp''), (''mp4'', ''video/mp4''), (''mkv'', ''video/x-matroska''), (''mp3'', ''audio/mpeg''),
     (''ogg'', ''audio/ogg''), (''opus'', ''audio/opus''), (''pdf'', ''application/pdf''), (''zip'', ''application/zip''),
     (''txt'', ''text/plain''), (''md'', ''text/markdown'')]"

text \<open>The text after the last \<open>c\<close>, which \<open>strrchr(s, c) + 1\<close> points to.\<close>

definition after_last :: "char \<Rightarrow> string \<Rightarrow> string option" where
  "after_last c s = (if c \<in> set s then Some (rev (takeWhile (\<lambda>x. x \<noteq> c) (rev s))) else None)"

definition to_lower :: "char \<Rightarrow> char" where
  "to_lower c = (let n = (of_char c :: nat) in if 65 \<le> n \<and> n \<le> 90 then char_of (n + 32) else c)"

definition koe_media_mime_from_extension :: "string \<Rightarrow> string" where
  "koe_media_mime_from_extension filename =
     (case after_last (CHR ''.'') filename of
        None \<Rightarrow> ''application/octet-stream''
      | Some ext \<Rightarrow>
          if ext = [] then ''application/octet-stream''
          else case find (\<lambda>(e, m). map to_lower e = map to_lower ext) MIME_TABLE of
            Some (e, m) \<Rightarrow> m
          | None \<Rightarrow> ''application/octet-stream'')"

section \<open>The sender\<close>

definition sha256_file :: "sodium \<Rightarrow> bytes option \<Rightarrow> bytes option" where
  "sha256_file sd file = map_option (so_sha256 sd) file"

definition offer_bytes :: "koe_media_offer \<Rightarrow> bytes" where
  "offer_bytes off = mo_transfer_id off @ char_array 256 (mo_filename off) @ char_array 128 (mo_mime_type off)
     @ le64 (mo_file_size off) @ le32 (mo_chunk_count off) @ mo_sha256 off @ mo_sender_pk off @ mo_recipient_pk off
     @ replicate 4 0 @ le64 (word_of_int (mo_offered_at off))"

definition offer_of_bytes :: "bytes \<Rightarrow> koe_media_offer" where
  "offer_of_bytes b = \<lparr>mo_transfer_id = mem_read 0 16 b, mo_filename = char_array_str (mem_read 16 256 b),
     mo_mime_type = char_array_str (mem_read 272 128 b), mo_file_size = le64_dec (mem_read 400 8 b),
     mo_chunk_count = le32_dec (mem_read 408 4 b), mo_sha256 = mem_read 412 32 b, mo_sender_pk = mem_read 444 32 b,
     mo_recipient_pk = mem_read 476 32 b, mo_offered_at = sint (le64_dec (mem_read 512 8 b))\<rparr>"

text \<open>\<open>file\<close> is the contents at \<open>file_path\<close> as \<open>stat\<close> sees it, \<open>hashed\<close> what the second opening reads;
  \<open>tid\<close> and \<open>nonce\<close> are random.\<close>

definition koe_media_offer_build ::
  "sodium \<Rightarrow> alloc \<Rightarrow> bytes option \<Rightarrow> bytes option \<Rightarrow> bytes \<Rightarrow> bytes \<Rightarrow> unix_time \<Rightarrow> string \<Rightarrow> bytes \<Rightarrow> koe_session \<Rightarrow>
   koe_media_offer \<Rightarrow> koe_packet \<Rightarrow> int \<times> koe_media_offer \<times> koe_packet" where
  "koe_media_offer_build sd mal file hashed tid nonce now file_path recipient_pk sess offer_out pkt_out =
     (case file of
        None \<Rightarrow> (-1, offer_out, pkt_out)
      | Some data \<Rightarrow>
          if length data > KOE_MEDIA_MAX_FILE_SIZE then (-1, offer_out, pkt_out)
          else
            let basename = (case after_last (CHR ''/'') file_path of Some b \<Rightarrow> b | None \<Rightarrow> file_path);
                offer = \<lparr>mo_transfer_id = tid, mo_filename = strncpy_str 255 basename,
                  mo_mime_type = strncpy_str 127 (koe_media_mime_from_extension basename),
                  mo_file_size = of_nat (length data),
                  mo_chunk_count = of_nat ((length data + KOE_MEDIA_CHUNK_SIZE - 1) div KOE_MEDIA_CHUNK_SIZE),
                  mo_sha256 = replicate 32 0, mo_sender_pk = replicate 32 0, mo_recipient_pk = recipient_pk, mo_offered_at = now\<rparr>
            in case sha256_file sd hashed of
              None \<Rightarrow> (-1, offer, pkt_out)
            | Some h \<Rightarrow>
                let offer = offer\<lparr>mo_sha256 := h\<rparr>
                in if \<not> mal 0 then (-1, offer, pkt_out)
                   else case koe_encrypt sd (offer_bytes offer) nonce (tx_key sess) of
                     None \<Rightarrow> (-1, offer, pkt_out)
                   | Some ct \<Rightarrow> (0, offer, sealed_packet (type_code KOE_TYPE_MEDIA_OFFER) (flag_bit KOE_FLAG_ENCRYPTED)
                                   (of_nat (520 + 16)) (mo_sender_pk offer) recipient_pk nonce ct))"

definition koe_media_chunk_build ::
  "sodium \<Rightarrow> alloc \<Rightarrow> bytes \<Rightarrow> bytes option \<Rightarrow> u32 \<Rightarrow> koe_media_offer \<Rightarrow> koe_session \<Rightarrow> koe_packet \<Rightarrow> int \<times> koe_packet" where
  "koe_media_chunk_build sd mal nonce file_fd chunk_index offer sess pkt_out =
     (let offset = unat chunk_index * KOE_MEDIA_CHUNK_SIZE
      in case file_fd of
        None \<Rightarrow> (-1, pkt_out)
      | Some file \<Rightarrow>
          let remaining = unat (mo_file_size offer - of_nat offset);
              chunk_bytes = (if remaining < KOE_MEDIA_CHUNK_SIZE then remaining else KOE_MEDIA_CHUNK_SIZE)
          in if \<not> mal 0 then (-1, pkt_out)
             else
               let data = mem_read offset chunk_bytes file
               in if length data \<noteq> chunk_bytes then (-1, pkt_out)
                  else if \<not> mal 1 then (-1, pkt_out)
                  else case koe_encrypt sd (be32 chunk_index @ data) nonce (tx_key sess) of
                    None \<Rightarrow> (-1, pkt_out)
                  | Some ct \<Rightarrow>
                      let last_chunk = (chunk_index = mo_chunk_count offer - 1);
                          flags = flag_bit KOE_FLAG_ENCRYPTED OR flag_bit KOE_FLAG_FRAGMENTED;
                          flags = (if last_chunk then flags OR flag_bit KOE_FLAG_LAST_FRAG else flags)
                      in (if last_chunk then 1 else 0,
                          sealed_packet (type_code KOE_TYPE_MEDIA_CHUNK) flags (of_nat (4 + chunk_bytes + 16))
                            (mo_sender_pk offer) (mo_recipient_pk offer) nonce ct))"

definition koe_media_done_build ::
  "sodium \<Rightarrow> alloc \<Rightarrow> bytes \<Rightarrow> koe_media_offer \<Rightarrow> koe_session \<Rightarrow> koe_packet \<Rightarrow> int \<times> koe_packet" where
  "koe_media_done_build sd mal nonce offer sess pkt_out =
     (if \<not> mal 0 then (-1, pkt_out)
      else case koe_encrypt sd (mo_sha256 offer) nonce (tx_key sess) of
        None \<Rightarrow> (-1, pkt_out)
      | Some ct \<Rightarrow> (0, sealed_packet (type_code KOE_TYPE_MEDIA_DONE) (flag_bit KOE_FLAG_ENCRYPTED) 48
                        (mo_sender_pk offer) (mo_recipient_pk offer) nonce ct))"

section \<open>The receiver\<close>

definition koe_media_offer_parse ::
  "sodium \<Rightarrow> alloc \<Rightarrow> koe_packet \<Rightarrow> koe_session \<Rightarrow> koe_media_offer \<Rightarrow> int \<times> koe_media_offer" where
  "koe_media_offer_parse sd mal pkt sess offer_out =
     (case payload pkt of
        NULL \<Rightarrow> (-1, offer_out)
      | Some pay \<Rightarrow>
          if unat (h_length (header pkt)) \<le> 16 then (-1, offer_out)
          else if unat (h_length (header pkt)) - 16 < 520 then (-1, offer_out)
          else if \<not> mal 0 then (-1, offer_out)
          else case koe_decrypt sd (take (unat (h_length (header pkt))) pay) (h_nonce (header pkt)) (rx_key sess) of
            None \<Rightarrow> (-1, offer_out)
          | Some plain \<Rightarrow> (0, offer_of_bytes (take 520 plain)))"

text \<open>The answer to an offer: its id and one byte.\<close>

definition media_ack ::
  "sodium \<Rightarrow> alloc \<Rightarrow> bytes \<Rightarrow> u8 \<Rightarrow> koe_media_offer \<Rightarrow> koe_session \<Rightarrow> koe_packet \<Rightarrow> int \<times> koe_packet" where
  "media_ack sd mal nonce b offer sess pkt_out =
     (if \<not> mal 0 then (-1, pkt_out)
      else case koe_encrypt sd (mo_transfer_id offer @ [b]) nonce (tx_key sess) of
        None \<Rightarrow> (-1, pkt_out)
      | Some ct \<Rightarrow> (0, sealed_packet (type_code KOE_TYPE_MEDIA_ACK) (flag_bit KOE_FLAG_ENCRYPTED) 33
                        (mo_recipient_pk offer) (mo_sender_pk offer) nonce ct))"

definition koe_media_accept_build ::
  "sodium \<Rightarrow> alloc \<Rightarrow> bytes \<Rightarrow> koe_media_offer \<Rightarrow> koe_session \<Rightarrow> koe_packet \<Rightarrow> int \<times> koe_packet" where
  "koe_media_accept_build sd mal nonce offer sess pkt_out = media_ack sd mal nonce 1 offer sess pkt_out"

definition koe_media_reject_build ::
  "sodium \<Rightarrow> alloc \<Rightarrow> bytes \<Rightarrow> koe_media_offer \<Rightarrow> koe_session \<Rightarrow> koe_packet \<Rightarrow> int \<times> koe_packet" where
  "koe_media_reject_build sd mal nonce offer sess pkt_out = media_ack sd mal nonce 0 offer sess pkt_out"

text \<open>\<open>wr n\<close> is how many of \<open>n\<close> bytes the kernel takes.\<close>

definition koe_media_chunk_receive ::
  "sodium \<Rightarrow> alloc \<Rightarrow> (nat \<Rightarrow> nat) \<Rightarrow> koe_media_transfer \<Rightarrow> koe_packet \<Rightarrow> koe_session \<Rightarrow> int \<times> koe_media_transfer" where
  "koe_media_chunk_receive sd mal wr transfer pkt sess =
     (case payload pkt of
        NULL \<Rightarrow> (-1, transfer)
      | Some pay \<Rightarrow>
          if unat (h_length (header pkt)) \<le> 16 then (-1, transfer)
          else if \<not> mal 0 then (-1, transfer)
          else case koe_decrypt sd (take (unat (h_length (header pkt))) pay) (h_nonce (header pkt)) (rx_key sess) of
            None \<Rightarrow> (-1, transfer)
          | Some plain \<Rightarrow>
              if length plain < 4 then (-1, transfer)
              else
                let data = drop 4 plain;
                    transfer = transfer\<lparr>mt_written := mt_written transfer @ take (wr (length data)) data\<rparr>
                in if wr (length data) \<noteq> length data then (-1, transfer)
                   else (0, transfer\<lparr>mt_chunks_received := mt_chunks_received transfer + 1\<rparr>))"

text \<open>\<open>file\<close> is what reopening \<open>save_path\<close> reads.\<close>

definition koe_media_finalise :: "sodium \<Rightarrow> bytes option \<Rightarrow> koe_media_transfer \<Rightarrow> int \<times> koe_media_transfer" where
  "koe_media_finalise sd file transfer =
     (let transfer = transfer\<lparr>mt_fd := -1\<rparr>
      in case sha256_file sd file of
        None \<Rightarrow> (-1, transfer)
      | Some actual \<Rightarrow> (if actual = mo_sha256 (mt_offer transfer) then 0 else -1, transfer))"

definition koe_media_announce :: "koe_media_offer \<Rightarrow> int \<times> bytes" where
  "koe_media_announce offer = (0, mo_transfer_id offer @ mo_sender_pk offer)"

section \<open>Offers\<close>

definition offer_ok :: "koe_media_offer \<Rightarrow> bool" where
  "offer_ok off \<longleftrightarrow> length (mo_transfer_id off) = 16 \<and> cstr_ok 256 (mo_filename off) \<and> cstr_ok 128 (mo_mime_type off)
     \<and> length (mo_sha256 off) = 32 \<and> length (mo_sender_pk off) = 32 \<and> length (mo_recipient_pk off) = 32
     \<and> mo_offered_at off \<in> {-(2 ^ 63)..<2 ^ 63}"

lemma offer_bytes_back:
  assumes "offer_ok off"
  shows "length (offer_bytes off) = 520 \<and> offer_of_bytes (offer_bytes off) = off"
proof -
  have len: "length (mo_transfer_id off) = 16" "length (char_array 256 (mo_filename off)) = 256"
    "length (char_array 128 (mo_mime_type off)) = 128" "length (mo_sha256 off) = 32"
    "length (mo_sender_pk off) = 32" "length (mo_recipient_pk off) = 32"
    using assms by (simp_all add: offer_ok_def cstr_ok_def length_char_array)
  have "sint (word_of_int (mo_offered_at off) :: u64) = mo_offered_at off"
    using assms by (simp add: offer_ok_def signed_of_int signed_take_bit_int_eq_self)
  then show ?thesis
    using len assms
    by (simp add: offer_of_bytes_def offer_bytes_def mem_read_def offer_ok_def char_array_str_array)
qed

text \<open>What the recipient parses from an offer packet is the offer that was built; its sender
  field, and with it the sender of the packet, is zero.\<close>

lemma media_offer_roundtrip:
  assumes "aead_ok sd" "rx_key theirs = tx_key sess" "mal' 0" "length nonce = 24"
    and "koe_media_offer_build sd mal file hashed tid nonce now path to_pk sess o0 p0 = (0, off, pkt)" "offer_ok off"
  shows "koe_media_offer_parse sd mal' pkt theirs o1 = (0, off) \<and> wire_packet pkt \<and> koe_packet_validate pkt = 0
    \<and> h_from (header pkt) = replicate 32 0"
proof -
  obtain ct where ct: "koe_encrypt sd (offer_bytes off) nonce (tx_key sess) = Some ct"
    and pkt: "pkt = sealed_packet (type_code KOE_TYPE_MEDIA_OFFER) (flag_bit KOE_FLAG_ENCRYPTED) (of_nat (520 + 16)) (replicate 32 0) to_pk nonce ct"
    and to: "to_pk = mo_recipient_pk off"
    using assms(5) by (auto simp: koe_media_offer_build_def Let_def split: option.splits if_splits)
  note off = offer_bytes_back [OF assms(6)]
  have "length (mo_recipient_pk off) = 32" using assms(6) by (simp add: offer_ok_def)
  then show ?thesis
    using sealed_packet_opens [OF assms(1) ct, of "replicate 32 0" to_pk 536] off assms(2-4)
    by (simp add: pkt to koe_media_offer_parse_def)
qed

section \<open>Chunks\<close>

definition chunk :: "bytes \<Rightarrow> nat \<Rightarrow> bytes" where
  "chunk file i = take KOE_MEDIA_CHUNK_SIZE (drop (i * KOE_MEDIA_CHUNK_SIZE) file)"

definition chunks_of :: "bytes \<Rightarrow> nat" where
  "chunks_of file = (length file + KOE_MEDIA_CHUNK_SIZE - 1) div KOE_MEDIA_CHUNK_SIZE"

lemma concat_chunks: "concat (map (chunk file) [0..<n]) = take (n * KOE_MEDIA_CHUNK_SIZE) file"
proof (induction n)
  case (Suc n)
  then show ?case by (simp add: chunk_def take_add [symmetric] add.commute)
qed simp

lemma concat_chunks_file: "concat (map (chunk file) [0..<chunks_of file]) = file"
proof -
  have "length file \<le> chunks_of file * 65536"
    using div_mult_mod_eq [of "length file + 65535" 65536] mod_less_divisor [of 65536 "length file + 65535"]
    by (simp add: chunks_of_def)
  then show ?thesis unfolding concat_chunks by simp
qed

text \<open>The offer made for a file.\<close>

definition offer_for :: "sodium \<Rightarrow> bytes \<Rightarrow> koe_media_offer \<Rightarrow> bool" where
  "offer_for sd file off \<longleftrightarrow> length file \<le> KOE_MEDIA_MAX_FILE_SIZE \<and> mo_file_size off = of_nat (length file)
     \<and> mo_chunk_count off = of_nat (chunks_of file) \<and> mo_sha256 off = so_sha256 sd file"

lemma media_offer_for:
  "koe_media_offer_build sd mal (Some file) (Some file) tid nonce now path to_pk sess o0 p0 = (0, off, pkt)
   \<Longrightarrow> offer_for sd file off"
  by (auto simp: koe_media_offer_build_def Let_def offer_for_def chunks_of_def sha256_file_def
      split: option.splits if_splits)

lemma chunk_build_data:
  assumes "offer_for sd file off" "i < chunks_of file" "0 \<le> rc"
    and "koe_media_chunk_build sd mal nonce (Some file) (of_nat i) off sess p0 = (rc, pkt)"
  shows "\<exists>ct fl. koe_encrypt sd (be32 (of_nat i) @ chunk file i) nonce (tx_key sess) = Some ct
    \<and> pkt = sealed_packet (type_code KOE_TYPE_MEDIA_CHUNK) fl (of_nat (length (be32 (of_nat i) @ chunk file i) + 16))
        (mo_sender_pk off) (mo_recipient_pk off) nonce ct
    \<and> (rc = 1 \<longleftrightarrow> i = chunks_of file - 1)"
proof -
  let ?n = "length file" and ?c = "65536 :: nat"
  have n: "?n \<le> 536870912" "mo_file_size off = of_nat ?n" "mo_chunk_count off = of_nat (chunks_of file)"
    using assms(1) by (auto simp: offer_for_def)
  have "chunks_of file \<le> 8192" using n(1) by (simp add: chunks_of_def)
  moreover from this have i: "unat (of_nat i :: u32) = i" using assms(2) by (intro unat_of_nat_small) simp
  moreover have "i * ?c < ?n"
    using assms(2) by (simp add: chunks_of_def less_eq_div_iff_mult_less_eq flip: Suc_le_eq)
  then have "of_nat ?n - of_nat (i * ?c) = (of_nat (?n - i * ?c) :: u64)" by (simp add: of_nat_diff)
  moreover have "unat (of_nat (?n - i * ?c) :: u64) = ?n - i * ?c"
    using n(1) by (intro unat_of_nat_small) simp
  ultimately have r: "unat (mo_file_size off - of_nat (unat (of_nat i :: u32) * ?c)) = ?n - i * ?c"
    using n(2) by simp
  have cc: "of_nat (chunks_of file) - 1 = (of_nat (chunks_of file - 1) :: u32)"
    using assms(2) by (simp add: of_nat_diff)
  have lst: "(of_nat i = (of_nat (chunks_of file - 1) :: u32)) = (i = chunks_of file - 1)"
    using \<open>chunks_of file \<le> 8192\<close> assms(2) i unat_of_nat_small [of "chunks_of file - 1", where 'a = 32] by auto
  have "mem_read (i * ?c) (if ?n - i * ?c < ?c then ?n - i * ?c else ?c) file = chunk file i"
    by (simp add: mem_read_def chunk_def)
  then show ?thesis
    using assms(3,4) r i cc lst n(3) by (auto simp: koe_media_chunk_build_def Let_def split: if_splits option.splits)
qed

fun receive_all ::
  "sodium \<Rightarrow> alloc \<Rightarrow> (nat \<Rightarrow> nat) \<Rightarrow> koe_session \<Rightarrow> koe_packet list \<Rightarrow> koe_media_transfer \<Rightarrow> int \<times> koe_media_transfer" where
  "receive_all sd mal wr sess [] t = (0, t)"
| "receive_all sd mal wr sess (p # ps) t =
     (case koe_media_chunk_receive sd mal wr t p sess of
        (rc, t) \<Rightarrow> if rc \<noteq> 0 then (rc, t) else receive_all sd mal wr sess ps t)"

text \<open>A packet carries a chunk: it decrypts under \<open>key\<close> to an index and the data.\<close>

definition carries :: "sodium \<Rightarrow> bytes \<Rightarrow> koe_packet \<Rightarrow> bytes \<Rightarrow> bool" where
  "carries sd key pkt data \<longleftrightarrow> (\<exists>pay idx. payload pkt = Some pay \<and> length pay = unat (h_length (header pkt))
     \<and> 16 < length pay \<and> koe_decrypt sd pay (h_nonce (header pkt)) key = Some (be32 idx @ data))"

lemma chunk_receive_data:
  assumes "carries sd (rx_key sess) pkt data" "mal 0" "\<And>n. wr n = n"
  shows "koe_media_chunk_receive sd mal wr t pkt sess
    = (0, t\<lparr>mt_written := mt_written t @ data, mt_chunks_received := mt_chunks_received t + 1\<rparr>)"
  using assms by (auto simp: carries_def koe_media_chunk_receive_def Let_def)

lemma receive_all_data:
  assumes "list_all2 (carries sd (rx_key sess)) ps ds" "mal 0" "\<And>n. wr n = n"
  shows "\<exists>t'. receive_all sd mal wr sess ps t = (0, t') \<and> mt_written t' = mt_written t @ concat ds
    \<and> mt_offer t' = mt_offer t \<and> mt_chunks_received t' = mt_chunks_received t + of_nat (length ps)"
  using assms(1)
proof (induction arbitrary: t rule: list_all2_induct)
  case (Cons p ps d ds)
  let ?t = "t\<lparr>mt_written := mt_written t @ d, mt_chunks_received := mt_chunks_received t + 1\<rparr>"
  show ?case
    using Cons.IH [of ?t] chunk_receive_data [where mal = mal and wr = wr, OF Cons.hyps(1) assms(2,3)] by (simp add: ac_simps)
qed simp

lemma chunk_build_carries:
  assumes "aead_ok sd" "rx_key theirs = tx_key sess" "length nonce = 24" "offer_for sd file off" "i < chunks_of file" "0 \<le> rc"
    and "koe_media_chunk_build sd mal nonce (Some file) (of_nat i) off sess p0 = (rc, pkt)"
  shows "carries sd (rx_key theirs) pkt (chunk file i)"
proof -
  obtain ct fl where ct: "koe_encrypt sd (be32 (of_nat i) @ chunk file i) nonce (tx_key sess) = Some ct"
    and pkt: "pkt = sealed_packet (type_code KOE_TYPE_MEDIA_CHUNK) fl (of_nat (length (be32 (of_nat i) @ chunk file i) + 16))
        (mo_sender_pk off) (mo_recipient_pk off) nonce ct"
    using chunk_build_data [OF assms(4-7)] by blast
  have len: "length ct = 4 + length (chunk file i) + 16" "koe_decrypt sd ct nonce (tx_key sess) = Some (be32 (of_nat i) @ chunk file i)"
    using koe_decrypt_encrypt [OF assms(1) ct] by auto
  have "length (chunk file i) \<le> 65536" by (simp add: chunk_def)
  then have "unat (of_nat (length (be32 (of_nat i) @ chunk file i) + 16) :: u32) = length ct"
    unfolding len(1) by (subst unat_of_nat_small) simp_all
  then show ?thesis using len(2) by (auto simp: carries_def pkt assms(2) len(1))
qed

lemma receive_chunks:
  assumes "aead_ok sd" "rx_key theirs = tx_key sess" "mal' 0" "\<forall>n. wr n = n" "\<forall>k. length (nonces k) = 24"
    and "offer_for sd file off" "length ps = length js"
    and "\<forall>k<length js. js ! k < chunks_of file \<and> (\<exists>rc. 0 \<le> rc \<and>
           koe_media_chunk_build sd mal (nonces k) (Some file) (of_nat (js ! k)) off sess p0 = (rc, ps ! k))"
  shows "\<exists>t'. receive_all sd mal' wr theirs ps t = (0, t') \<and> mt_written t' = mt_written t @ concat (map (chunk file) js)
    \<and> mt_offer t' = mt_offer t \<and> mt_chunks_received t' = mt_chunks_received t + of_nat (length js)"
proof -
  have all: "list_all2 (carries sd (rx_key theirs)) ps (map (chunk file) js)"
  proof (rule list_all2_all_nthI)
    fix k assume "k < length ps"
    then have k: "k < length js" using assms(7) by simp
    then obtain rc where "js ! k < chunks_of file" "0 \<le> rc"
      "koe_media_chunk_build sd mal (nonces k) (Some file) (of_nat (js ! k)) off sess p0 = (rc, ps ! k)"
      using assms(8) by blast
    from chunk_build_carries [OF assms(1,2) _ assms(6) this] assms(5) k
    show "carries sd (rx_key theirs) (ps ! k) (map (chunk file) js ! k)" by simp
  qed (simp add: assms(7))
  have "\<And>n. wr n = n" using assms(4) by blast
  from receive_all_data [where mal = mal' and wr = wr and t = t, OF all assms(3) this] assms(7) show ?thesis by simp
qed

text \<open>A concrete transfer, for the examples.\<close>

definition no_offer :: koe_media_offer where
  "no_offer = \<lparr>mo_transfer_id = replicate 16 0, mo_filename = [], mo_mime_type = [], mo_file_size = 0, mo_chunk_count = 0,
     mo_sha256 = replicate 32 0, mo_sender_pk = replicate 32 0, mo_recipient_pk = replicate 32 0, mo_offered_at = 0\<rparr>"

definition fresh_transfer :: "koe_media_offer \<Rightarrow> koe_media_transfer" where
  "fresh_transfer off = \<lparr>mt_offer = off, mt_state = KOE_MEDIA_RECEIVING, mt_chunks_sent = 0, mt_chunks_received = 0,
     mt_save_path = ''b.png'', mt_fd = 3, mt_written = []\<rparr>"

lemma demo_offer:
  "\<exists>off pkt. koe_media_offer_build demo_sodium (\<lambda>_. True) (Some [1, 2, 3]) (Some [1, 2, 3]) tid nonce now path to_pk sess o0 p0
     = (0, off, pkt)"
  by (simp add: koe_media_offer_build_def Let_def sha256_file_def koe_encrypt_def demo_sodium_def)

lemma demo_chunk:
  "offer_for demo_sodium [1, 2, 3] off \<Longrightarrow>
   \<exists>rc p. 0 \<le> rc \<and> koe_media_chunk_build demo_sodium (\<lambda>_. True) nonce (Some [1, 2, 3]) 0 off sess p0 = (rc, p)"
  by (simp add: offer_for_def koe_media_chunk_build_def Let_def mem_read_def koe_encrypt_def demo_sodium_def)

section \<open>Properties\<close>

text \<open>C30. A file that is offered, sent chunk by chunk and received in order arrives intact: the
  receiver's file is exactly the sender's, every chunk is counted, and the final hash check
  succeeds, for every file of up to 512 MiB.\<close>

theorem media_transfer_roundtrip:
  assumes "aead_ok sd" and "rx_key theirs = tx_key sess" and "mal' 0" and "\<forall>n. wr n = n" and "\<forall>i. length (nonces i) = 24"
    and "koe_media_offer_build sd mal (Some file) (Some file) tid nonce now path to_pk sess o0 p0 = (0, off, pkt)"
    and "length ps = chunks_of file"
    and "\<forall>i<chunks_of file. \<exists>rc. 0 \<le> rc \<and> koe_media_chunk_build sd mal (nonces i) (Some file) (of_nat i) off sess p0 = (rc, ps ! i)"
    and "mt_written t = []" and "mt_chunks_received t = 0" and "mt_offer t = off"
  shows "\<exists>t'. receive_all sd mal' wr theirs ps t = (0, t') \<and> mt_written t' = file
    \<and> mt_chunks_received t' = mo_chunk_count off \<and> fst (koe_media_finalise sd (Some (mt_written t')) t') = 0"
proof -
  have off: "offer_for sd file off" by (rule media_offer_for [OF assms(6)])
  obtain t' where t': "receive_all sd mal' wr theirs ps t = (0, t')"
    "mt_written t' = mt_written t @ concat (map (chunk file) [0..<chunks_of file])"
    "mt_offer t' = mt_offer t" "mt_chunks_received t' = mt_chunks_received t + of_nat (length [0..<chunks_of file])"
    using receive_chunks [where mal' = mal' and js = "[0..<chunks_of file]" and t = t, OF assms(1-5) off] assms(7,8)
    by (metis (no_types, lifting) add_0 diff_zero length_upt nth_upt)
  have "mt_written t' = file" "mt_offer t' = off" "mt_chunks_received t' = of_nat (chunks_of file)"
    using t'(2-4) assms(9-11) concat_chunks_file by simp_all
  then show ?thesis
    using t'(1) off by (auto simp: offer_for_def koe_media_finalise_def sha256_file_def)
qed

theorem media_transfer_roundtrip_witness:
  "\<exists>off pkt rc p t'.
     koe_media_offer_build demo_sodium (\<lambda>_. True) (Some [1, 2, 3]) (Some [1, 2, 3]) (replicate 16 7) (replicate 24 0) 5
       ''a/b.png'' (replicate 32 2) zero_session no_offer (koe_packet_init 0 0) = (0, off, pkt) \<and>
     koe_media_chunk_build demo_sodium (\<lambda>_. True) (replicate 24 0) (Some [1, 2, 3]) 0 off zero_session (koe_packet_init 0 0) = (rc, p) \<and>
     receive_all demo_sodium (\<lambda>_. True) (\<lambda>n. n) zero_session [p] (fresh_transfer off) = (0, t') \<and> mt_written t' = [1, 2, 3]"
proof -
  obtain off pkt where off: "koe_media_offer_build demo_sodium (\<lambda>_. True) (Some [1, 2, 3]) (Some [1, 2, 3]) (replicate 16 7)
      (replicate 24 0) 5 ''a/b.png'' (replicate 32 2) zero_session no_offer (koe_packet_init 0 0) = (0, off, pkt)"
    using demo_offer by blast
  obtain rc p where p: "0 \<le> rc" "koe_media_chunk_build demo_sodium (\<lambda>_. True) (replicate 24 0) (Some [1, 2, 3]) 0 off zero_session
      (koe_packet_init 0 0) = (rc, p)"
    using demo_chunk [OF media_offer_for [OF off]] by blast
  have "\<exists>t'. receive_all demo_sodium (\<lambda>_. True) (\<lambda>n. n) zero_session [p] (fresh_transfer off) = (0, t') \<and> mt_written t' = [1, 2, 3]"
    using media_transfer_roundtrip [where theirs = zero_session and mal' = "\<lambda>_. True" and wr = "\<lambda>n. n" and nonces = "\<lambda>_. replicate 24 0" and ps = "[p]"
        and t = "fresh_transfer off", OF demo_aead_ok _ _ _ _ off] p
    by (auto simp: zero_session_def chunks_of_def fresh_transfer_def simp del: receive_all.simps)
  with off p show ?thesis by blast
qed

text \<open>The receiver ignores the index a chunk carries: whatever chunks arrive, in whatever
  order and however often, are written in the order of their arrival and accepted. Only chunks
  in the order of the file give the file.\<close>

theorem media_ignores_chunk_index:
  assumes "aead_ok sd" and "rx_key theirs = tx_key sess" and "mal' 0" and "\<forall>n. wr n = n" and "\<forall>k. length (nonces k) = 24"
    and "koe_media_offer_build sd mal (Some file) (Some file) tid nonce now path to_pk sess o0 p0 = (0, off, pkt)"
    and "length ps = length js"
    and "\<forall>k<length js. js ! k < chunks_of file \<and> (\<exists>rc. 0 \<le> rc \<and>
           koe_media_chunk_build sd mal (nonces k) (Some file) (of_nat (js ! k)) off sess p0 = (rc, ps ! k))"
    and "mt_written t = []"
  shows "\<exists>t'. receive_all sd mal' wr theirs ps t = (0, t') \<and> mt_written t' = concat (map (chunk file) js)"
  using receive_chunks [where mal' = mal' and t = t, OF assms(1-5) media_offer_for [OF assms(6)] assms(7,8)] assms(9) by auto

theorem media_ignores_chunk_index_witness:
  "\<exists>off pkt rc p t'.
     koe_media_offer_build demo_sodium (\<lambda>_. True) (Some [1, 2, 3]) (Some [1, 2, 3]) (replicate 16 7) (replicate 24 0) 5
       ''a/b.png'' (replicate 32 2) zero_session no_offer (koe_packet_init 0 0) = (0, off, pkt) \<and>
     koe_media_chunk_build demo_sodium (\<lambda>_. True) (replicate 24 0) (Some [1, 2, 3]) 0 off zero_session (koe_packet_init 0 0) = (rc, p) \<and>
     receive_all demo_sodium (\<lambda>_. True) (\<lambda>n. n) zero_session [p, p] (fresh_transfer off) = (0, t')
       \<and> mt_written t' = [1, 2, 3, 1, 2, 3]"
proof -
  obtain off pkt where off: "koe_media_offer_build demo_sodium (\<lambda>_. True) (Some [1, 2, 3]) (Some [1, 2, 3]) (replicate 16 7)
      (replicate 24 0) 5 ''a/b.png'' (replicate 32 2) zero_session no_offer (koe_packet_init 0 0) = (0, off, pkt)"
    using demo_offer by blast
  obtain rc p where p: "0 \<le> rc" "koe_media_chunk_build demo_sodium (\<lambda>_. True) (replicate 24 0) (Some [1, 2, 3]) 0 off zero_session
      (koe_packet_init 0 0) = (rc, p)"
    using demo_chunk [OF media_offer_for [OF off]] by blast
  have "\<exists>t'. receive_all demo_sodium (\<lambda>_. True) (\<lambda>n. n) zero_session [p, p] (fresh_transfer off) = (0, t')
      \<and> mt_written t' = concat (map (chunk [1, 2, 3]) [0, 0])"
    using media_ignores_chunk_index [where theirs = zero_session and mal' = "\<lambda>_. True" and wr = "\<lambda>n. n" and nonces = "\<lambda>_. replicate 24 0" and ps = "[p, p]"
        and js = "[0, 0]" and t = "fresh_transfer off", OF demo_aead_ok _ _ _ _ off] p
    by (auto simp: zero_session_def chunks_of_def fresh_transfer_def less_Suc_eq nth_Cons' simp del: receive_all.simps)
  with off p show ?thesis by (auto simp: chunk_def simp del: receive_all.simps)
qed

end
