(* ===== verification/Koe_Audio.thy ===== *)
theory Koe_Audio
  imports Koe_Sealed
begin

text \<open>
  Voice calls (\<^verbatim>\<open>src/koe_audio.c\<close>): encoding and decoding of encrypted Opus frames, the jitter ring,
  and the call signals. Opus is a parameter: the record \<open>opus\<close> says what its functions return, with
  the state of an encoder and of a decoder as the types \<open>'e\<close> and \<open>'d\<close>; \<open>opus_ok\<close> is what the code relies
  on. A call with a NULL handle (before \<open>koe_audio_init\<close> or after \<open>koe_audio_destroy\<close>) is undefined
  and gives \<open>None\<close>. The lemmas show that a frame arrives at the peer's decoder as the encoder made
  it, that the jitter ring stays within its bounds, and that every frame carries its own key.
\<close>

type_synonym sample = "16 word"

abbreviation (input) KOE_AUDIO_FRAME_SAMPLES :: nat where "KOE_AUDIO_FRAME_SAMPLES \<equiv> 8000 * 20 div 1000"
abbreviation (input) KOE_AUDIO_MAX_FRAME_BYTES :: nat where "KOE_AUDIO_MAX_FRAME_BYTES \<equiv> 256"
abbreviation (input) KOE_JITTER_BUF_FRAMES :: nat where "KOE_JITTER_BUF_FRAMES \<equiv> 4"

text \<open>\<open>op_encode\<close> gives the encoded bytes, or \<open>None\<close> for a negative result; \<open>op_decode\<close> takes the
  packet (\<open>None\<close> for the concealment of a lost one) and the buffer and gives the result, the buffer
  and the new state.\<close>

record ('e, 'd) opus =
  op_encoder_create :: "'e option"
  op_decoder_create :: "'d option"
  op_encode :: "'e \<Rightarrow> sample list \<Rightarrow> bytes option \<times> 'e"
  op_decode :: "'d \<Rightarrow> bytes option \<Rightarrow> sample list \<Rightarrow> int \<times> sample list \<times> 'd"

definition opus_ok :: "('e, 'd) opus \<Rightarrow> bool" where
  "opus_ok op \<longleftrightarrow> (\<forall>e pcm frame e'. op_encode op e pcm = (Some frame, e') \<longrightarrow> length frame \<le> KOE_AUDIO_MAX_FRAME_BYTES)"

datatype koe_call_state = KOE_CALL_IDLE | KOE_CALL_RINGING | KOE_CALL_ACTIVE | KOE_CALL_ENDED

record ('e, 'd) koe_audio_ctx =
  au_encoder :: "'e ptr"
  au_decoder :: "'d ptr"
  au_state :: koe_call_state
  au_remote_pk :: bytes
  au_muted :: int
  au_speaker_muted :: int
  au_frames_sent :: u64
  au_frames_received :: u64
  au_frames_lost :: u64
  au_jitter_buf :: "sample list list"
  au_jitter_write :: nat
  au_jitter_read :: nat

definition zero_audio :: "('e, 'd) koe_audio_ctx" where
  "zero_audio = \<lparr>au_encoder = NULL, au_decoder = NULL, au_state = KOE_CALL_IDLE, au_remote_pk = replicate 32 0, au_muted = 0,
     au_speaker_muted = 0, au_frames_sent = 0, au_frames_received = 0, au_frames_lost = 0,
     au_jitter_buf = replicate KOE_JITTER_BUF_FRAMES (replicate KOE_AUDIO_FRAME_SAMPLES 0), au_jitter_write = 0, au_jitter_read = 0\<rparr>"

section \<open>Operations\<close>

definition koe_audio_init :: "('e, 'd) opus \<Rightarrow> bytes \<Rightarrow> int \<times> ('e, 'd) koe_audio_ctx" where
  "koe_audio_init op remote_pk =
     (let ctx = zero_audio\<lparr>au_remote_pk := remote_pk\<rparr>
      in case op_encoder_create op of
           None \<Rightarrow> (-1, ctx)
         | Some e \<Rightarrow>
             (case op_decoder_create op of
                None \<Rightarrow> (-1, ctx\<lparr>au_encoder := NULL\<rparr>)
              | Some d \<Rightarrow> (0, ctx\<lparr>au_encoder := Some e, au_decoder := Some d, au_state := KOE_CALL_RINGING\<rparr>)))"

definition koe_audio_destroy :: "('e, 'd) koe_audio_ctx \<Rightarrow> ('e, 'd) koe_audio_ctx" where
  "koe_audio_destroy ctx = ctx\<lparr>au_encoder := NULL, au_decoder := NULL, au_state := KOE_CALL_ENDED\<rparr>"

definition koe_audio_encode_frame ::
  "sodium \<Rightarrow> ('e, 'd) opus \<Rightarrow> alloc \<Rightarrow> bytes \<Rightarrow> ('e, 'd) koe_audio_ctx \<Rightarrow> sample list \<Rightarrow> koe_session \<Rightarrow> koe_packet \<Rightarrow>
   (int \<times> ('e, 'd) koe_audio_ctx \<times> koe_packet) option" where
  "koe_audio_encode_frame sd op mal nonce ctx pcm sess pkt_out =
     (if au_muted ctx \<noteq> 0 then Some (0, ctx, pkt_out)
      else case au_encoder ctx of
        NULL \<Rightarrow> None
      | Some e \<Rightarrow>
          (case op_encode op e pcm of
             (None, e') \<Rightarrow> Some (-1, ctx\<lparr>au_encoder := Some e'\<rparr>, pkt_out)
           | (Some frame, e') \<Rightarrow>
               let ctx = ctx\<lparr>au_encoder := Some e'\<rparr>
               in if \<not> mal 0 then Some (-1, ctx, pkt_out)
                  else case koe_encrypt sd frame nonce (tx_key sess) of
                    None \<Rightarrow> Some (-1, ctx, pkt_out)
                  | Some ct \<Rightarrow>
                      Some (0, ctx\<lparr>au_frames_sent := au_frames_sent ctx + 1\<rparr>,
                        sealed_packet (type_code KOE_TYPE_AUDIO) (flag_bit KOE_FLAG_ENCRYPTED) (of_nat (length frame + 16))
                          (tx_key sess) (au_remote_pk ctx) nonce ct)))"

definition koe_audio_decode_frame ::
  "sodium \<Rightarrow> ('e, 'd) opus \<Rightarrow> alloc \<Rightarrow> ('e, 'd) koe_audio_ctx \<Rightarrow> koe_packet \<Rightarrow> koe_session \<Rightarrow> sample list \<Rightarrow>
   (int \<times> ('e, 'd) koe_audio_ctx \<times> sample list) option" where
  "koe_audio_decode_frame sd op mal ctx pkt sess pcm =
     (if payload pkt = NULL \<or> unat (h_length (header pkt)) \<le> 16 then
        (case au_decoder ctx of
           NULL \<Rightarrow> None
         | Some d \<Rightarrow>
             (case op_decode op d None pcm of
                (n, pcm, d') \<Rightarrow> Some (if n > 0 then 0 else -1,
                   ctx\<lparr>au_frames_lost := au_frames_lost ctx + 1, au_decoder := Some d'\<rparr>, pcm)))
      else if \<not> mal 0 then Some (-1, ctx, pcm)
      else case koe_decrypt sd (take (unat (h_length (header pkt))) (the (payload pkt))) (h_nonce (header pkt)) (rx_key sess) of
        None \<Rightarrow> Some (-1, ctx\<lparr>au_frames_lost := au_frames_lost ctx + 1\<rparr>, pcm)
      | Some plain \<Rightarrow>
          (case au_decoder ctx of
             NULL \<Rightarrow> None
           | Some d \<Rightarrow>
               (case op_decode op d (Some plain) pcm of
                  (n, pcm, d') \<Rightarrow>
                    let ctx = ctx\<lparr>au_decoder := Some d'\<rparr>
                    in if n < 0 then Some (-1, ctx, pcm)
                       else Some (0, ctx\<lparr>au_frames_received := au_frames_received ctx + 1,
                              au_jitter_buf := (au_jitter_buf ctx)[au_jitter_write ctx := take KOE_AUDIO_FRAME_SAMPLES pcm],
                              au_jitter_write := (au_jitter_write ctx + 1) mod KOE_JITTER_BUF_FRAMES\<rparr>, pcm))))"

definition build_call_signal :: "sodium \<Rightarrow> alloc \<Rightarrow> bytes \<Rightarrow> koe_packet \<Rightarrow> u8 \<Rightarrow> koe_identity \<Rightarrow> bytes \<Rightarrow> koe_session \<Rightarrow> int \<times> koe_packet" where
  "build_call_signal sd mal nonce pkt signal_type local_id remote_pk sess =
     (case koe_encrypt sd [signal_type] nonce (tx_key sess) of
        None \<Rightarrow> (-1, pkt)
      | Some ct \<Rightarrow>
          if \<not> mal 0 then (-1, pkt)
          else (0, sealed_packet (if signal_type = 1 then type_code KOE_TYPE_HELLO else type_code KOE_TYPE_ACK)
                     (flag_bit KOE_FLAG_ENCRYPTED) 17 (id_pk local_id) remote_pk nonce ct))"

definition koe_audio_build_call_start :: "sodium \<Rightarrow> alloc \<Rightarrow> bytes \<Rightarrow> koe_packet \<Rightarrow> koe_identity \<Rightarrow> bytes \<Rightarrow> koe_session \<Rightarrow> int \<times> koe_packet" where
  "koe_audio_build_call_start sd mal nonce pkt local_id remote_pk sess = build_call_signal sd mal nonce pkt 1 local_id remote_pk sess"

definition koe_audio_build_call_end :: "sodium \<Rightarrow> alloc \<Rightarrow> bytes \<Rightarrow> koe_packet \<Rightarrow> koe_identity \<Rightarrow> bytes \<Rightarrow> koe_session \<Rightarrow> int \<times> koe_packet" where
  "koe_audio_build_call_end sd mal nonce pkt local_id remote_pk sess = build_call_signal sd mal nonce pkt 0 local_id remote_pk sess"

definition koe_audio_set_mute :: "('e, 'd) koe_audio_ctx \<Rightarrow> int \<Rightarrow> ('e, 'd) koe_audio_ctx" where
  "koe_audio_set_mute ctx muted = ctx\<lparr>au_muted := muted\<rparr>"

definition koe_audio_set_speaker_mute :: "('e, 'd) koe_audio_ctx \<Rightarrow> int \<Rightarrow> ('e, 'd) koe_audio_ctx" where
  "koe_audio_set_speaker_mute ctx muted = ctx\<lparr>au_speaker_muted := muted\<rparr>"

section \<open>The jitter ring\<close>

text \<open>The write position is a slot of the ring, every slot holds a frame, and the two handles are
  both present exactly while the call is set up.\<close>

definition audio_ok :: "('e, 'd) koe_audio_ctx \<Rightarrow> bool" where
  "audio_ok ctx \<longleftrightarrow> length (au_jitter_buf ctx) = KOE_JITTER_BUF_FRAMES \<and> au_jitter_write ctx < KOE_JITTER_BUF_FRAMES
     \<and> (\<forall>f\<in>set (au_jitter_buf ctx). length f = KOE_AUDIO_FRAME_SAMPLES)
     \<and> (au_encoder ctx = NULL \<longleftrightarrow> au_decoder ctx = NULL) \<and> (au_encoder ctx = NULL \<longleftrightarrow> au_state ctx \<in> {KOE_CALL_IDLE, KOE_CALL_ENDED})"

text \<open>A call from its set-up on: frames go out and come in, with decoders that fill the buffer.\<close>

inductive audio_step :: "sodium \<Rightarrow> ('e, 'd) opus \<Rightarrow> ('e, 'd) koe_audio_ctx \<Rightarrow> ('e, 'd) koe_audio_ctx \<Rightarrow> bool" for sd op where
  encode: "koe_audio_encode_frame sd op mal nonce ctx pcm sess pkt0 = Some (rc, ctx', pkt) \<Longrightarrow> audio_step sd op ctx ctx'"
| decode: "koe_audio_decode_frame sd op mal ctx pkt sess pcm = Some (rc, ctx', pcm') \<Longrightarrow> length pcm' = KOE_AUDIO_FRAME_SAMPLES \<Longrightarrow>
    audio_step sd op ctx ctx'"
| mute: "audio_step sd op ctx (koe_audio_set_mute ctx m)"
| speaker: "audio_step sd op ctx (koe_audio_set_speaker_mute ctx m)"
| destroy: "audio_step sd op ctx (koe_audio_destroy ctx)"

lemma audio_init_ok: "audio_ok (snd (koe_audio_init op remote_pk))"
  by (auto simp: koe_audio_init_def zero_audio_def audio_ok_def Let_def split: option.splits)

lemma audio_step_ok: "audio_step sd op ctx ctx' \<Longrightarrow> audio_ok ctx \<Longrightarrow> audio_ok ctx'"
proof (induction rule: audio_step.induct)
  case (encode mal nonce ctx pcm sess pkt0 rc ctx' pkt)
  then show ?case
    by (auto simp: koe_audio_encode_frame_def audio_ok_def Let_def split: if_splits option.splits prod.splits)
next
  case (decode mal ctx pkt sess pcm rc ctx' pcm')
  then show ?case
    by (auto simp: koe_audio_decode_frame_def audio_ok_def Let_def set_update_subset_insert [THEN subsetD]
        dest!: set_update_subset_insert [THEN subsetD] split: if_splits option.splits prod.splits)
qed (auto simp: audio_ok_def koe_audio_set_mute_def koe_audio_set_speaker_mute_def koe_audio_destroy_def)

lemma encode_frame_packet:
  assumes "aead_ok sd" "opus_ok op" "au_muted ctx = 0" "length nonce = 24" "length (tx_key sess) = 32" "length (au_remote_pk ctx) = 32"
    and "koe_audio_encode_frame sd op mal nonce ctx pcm sess pkt0 = Some (0, ctx', pkt)"
  shows "\<exists>e e' frame ct. au_encoder ctx = Some e \<and> op_encode op e pcm = (Some frame, e') \<and> payload pkt = Some ct
    \<and> unat (h_length (header pkt)) = length ct \<and> length ct = length frame + 16 \<and> h_nonce (header pkt) = nonce
    \<and> h_from (header pkt) = tx_key sess \<and> koe_decrypt sd ct nonce (tx_key sess) = Some frame
    \<and> wire_packet pkt \<and> koe_packet_validate pkt = 0 \<and> ctx' = ctx\<lparr>au_encoder := Some e', au_frames_sent := au_frames_sent ctx + 1\<rparr>"
proof -
  obtain e e' frame ct where e: "au_encoder ctx = Some e" "op_encode op e pcm = (Some frame, e')"
    and ct: "koe_encrypt sd frame nonce (tx_key sess) = Some ct"
    and pkt: "pkt = sealed_packet (type_code KOE_TYPE_AUDIO) (flag_bit KOE_FLAG_ENCRYPTED) (of_nat (length frame + 16))
        (tx_key sess) (au_remote_pk ctx) nonce ct"
    and ctx': "ctx' = ctx\<lparr>au_encoder := Some e', au_frames_sent := au_frames_sent ctx + 1\<rparr>"
    using assms(3,7) by (auto simp: koe_audio_encode_frame_def Let_def split: option.splits prod.splits if_splits)
  have "length frame + 16 \<le> KOE_MAX_PAYLOAD" using assms(2) e(2) by (fastforce simp: opus_ok_def)
  from sealed_packet_opens [OF assms(1) ct assms(5,6,4) this refl] e ctx' show ?thesis by (simp add: pkt del: of_nat_add)
qed

section \<open>Properties\<close>

text \<open>C36. During a call, whatever frames arrive and however often encoding or decoding fails, the
  jitter ring keeps its four frames of 160 samples, its write position stays inside the ring, and
  encoder and decoder are present together exactly while the call is set up.\<close>

theorem audio_call_invariant:
  assumes "koe_audio_init op remote_pk = (rc, ctx0)" and "rtranclp (audio_step sd op) ctx0 ctx"
  shows "audio_ok ctx"
  using assms(2) audio_init_ok [of op remote_pk] assms(1) by (induction rule: rtranclp_induct) (auto intro: audio_step_ok)

text \<open>C37. A voice frame arrives as the encoder made it: the peer, whose receive key is the sender's
  transmit key, hands its decoder exactly the bytes the sender's encoder produced, puts the
  decoded samples into the next slot of its jitter ring and counts the frame.\<close>

theorem audio_frame_roundtrip:
  assumes "aead_ok sd" and "opus_ok op" and "au_muted ctx = 0" and "length nonce = 24" and "length (tx_key sess) = 32"
    and "length (au_remote_pk ctx) = 32" and "koe_audio_encode_frame sd op mal nonce ctx pcm sess pkt0 = Some (0, ctx', pkt)"
    and "au_encoder ctx = Some e" and "op_encode op e pcm = (Some frame, e')" and "0 < length frame"
    and "rx_key theirs = tx_key sess" and "mal' 0" and "au_decoder peer = Some d" and "op_decode op d (Some frame) pcm0 = (n, pcm', d')" and "0 \<le> n"
  shows "koe_audio_decode_frame sd op mal' peer pkt theirs pcm0
    = Some (0, peer\<lparr>au_decoder := Some d', au_frames_received := au_frames_received peer + 1,
        au_jitter_buf := (au_jitter_buf peer)[au_jitter_write peer := take 160 pcm'],
        au_jitter_write := (au_jitter_write peer + 1) mod 4\<rparr>, pcm')"
proof -
  obtain ct where "payload pkt = Some ct" "unat (h_length (header pkt)) = length ct" "length ct = length frame + 16"
    "h_nonce (header pkt) = nonce" "koe_decrypt sd ct nonce (tx_key sess) = Some frame"
    using encode_frame_packet [OF assms(1-7)] assms(8,9) by auto
  then show ?thesis using assms(10-15) by (simp add: koe_audio_decode_frame_def Let_def)
qed

text \<open>Every voice frame carries its own key: the sender field of the clear-text header is the
  session's transmit key, so whoever sees a frame on the wire can decrypt it without any secret.\<close>

theorem audio_frame_leaks_key:
  assumes "aead_ok sd" and "opus_ok op" and "au_muted ctx = 0" and "length nonce = 24" and "length (tx_key sess) = 32"
    and "length (au_remote_pk ctx) = 32" and "koe_audio_encode_frame sd op mal nonce ctx pcm sess pkt0 = Some (0, ctx', pkt)"
  shows "\<exists>e e' frame. au_encoder ctx = Some e \<and> op_encode op e pcm = (Some frame, e')
    \<and> koe_decrypt sd (the (payload pkt)) (h_nonce (header pkt)) (h_from (header pkt)) = Some frame"
  using encode_frame_packet [OF assms] by force

section \<open>Examples\<close>

text \<open>A codec that sends the low byte of the first sample.\<close>

definition demo_opus :: "(unit, unit) opus" where
  "demo_opus = \<lparr>op_encoder_create = Some (), op_decoder_create = Some (),
     op_encode = (\<lambda>e pcm. (Some [ucast (pcm ! 0)], ())),
     op_decode = (\<lambda>d p pcm. (case p of None \<Rightarrow> (0, pcm, ()) | Some bs \<Rightarrow> (160, replicate 160 (ucast (bs ! 0)), ())))\<rparr>"

lemma demo_opus_ok: "opus_ok demo_opus"
  by (simp add: opus_ok_def demo_opus_def)

abbreviation demo_call :: "(unit, unit) koe_audio_ctx" where
  "demo_call \<equiv> snd (koe_audio_init demo_opus (replicate 32 9))"

lemma demo_frame:
  "koe_audio_encode_frame demo_sodium demo_opus (\<lambda>_. True) (replicate 24 0) demo_call (replicate 160 5) zero_session (koe_packet_init 0 0)
   = Some (0, demo_call\<lparr>au_frames_sent := 1\<rparr>, sealed_packet (type_code KOE_TYPE_AUDIO) (flag_bit KOE_FLAG_ENCRYPTED) 17
       (replicate 32 0) (replicate 32 9) (replicate 24 0) (5 # replicate 16 0))"
  by (simp add: koe_audio_encode_frame_def koe_audio_init_def zero_audio_def demo_opus_def koe_encrypt_def demo_sodium_def
      zero_session_def)

lemma demo_call_sel: "au_muted demo_call = 0" "au_remote_pk demo_call = replicate 32 9" "au_encoder demo_call = Some ()" "au_decoder demo_call = Some ()"
  "au_jitter_write demo_call = 0"
  by (simp_all add: koe_audio_init_def demo_opus_def zero_audio_def)

theorem audio_call_invariant_witness:
  "koe_audio_init demo_opus (replicate 32 9) = (0, demo_call) \<and>
   rtranclp (audio_step demo_sodium demo_opus) demo_call (demo_call\<lparr>au_frames_sent := 1\<rparr>) \<and> audio_ok (demo_call\<lparr>au_frames_sent := 1\<rparr>)"
proof -
  have i: "koe_audio_init demo_opus (replicate 32 9) = (0, demo_call)" by (simp add: koe_audio_init_def demo_opus_def)
  have s: "rtranclp (audio_step demo_sodium demo_opus) demo_call (demo_call\<lparr>au_frames_sent := 1\<rparr>)"
    using audio_step.encode [OF demo_frame] by blast
  from audio_call_invariant [OF i s] i s show ?thesis by simp
qed

theorem audio_frame_roundtrip_witness:
  "\<exists>pkt ctx'. koe_audio_encode_frame demo_sodium demo_opus (\<lambda>_. True) (replicate 24 0) demo_call (replicate 160 5) zero_session (koe_packet_init 0 0)
      = Some (0, ctx', pkt) \<and>
    (\<exists>peer'. koe_audio_decode_frame demo_sodium demo_opus (\<lambda>_. True) demo_call pkt zero_session (replicate 160 0) = Some (0, peer', replicate 160 5)
       \<and> au_jitter_write peer' = 1)"
proof -
  have pk: "length (au_remote_pk demo_call) = 32" by (simp add: demo_call_sel)
  have key: "length (tx_key zero_session) = 32" "rx_key zero_session = tx_key zero_session" by (simp_all add: zero_session_def)
  have codec: "op_encode demo_opus () (replicate 160 5) = (Some [5], ())" "op_decode demo_opus () (Some [5]) (replicate 160 0) = (160, replicate 160 5, ())"
    by (simp_all add: demo_opus_def)
  have "length (replicate 24 (0 :: byte)) = 24" by simp
  from audio_frame_roundtrip [where mal' = "\<lambda>_. True", OF demo_aead_ok demo_opus_ok demo_call_sel(1) this key(1) pk demo_frame demo_call_sel(3) codec(1) _
      key(2) _ demo_call_sel(4) codec(2)] demo_frame
  show ?thesis by (auto simp: demo_call_sel)
qed

theorem audio_frame_leaks_key_witness:
  "\<exists>pkt ctx'. koe_audio_encode_frame demo_sodium demo_opus (\<lambda>_. True) (replicate 24 0) demo_call (replicate 160 5) zero_session (koe_packet_init 0 0)
      = Some (0, ctx', pkt) \<and> koe_decrypt demo_sodium (the (payload pkt)) (h_nonce (header pkt)) (h_from (header pkt)) = Some [5]"
proof -
  have "length (au_remote_pk demo_call) = 32" "length (tx_key zero_session) = 32" by (simp_all add: demo_call_sel zero_session_def)
  then show ?thesis
    using audio_frame_leaks_key [OF demo_aead_ok demo_opus_ok demo_call_sel(1) _ _ _ demo_frame] demo_frame
    by (auto simp: demo_call_sel demo_opus_def)
qed

end
