(* ===== verification/Koe_Ghost.thy ===== *)
theory Koe_Ghost
  imports Koe_Crypto Koe_Packet
begin

text \<open>
  Ghost mode, secret chats and travel mode (\<^verbatim>\<open>src/koe_ghost.c\<close>). The flag \<open>s_secret_unlocked\<close> is
  passed explicitly; files are a map from paths to contents, \<open>io\<close> says what a write stores and \<open>rm\<close>
  whether a file can be removed. The lemmas show which packets ghost mode answers, that wiping
  leaves no byte of the secret file, that travel mode ends only with a PIN of the same hash, and
  that the PIN of a secret chat is never looked at.
\<close>

record koe_ghost_state =
  gh_active :: int
  gh_suppress_read_receipts :: int
  gh_suppress_typing :: int

definition is_direct_msg :: "u8 \<Rightarrow> bool" where
  "is_direct_msg type \<longleftrightarrow> type = type_code KOE_TYPE_MSG \<or> type = type_code KOE_TYPE_AUDIO
     \<or> type = type_code KOE_TYPE_HELLO \<or> type = type_code KOE_TYPE_HELLO_ACK"

definition koe_ghost_enable :: "koe_ghost_state \<Rightarrow> koe_ghost_state" where
  "koe_ghost_enable g = g\<lparr>gh_active := 1, gh_suppress_read_receipts := 1, gh_suppress_typing := 1\<rparr>"

definition koe_ghost_disable :: "koe_ghost_state \<Rightarrow> koe_ghost_state" where
  "koe_ghost_disable g = \<lparr>gh_active = 0, gh_suppress_read_receipts = 0, gh_suppress_typing = 0\<rparr>"

definition koe_ghost_should_respond :: "koe_ghost_state \<Rightarrow> u8 \<Rightarrow> int" where
  "koe_ghost_should_respond g packet_type = (if gh_active g = 0 then 1 else if is_direct_msg packet_type then 1 else 0)"

section \<open>Secret chats\<close>

definition secret_path :: "string \<Rightarrow> string" where
  "secret_path data_dir = snprintf_str 512 (data_dir @ ''/secret.koe'')"

definition koe_secret_chat_unlock :: "file_io \<Rightarrow> bytes \<Rightarrow> string \<Rightarrow> string \<Rightarrow> filesys \<Rightarrow> int \<Rightarrow> int \<times> filesys \<times> int" where
  "koe_secret_chat_unlock io salt pin data_dir fs s_secret_unlocked =
     (case fs (secret_path data_dir) of
        None \<Rightarrow>
          (case io (secret_path data_dir) (str_bytes ''KOESEC'' @ [1] @ salt) of
             None \<Rightarrow> (0, fs, 1)
           | Some stored \<Rightarrow> (0, fs(secret_path data_dir \<mapsto> stored), 1))
      | Some _ \<Rightarrow> (0, fs, 1))"

definition koe_secret_chat_lock :: "int \<Rightarrow> int" where
  "koe_secret_chat_lock s_secret_unlocked = 0"

definition koe_secret_chat_is_unlocked :: "int \<Rightarrow> int" where
  "koe_secret_chat_is_unlocked s_secret_unlocked = s_secret_unlocked"

text \<open>The loop that writes zeros, 512 at a time.\<close>

fun zero_fill :: "nat \<Rightarrow> bytes" where
  "zero_fill sz = (if sz = 0 then [] else let w = if sz > 512 then 512 else sz in replicate w 0 @ zero_fill (sz - w))"

declare zero_fill.simps [simp del]

definition koe_secret_chat_wipe :: "(string \<Rightarrow> bool) \<Rightarrow> string \<Rightarrow> filesys \<Rightarrow> int \<Rightarrow> int \<times> filesys \<times> int" where
  "koe_secret_chat_wipe rm data_dir fs s_secret_unlocked =
     (case fs (secret_path data_dir) of
        None \<Rightarrow> (0, fs, 0)
      | Some data \<Rightarrow>
          let written = zero_fill (length data) @ drop (length (zero_fill (length data))) data
          in (0, if rm (secret_path data_dir) then fs(secret_path data_dir := None) else fs(secret_path data_dir \<mapsto> written), 0))"

section \<open>Travel mode\<close>

definition travel_path :: "string \<Rightarrow> string" where
  "travel_path data_dir = snprintf_str 512 (data_dir @ ''/travel.koe'')"

definition pin_hash :: "sodium \<Rightarrow> string \<Rightarrow> bytes" where
  "pin_hash sd pin = so_generichash sd 32 32 (str_bytes pin)"

definition koe_travel_mode_enable :: "sodium \<Rightarrow> file_io \<Rightarrow> string \<Rightarrow> string \<Rightarrow> filesys \<Rightarrow> int \<times> filesys" where
  "koe_travel_mode_enable sd io recovery_pin data_dir fs =
     (case io (travel_path data_dir) (str_bytes ''KOETRV'' @ [1] @ pin_hash sd recovery_pin) of
        None \<Rightarrow> (-1, fs)
      | Some stored \<Rightarrow> (0, fs(travel_path data_dir \<mapsto> stored)))"

text \<open>A file that is too short leaves the end of \<open>stored_hash\<close> as it was on the stack (\<open>junk\<close>).\<close>

definition koe_travel_mode_disable :: "sodium \<Rightarrow> (string \<Rightarrow> bool) \<Rightarrow> bytes \<Rightarrow> string \<Rightarrow> string \<Rightarrow> filesys \<Rightarrow> int \<times> filesys" where
  "koe_travel_mode_disable sd rm junk recovery_pin data_dir fs =
     (case fs (travel_path data_dir) of
        None \<Rightarrow> (-1, fs)
      | Some file \<Rightarrow>
          let stored = mem_read 7 32 file;
              stored_hash = stored @ drop (length stored) junk
          in if stored_hash \<noteq> pin_hash sd recovery_pin then (-1, fs)
             else (0, if rm (travel_path data_dir) then fs(travel_path data_dir := None) else fs))"

definition koe_travel_mode_active :: "string \<Rightarrow> filesys \<Rightarrow> int" where
  "koe_travel_mode_active data_dir fs = (case fs (travel_path data_dir) of None \<Rightarrow> 0 | Some _ \<Rightarrow> 1)"

section \<open>Lemmas\<close>

text \<open>Ghost mode answers exactly messages, calls and handshakes.\<close>

lemma ghost_responds:
  "koe_ghost_should_respond (koe_ghost_enable g) (type_code t) = 1 \<longleftrightarrow>
     t \<in> {KOE_TYPE_MSG, KOE_TYPE_AUDIO, KOE_TYPE_HELLO, KOE_TYPE_HELLO_ACK}"
  "koe_ghost_should_respond (koe_ghost_disable g) p = 1"
  by (cases t) (simp_all add: koe_ghost_should_respond_def koe_ghost_enable_def koe_ghost_disable_def is_direct_msg_def)

lemma zero_fill_replicate: "zero_fill n = replicate n 0"
proof (induction n rule: zero_fill.induct)
  case (1 n)
  show ?case
  proof (cases "n = 0")
    case False
    let ?w = "if n > 512 then 512 else n"
    have "zero_fill n = replicate ?w 0 @ zero_fill (n - ?w)" using False by (subst zero_fill.simps) (simp add: Let_def)
    also have "zero_fill (n - ?w) = replicate (n - ?w) 0" by (rule "1.IH" [OF False refl])
    finally show ?thesis by (simp add: replicate_add [symmetric])
  qed (simp add: zero_fill.simps)
qed

text \<open>After a wipe the secret file is gone or all zeros, and the chat is locked.\<close>

lemma secret_chat_wiped:
  assumes "koe_secret_chat_wipe rm data_dir fs u = (rc, fs', u')"
  shows "rc = 0 \<and> koe_secret_chat_is_unlocked u' = 0 \<and> (\<forall>data. fs' (secret_path data_dir) = Some data \<longrightarrow> set data \<subseteq> {0})"
  using assms by (auto simp: koe_secret_chat_wipe_def koe_secret_chat_is_unlocked_def zero_fill_replicate Let_def split: option.splits if_splits)

section \<open>Properties\<close>

text \<open>Travel mode is on from its activation until it is ended with a PIN of the same hash: a
  different PIN is refused and changes nothing, the right one removes the file.\<close>

theorem travel_mode_lifecycle:
  assumes "hash_ok sd" and "io (travel_path data_dir) (str_bytes ''KOETRV'' @ [1] @ pin_hash sd pin) = Some (str_bytes ''KOETRV'' @ [1] @ pin_hash sd pin)"
    and "rm (travel_path data_dir)" and "length junk = 32"
  shows "\<exists>fs'. koe_travel_mode_enable sd io pin data_dir fs = (0, fs') \<and> koe_travel_mode_active data_dir fs' = 1 \<and>
    (\<forall>guess. koe_travel_mode_disable sd rm junk guess data_dir fs'
      = (if pin_hash sd guess = pin_hash sd pin then (0, fs(travel_path data_dir := None)) else (-1, fs')))
    \<and> koe_travel_mode_active data_dir (fs(travel_path data_dir := None)) = 0"
proof -
  let ?file = "str_bytes ''KOETRV'' @ [1] @ pin_hash sd pin"
  have "length (pin_hash sd pin) = 32" using assms(1) by (simp add: hash_ok_def pin_hash_def)
  then have "mem_read 7 32 ?file = pin_hash sd pin" by (simp add: mem_read_def)
  moreover have "length (pin_hash sd guess) = 32" for guess using assms(1) by (simp add: hash_ok_def pin_hash_def)
  moreover have "koe_travel_mode_enable sd io pin data_dir fs = (0, fs(travel_path data_dir \<mapsto> ?file))"
    using assms(2) by (simp add: koe_travel_mode_enable_def)
  ultimately show ?thesis
    using assms(3,4) by (auto simp: koe_travel_mode_disable_def koe_travel_mode_active_def Let_def)
qed

theorem travel_mode_lifecycle_witness:
  "\<exists>fs'. koe_travel_mode_enable demo_sodium (\<lambda>p d. Some d) ''1234'' ''d'' Map.empty = (0, fs') \<and>
     koe_travel_mode_disable demo_sodium (\<lambda>p. True) (replicate 32 0) ''9999'' ''d'' fs' = (-1, fs') \<and>
     koe_travel_mode_disable demo_sodium (\<lambda>p. True) (replicate 32 0) ''1234'' ''d'' fs' = (0, Map.empty)"
proof -
  have "pin_hash demo_sodium ''9999'' \<noteq> pin_hash demo_sodium ''1234''"
    by (simp add: pin_hash_def demo_sodium_def str_bytes_def)
  then show ?thesis
    using travel_mode_lifecycle [where io = "\<lambda>p d. Some d" and rm = "\<lambda>p. True" and pin = "''1234''" and data_dir = "''d''" and fs = Map.empty
        and junk = "replicate 32 0", OF demo_hash_ok] by auto
qed

text \<open>The PIN of a secret chat is not checked: unlocking succeeds with every PIN, whatever PIN the
  chat was created with, and its outcome does not depend on the PIN.\<close>

theorem secret_chat_any_pin:
  "fst (koe_secret_chat_unlock io salt pin data_dir fs u) = 0
   \<and> koe_secret_chat_is_unlocked (snd (snd (koe_secret_chat_unlock io salt pin data_dir fs u))) = 1
   \<and> koe_secret_chat_unlock io salt pin data_dir fs u = koe_secret_chat_unlock io salt pin' data_dir fs u"
  by (simp add: koe_secret_chat_unlock_def koe_secret_chat_is_unlocked_def split: option.splits)

end
