(* ===== verification/Koe_Matrix.thy ===== *)
theory Koe_Matrix
  imports Koe_Crypto
begin

text \<open>
  The Matrix client (\<^verbatim>\<open>src/koe_matrix.c\<close>), in the build with libcurl: the response buffer that
  libcurl fills, the request helper, the JSON field reader, and every call of the public
  interface. libcurl and the homeserver behind it are a parameter: \<open>curl req\<close> is what performing
  the request gives, the pieces of the response body in the order they are delivered, whether the
  transfer succeeded and the status code. Undefined behaviour (a write through a buffer that could
  not be allocated) is \<open>None\<close>. The lemmas show that the buffer holds exactly the response and never
  overflows, that the JSON reader returns a field as the server wrote it, and that text the user
  supplies is copied into request bodies without quoting.
\<close>

record koe_matrix_ctx =
  mx_homeserver :: string
  mx_access_token :: string
  mx_user_id :: string
  mx_use_tls :: int
  mx_timeout_ms :: int

datatype http_method = HTTP_GET | HTTP_POST | HTTP_PUT

record http_request =
  rq_method :: http_method
  rq_url :: string
  rq_headers :: "string list"
  rq_body :: "bytes option"
  rq_verify :: bool
  rq_timeout_ms :: int

record http_reply =
  rp_pieces :: "string list"
  rp_ok :: bool
  rp_code :: int

type_synonym curl = "http_request \<Rightarrow> http_reply option"

section \<open>The response buffer\<close>

text \<open>\<open>hr_buf\<close> is the contents up to the terminating NUL; \<open>NULL\<close> when the first allocation failed.\<close>

record koe_http_response =
  hr_buf :: "string ptr"
  hr_cap :: nat

abbreviation hr_len :: "koe_http_response \<Rightarrow> nat" where
  "hr_len r \<equiv> (case hr_buf r of None \<Rightarrow> 0 | Some s \<Rightarrow> length s)"

definition new_response :: "bool \<Rightarrow> nat \<Rightarrow> koe_http_response" where
  "new_response ok cap = \<lparr>hr_buf = (if ok then Some [] else NULL), hr_cap = cap\<rparr>"

text \<open>\<open>ok\<close> says whether \<open>realloc\<close> succeeds. The result is the number of bytes taken; growing a
  buffer that is \<open>NULL\<close> allocates it.\<close>

definition write_cb :: "bool \<Rightarrow> string \<Rightarrow> koe_http_response \<Rightarrow> (nat \<times> koe_http_response) option" where
  "write_cb ok piece r =
     (let n = length piece in
      if hr_len r + n + 1 > hr_cap r then
        if \<not> ok then Some (0, r)
        else Some (n, \<lparr>hr_buf = Some ((case hr_buf r of NULL \<Rightarrow> [] | Some s \<Rightarrow> s) @ piece), hr_cap = hr_cap r + n + 1024\<rparr>)
      else case hr_buf r of
        NULL \<Rightarrow> None
      | Some s \<Rightarrow> Some (n, r\<lparr>hr_buf := Some (s @ piece)\<rparr>))"

text \<open>libcurl hands over the pieces one by one and gives up when one is not taken completely; the
  flag is whether all were taken. \<open>mal i\<close> is the \<open>i\<close>-th reallocation.\<close>

fun receive_body :: "alloc \<Rightarrow> nat \<Rightarrow> string list \<Rightarrow> koe_http_response \<Rightarrow> (bool \<times> koe_http_response) option" where
  "receive_body mal i [] r = Some (True, r)"
| "receive_body mal i (p # ps) r =
     (case write_cb (mal i) p r of
        None \<Rightarrow> None
      | Some (n, r) \<Rightarrow> if n \<noteq> length p then Some (False, r) else receive_body mal (Suc i) ps r)"

section \<open>Requests\<close>

definition perform :: "curl \<Rightarrow> alloc \<Rightarrow> nat \<Rightarrow> http_request \<Rightarrow> koe_http_response \<Rightarrow> (int \<times> koe_http_response) option" where
  "perform curl mal i req resp =
     (case curl req of
        None \<Rightarrow> Some (-1, resp)
      | Some reply \<Rightarrow>
          (case receive_body mal i (rp_pieces reply) resp of
             None \<Rightarrow> None
           | Some (all, resp) \<Rightarrow>
               Some (if all \<and> rp_ok reply \<and> rp_code reply \<ge> 200 \<and> rp_code reply < 300 then 0 else -1, resp)))"

definition auth_hdr :: "koe_matrix_ctx \<Rightarrow> string" where
  "auth_hdr ctx = snprintf_str (512 + 32) (''Authorization: Bearer '' @ mx_access_token ctx)"

text \<open>\<open>curl req = None\<close> is a failure of \<open>curl_easy_init\<close>. A GET request sends no body.\<close>

definition matrix_request :: "koe_matrix_ctx \<Rightarrow> http_method \<Rightarrow> string \<Rightarrow> string option \<Rightarrow> http_request" where
  "matrix_request ctx method path body =
     \<lparr>rq_method = method, rq_url = snprintf_str 512 (mx_homeserver ctx @ path),
      rq_headers = [''Content-Type: application/json'', auth_hdr ctx],
      rq_body = (if method = HTTP_GET then None else map_option str_bytes body),
      rq_verify = (mx_use_tls ctx \<noteq> 0), rq_timeout_ms = mx_timeout_ms ctx\<rparr>"

definition matrix_http ::
  "curl \<Rightarrow> alloc \<Rightarrow> nat \<Rightarrow> koe_matrix_ctx \<Rightarrow> http_method \<Rightarrow> string \<Rightarrow> string option \<Rightarrow> koe_http_response \<Rightarrow>
   (int \<times> koe_http_response) option" where
  "matrix_http curl mal i ctx method path body resp = perform curl mal i (matrix_request ctx method path body) resp"

section \<open>JSON\<close>

text \<open>\<open>strstr\<close>: the rest of the text from the first occurrence of the pattern.\<close>

fun strstr :: "string \<Rightarrow> string \<Rightarrow> string option" where
  "strstr pat [] = (if pat = [] then Some [] else None)"
| "strstr pat (c # cs) = (if take (length pat) (c # cs) = pat then Some (c # cs) else strstr pat cs)"

abbreviation (input) quote :: char where "quote \<equiv> CHR 0x22"

definition quoted :: "string \<Rightarrow> string" where
  "quoted s = [quote] @ s @ [quote]"

definition json_get_str :: "string \<Rightarrow> string \<Rightarrow> nat \<Rightarrow> string option" where
  "json_get_str json key out_len =
     (let pattern = snprintf_str 256 (quoted key @ '':'')
      in case strstr pattern (takeWhile (\<lambda>c. c \<noteq> CHR 0x00) json) of
           None \<Rightarrow> None
         | Some p \<Rightarrow>
             (case dropWhile (\<lambda>c. c = CHR '' '') (drop (length pattern) p) of
                [] \<Rightarrow> None
              | c # p \<Rightarrow> if c \<noteq> quote then None else Some (take (out_len - 1) (takeWhile (\<lambda>c. c \<noteq> quote) p))))"

text \<open>A caller's buffer is written only when the field is found. Reading a response whose buffer is
  \<open>NULL\<close> is undefined.\<close>

definition json_into :: "koe_http_response \<Rightarrow> string \<Rightarrow> nat \<Rightarrow> string \<Rightarrow> string option" where
  "json_into resp key out_len out =
     (case hr_buf resp of
        NULL \<Rightarrow> None
      | Some json \<Rightarrow> Some (case json_get_str json key out_len of None \<Rightarrow> out | Some v \<Rightarrow> v))"

section \<open>Authentication\<close>

text \<open>\<open>b64\<close> is \<open>sodium_bin2base64\<close> in its URL-safe variant without padding.\<close>

definition login_body :: "sodium \<Rightarrow> (bytes \<Rightarrow> string) \<Rightarrow> koe_identity \<Rightarrow> string" where
  "login_body sd b64 ident =
     (let pw_hash = so_generichash sd 32 32 (id_sk ident @ str_bytes ''koe-matrix-auth'')
      in snprintf_str 512 (''{'' @ quoted ''type'' @ '':'' @ quoted ''m.login.password'' @ '','' @ quoted ''user'' @ '':''
           @ quoted (koe_identity_short_id (id_pk ident)) @ '','' @ quoted ''password'' @ '':'' @ quoted (b64 pw_hash) @ ''}''))"

definition koe_matrix_login ::
  "sodium \<Rightarrow> (bytes \<Rightarrow> string) \<Rightarrow> curl \<Rightarrow> alloc \<Rightarrow> koe_matrix_ctx \<Rightarrow> koe_identity \<Rightarrow> string \<Rightarrow> (int \<times> koe_matrix_ctx) option" where
  "koe_matrix_login sd b64 curl mal ctx ident homeserver =
     (let ctx = ctx\<lparr>mx_homeserver := strncpy_str 255 homeserver, mx_use_tls := 1, mx_timeout_ms := 10000\<rparr>
      in case matrix_http curl mal 1 ctx HTTP_POST ''/_matrix/client/r0/login'' (Some (login_body sd b64 ident)) (new_response (mal 0) 4096) of
           None \<Rightarrow> None
         | Some (rc, resp) \<Rightarrow>
             if rc \<noteq> 0 then Some (rc, ctx)
             else case json_into resp ''access_token'' 512 (mx_access_token ctx) of
               None \<Rightarrow> None
             | Some token \<Rightarrow>
                 (case json_into resp ''user_id'' 256 (mx_user_id ctx) of
                    None \<Rightarrow> None
                  | Some user \<Rightarrow> Some (0, ctx\<lparr>mx_access_token := token, mx_user_id := user\<rparr>)))"

text \<open>A request whose response is only checked for its status.\<close>

definition simple_call :: "curl \<Rightarrow> alloc \<Rightarrow> koe_matrix_ctx \<Rightarrow> http_method \<Rightarrow> string \<Rightarrow> string \<Rightarrow> int option" where
  "simple_call curl mal ctx method path body =
     map_option fst (matrix_http curl mal 1 ctx method path (Some body) (new_response (mal 0) 256))"

definition koe_matrix_logout :: "curl \<Rightarrow> alloc \<Rightarrow> koe_matrix_ctx \<Rightarrow> (int \<times> koe_matrix_ctx) option" where
  "koe_matrix_logout curl mal ctx =
     map_option (\<lambda>rc. (rc, ctx\<lparr>mx_access_token := []\<rparr>)) (simple_call curl mal ctx HTTP_POST ''/_matrix/client/r0/logout'' ''{}'')"

section \<open>Rooms\<close>

definition room_create_body :: "string \<Rightarrow> string \<Rightarrow> string" where
  "room_create_body name topic =
     snprintf_str 1024 (''{'' @ quoted ''name'' @ '':'' @ quoted name @ '','' @ quoted ''topic'' @ '':'' @ quoted topic @ '',''
       @ quoted ''initial_state'' @ '':[{'' @ quoted ''type'' @ '':'' @ quoted ''m.room.encryption'' @ '',''
       @ quoted ''state_key'' @ '':'' @ quoted '''' @ '','' @ quoted ''content'' @ '':{'' @ quoted ''algorithm'' @ '':''
       @ quoted ''m.megolm.v1.aes-sha2'' @ ''}}]}'')"

definition koe_matrix_room_create ::
  "curl \<Rightarrow> alloc \<Rightarrow> koe_matrix_ctx \<Rightarrow> string \<Rightarrow> string \<Rightarrow> string \<Rightarrow> (int \<times> string) option" where
  "koe_matrix_room_create curl mal ctx name topic room_id_out =
     (case matrix_http curl mal 1 ctx HTTP_POST ''/_matrix/client/r0/createRoom'' (Some (room_create_body name topic)) (new_response (mal 0) 1024) of
        None \<Rightarrow> None
      | Some (rc, resp) \<Rightarrow>
          if rc = 0 then map_option (\<lambda>r. (rc, r)) (json_into resp ''room_id'' 256 room_id_out) else Some (rc, room_id_out))"

definition rooms_path :: "string \<Rightarrow> string \<Rightarrow> string" where
  "rooms_path room_id what = snprintf_str 512 (''/_matrix/client/r0/rooms/'' @ room_id @ what)"

definition set_name_body :: "string \<Rightarrow> string" where
  "set_name_body new_name = snprintf_str 256 (''{'' @ quoted ''name'' @ '':'' @ quoted new_name @ ''}'')"

definition koe_matrix_room_set_name :: "curl \<Rightarrow> alloc \<Rightarrow> koe_matrix_ctx \<Rightarrow> string \<Rightarrow> string \<Rightarrow> int option" where
  "koe_matrix_room_set_name curl mal ctx room_id new_name =
     simple_call curl mal ctx HTTP_PUT (rooms_path room_id ''/state/m.room.name'') (set_name_body new_name)"

definition koe_matrix_room_set_topic :: "curl \<Rightarrow> alloc \<Rightarrow> koe_matrix_ctx \<Rightarrow> string \<Rightarrow> string \<Rightarrow> int option" where
  "koe_matrix_room_set_topic curl mal ctx room_id new_topic =
     simple_call curl mal ctx HTTP_PUT (rooms_path room_id ''/state/m.room.topic'')
       (snprintf_str 1200 (''{'' @ quoted ''topic'' @ '':'' @ quoted new_topic @ ''}''))"

definition koe_matrix_room_invite :: "curl \<Rightarrow> alloc \<Rightarrow> koe_matrix_ctx \<Rightarrow> string \<Rightarrow> string \<Rightarrow> int option" where
  "koe_matrix_room_invite curl mal ctx room_id user_id =
     simple_call curl mal ctx HTTP_POST (rooms_path room_id ''/invite'')
       (snprintf_str 512 (''{'' @ quoted ''user_id'' @ '':'' @ quoted user_id @ ''}''))"

definition koe_matrix_room_join :: "curl \<Rightarrow> alloc \<Rightarrow> koe_matrix_ctx \<Rightarrow> string \<Rightarrow> int option" where
  "koe_matrix_room_join curl mal ctx room_id = simple_call curl mal ctx HTTP_POST (rooms_path room_id ''/join'') ''{}''"

definition koe_matrix_room_leave :: "curl \<Rightarrow> alloc \<Rightarrow> koe_matrix_ctx \<Rightarrow> string \<Rightarrow> int option" where
  "koe_matrix_room_leave curl mal ctx room_id = simple_call curl mal ctx HTTP_POST (rooms_path room_id ''/leave'') ''{}''"

definition matrix_membership_action ::
  "curl \<Rightarrow> alloc \<Rightarrow> koe_matrix_ctx \<Rightarrow> string \<Rightarrow> string \<Rightarrow> string \<Rightarrow> string ptr \<Rightarrow> int option" where
  "matrix_membership_action curl mal ctx room_id action user_id reason =
     simple_call curl mal ctx HTTP_POST (rooms_path room_id (''/'' @ action))
       (snprintf_str 512 (''{'' @ quoted ''user_id'' @ '':'' @ quoted user_id @ '','' @ quoted ''reason'' @ '':''
         @ quoted (case reason of NULL \<Rightarrow> '''' | Some r \<Rightarrow> r) @ ''}''))"

definition koe_matrix_room_kick :: "curl \<Rightarrow> alloc \<Rightarrow> koe_matrix_ctx \<Rightarrow> string \<Rightarrow> string \<Rightarrow> string ptr \<Rightarrow> int option" where
  "koe_matrix_room_kick curl mal ctx room_id user_id reason = matrix_membership_action curl mal ctx room_id ''kick'' user_id reason"

definition koe_matrix_room_ban :: "curl \<Rightarrow> alloc \<Rightarrow> koe_matrix_ctx \<Rightarrow> string \<Rightarrow> string \<Rightarrow> string ptr \<Rightarrow> int option" where
  "koe_matrix_room_ban curl mal ctx room_id user_id reason = matrix_membership_action curl mal ctx room_id ''ban'' user_id reason"

definition koe_matrix_room_unban :: "curl \<Rightarrow> alloc \<Rightarrow> koe_matrix_ctx \<Rightarrow> string \<Rightarrow> string \<Rightarrow> int option" where
  "koe_matrix_room_unban curl mal ctx room_id user_id = matrix_membership_action curl mal ctx room_id ''unban'' user_id (Some '''')"

text \<open>The stub: no members, and the output array untouched.\<close>

definition koe_matrix_room_members :: "koe_matrix_ctx \<Rightarrow> string \<Rightarrow> int \<times> nat" where
  "koe_matrix_room_members ctx room_id = (0, 0)"

definition koe_matrix_room_set_power :: "curl \<Rightarrow> alloc \<Rightarrow> koe_matrix_ctx \<Rightarrow> string \<Rightarrow> string \<Rightarrow> int \<Rightarrow> int option" where
  "koe_matrix_room_set_power curl mal ctx room_id user_id power_level =
     simple_call curl mal ctx HTTP_PUT (rooms_path room_id ''/state/m.room.power_levels'')
       (snprintf_str 512 (''{'' @ quoted ''users'' @ '':{'' @ quoted user_id @ '':'' @ show_int power_level @ ''}}''))"

section \<open>Sync and media\<close>

definition sync_path :: "string ptr \<Rightarrow> int \<Rightarrow> string" where
  "sync_path token timeout_ms =
     (case token of
        Some (c # cs) \<Rightarrow> snprintf_str 512 (''/_matrix/client/r0/sync?since='' @ (c # cs) @ ''&timeout='' @ show_int timeout_ms)
      | _ \<Rightarrow> snprintf_str 512 (''/_matrix/client/r0/sync?timeout='' @ show_int timeout_ms))"

text \<open>The result: the return code, the next token (when the caller asked for one), and the arguments
  the callback was called with.\<close>

definition koe_matrix_sync ::
  "curl \<Rightarrow> alloc \<Rightarrow> koe_matrix_ctx \<Rightarrow> string ptr \<Rightarrow> int \<Rightarrow> string ptr \<Rightarrow> (int \<times> string ptr \<times> (string \<times> string \<times> string) option) option" where
  "koe_matrix_sync curl mal ctx token timeout_ms next_token =
     (case matrix_http curl mal 1 ctx HTTP_GET (sync_path token timeout_ms) None (new_response (mal 0) 65536) of
        None \<Rightarrow> None
      | Some (rc, resp) \<Rightarrow>
          if rc \<noteq> 0 then Some (rc, next_token, None)
          else case (case next_token of
                       NULL \<Rightarrow> Some NULL
                     | Some old \<Rightarrow> map_option Some (json_into resp ''next_batch'' 256 old)) of
                 None \<Rightarrow> None
               | Some next \<Rightarrow>
                   Some (rc, next, map_option (\<lambda>json. ('''', ''m.sync.response'', takeWhile (\<lambda>c. c \<noteq> CHR 0x00) json)) (hr_buf resp)))"

definition upload_request :: "koe_matrix_ctx \<Rightarrow> bytes \<Rightarrow> string \<Rightarrow> http_request" where
  "upload_request ctx data content_type =
     \<lparr>rq_method = HTTP_POST, rq_url = snprintf_str 512 (mx_homeserver ctx @ ''/_matrix/media/r0/upload''),
      rq_headers = [auth_hdr ctx, snprintf_str 256 (''Content-Type: '' @ content_type)], rq_body = Some data,
      rq_verify = (mx_use_tls ctx \<noteq> 0), rq_timeout_ms = mx_timeout_ms ctx\<rparr>"

definition koe_matrix_media_upload ::
  "curl \<Rightarrow> alloc \<Rightarrow> koe_matrix_ctx \<Rightarrow> bytes \<Rightarrow> string \<Rightarrow> string ptr \<Rightarrow> (int \<times> string ptr) option" where
  "koe_matrix_media_upload curl mal ctx data content_type mxc_uri_out =
     (case perform curl mal 1 (upload_request ctx data content_type) (new_response (mal 0) 512) of
        None \<Rightarrow> None
      | Some (rc, resp) \<Rightarrow>
          (case mxc_uri_out of
             NULL \<Rightarrow> Some (rc, NULL)
           | Some old \<Rightarrow>
               if rc = 0 then map_option (\<lambda>v. (rc, Some v)) (json_into resp ''content_uri'' 256 old) else Some (rc, Some old)))"

definition koe_matrix_media_download :: "koe_matrix_ctx \<Rightarrow> string \<Rightarrow> int" where
  "koe_matrix_media_download ctx mxc_uri = -1"

section \<open>The buffer never overflows\<close>

text \<open>There is room for the terminating NUL.\<close>

definition response_ok :: "koe_http_response \<Rightarrow> bool" where
  "response_ok r \<longleftrightarrow> hr_buf r \<noteq> NULL \<and> hr_len r + 1 \<le> hr_cap r"

lemma write_cb_ok:
  assumes "response_ok r" "hr_buf r = Some s"
  shows "\<exists>n r'. write_cb ok piece r = Some (n, r') \<and> response_ok r' \<and>
    (n = length piece \<and> hr_buf r' = Some (s @ piece) \<or> n = 0 \<and> hr_buf r' = Some s)"
  using assms by (auto simp: write_cb_def response_ok_def Let_def)

lemma receive_body_ok:
  assumes "response_ok r" "hr_buf r = Some s"
  shows "\<exists>all r' k. receive_body mal i ps r = Some (all, r') \<and> response_ok r' \<and> hr_buf r' = Some (s @ concat (take k ps))
    \<and> (all \<longrightarrow> hr_buf r' = Some (s @ concat ps))"
  using assms
proof (induction ps arbitrary: r s i)
  case Nil
  then show ?case by auto
next
  case (Cons p ps)
  obtain n r1 where w: "write_cb (mal i) p r = Some (n, r1)" "response_ok r1"
    "n = length p \<and> hr_buf r1 = Some (s @ p) \<or> n = 0 \<and> hr_buf r1 = Some s"
    using write_cb_ok [OF Cons.prems] by blast
  show ?case
  proof (cases "n = length p")
    case True
    with w(3) have "hr_buf r1 = Some (s @ p)" by auto
    from Cons.IH [OF w(2) this, of "Suc i"] obtain all r' k where
      "receive_body mal (Suc i) ps r1 = Some (all, r')" "response_ok r'" "hr_buf r' = Some ((s @ p) @ concat (take k ps))"
      "all \<longrightarrow> hr_buf r' = Some ((s @ p) @ concat ps)"
      by blast
    with w(1) True show ?thesis by (intro exI [of _ all] exI [of _ r'] exI [of _ "Suc k"]) simp
  next
    case False
    with w show ?thesis by (intro exI [of _ False] exI [of _ r1] exI [of _ 0]) auto
  qed
qed

lemma receive_body_all:
  assumes "\<forall>i. mal i" "response_ok r" "hr_buf r = Some s"
  shows "\<exists>r'. receive_body mal i ps r = Some (True, r') \<and> hr_buf r' = Some (s @ concat ps)"
  using assms(2,3)
proof (induction ps arbitrary: r s i)
  case (Cons p ps)
  have "\<exists>r1. write_cb (mal i) p r = Some (length p, r1) \<and> response_ok r1 \<and> hr_buf r1 = Some (s @ p)"
    using Cons.prems assms(1) by (auto simp: write_cb_def response_ok_def Let_def)
  then obtain r1 where w: "write_cb (mal i) p r = Some (length p, r1)" "response_ok r1" "hr_buf r1 = Some (s @ p)" by blast
  with Cons.IH [OF w(2,3), of "Suc i"] show ?case by simp
qed simp

lemma new_response_ok: "0 < cap \<Longrightarrow> response_ok (new_response True cap) \<and> hr_buf (new_response True cap) = Some []"
  by (simp add: response_ok_def new_response_def)

section \<open>Reading a JSON object\<close>

lemma strstr_skip: "take (length pat) (c # cs) \<noteq> pat \<Longrightarrow> strstr pat (c # cs) = strstr pat cs"
  by simp

lemma strstr_skip_other: "quote \<notin> set xs \<Longrightarrow> strstr (quote # p) (xs @ ys) = strstr (quote # p) ys"
  by (induction xs) auto

lemma strstr_hit: "strstr (c # p) (c # p @ ys) = Some (c # p @ ys)"
  by simp

lemma takeWhile_quote: "quote \<notin> set xs \<Longrightarrow> takeWhile (\<lambda>c. c \<noteq> quote) (xs @ quote # ys) = xs"
  by (induction xs) auto

text \<open>Two quoted names at the same place are the same name, with the same text behind them.\<close>

lemma quoted_prefix:
  assumes "quote \<notin> set a" "quote \<notin> set b" "take (length (b @ [quote, y])) (a @ quote # x # r) = b @ [quote, y]"
  shows "a = b \<and> x = y"
proof -
  obtain r' where "a @ quote # x # r = (b @ [quote, y]) @ r'"
    using append_take_drop_id [of "length (b @ [quote, y])" "a @ quote # x # r"] unfolding assms(3) by metis
  then have r': "a @ quote # x # r = b @ quote # y # r'" by simp
  have "takeWhile (\<lambda>c. c \<noteq> quote) (a @ quote # x # r) = a" "takeWhile (\<lambda>c. c \<noteq> quote) (b @ quote # y # r') = b"
    using assms(1,2) by (simp_all add: takeWhile_quote)
  with r' have "a = b" by simp
  with r' show ?thesis by simp
qed

definition json_pair :: "string \<Rightarrow> string \<Rightarrow> string \<Rightarrow> string \<Rightarrow> string" where
  "json_pair k1 v1 k2 v2 = ''{'' @ quoted k1 @ '':'' @ quoted v1 @ '','' @ quoted k2 @ '':'' @ quoted v2 @ ''}''"

definition plain_text :: "string \<Rightarrow> bool" where
  "plain_text s \<longleftrightarrow> quote \<notin> set s \<and> CHR 0x00 \<notin> set s"

definition field_name :: "string \<Rightarrow> bool" where
  "field_name k \<longleftrightarrow> k \<noteq> [] \<and> plain_text k \<and> CHR '':'' \<notin> set k \<and> CHR '','' \<notin> set k \<and> length k < 250"

lemma json_first:
  assumes "field_name k1" "plain_text v1"
  shows "strstr (quoted k1 @ '':'') (json_pair k1 v1 k2 v2) = Some (quoted k1 @ '':'' @ quoted v1 @ '','' @ quoted k2 @ '':'' @ quoted v2 @ ''}'')"
  using strstr_hit [of quote "k1 @ [quote, CHR '':'']"] by (simp add: json_pair_def quoted_def)

lemma json_second:
  assumes "field_name k1" "field_name k2" "k1 \<noteq> k2" "plain_text v1"
  shows "strstr (quoted k2 @ '':'') (json_pair k1 v1 k2 v2) = Some (quoted k2 @ '':'' @ quoted v2 @ ''}'')"
proof -
  let ?p = "k2 @ [quote, CHR '':'']"
  let ?r2 = "quote # k2 @ quote # CHR '':'' # quote # v2 @ [quote, CHR ''}'']"
  let ?r1 = "quote # v1 @ quote # CHR '','' # ?r2"
  have q: "quote \<notin> set k1" "quote \<notin> set k2" "quote \<notin> set v1" using assms by (simp_all add: field_name_def plain_text_def)
  have hd: "k2 = hd k2 # tl k2" "hd k2 \<noteq> CHR '':''" "hd k2 \<noteq> CHR '',''" using assms(2) by (auto simp: field_name_def dest: hd_in_set)
  have "strstr (quote # ?p) (quote # k1 @ quote # CHR '':'' # ?r1) = strstr (quote # ?p) (k1 @ quote # CHR '':'' # ?r1)"
    using quoted_prefix [OF q(1,2), of "CHR '':''" "CHR '':''" ?r1] assms(3) by (intro strstr_skip) auto
  also have "\<dots> = strstr (quote # ?p) (quote # CHR '':'' # ?r1)" by (rule strstr_skip_other [OF q(1)])
  also have "\<dots> = strstr (quote # ?p) (CHR '':'' # ?r1)" using hd by (intro strstr_skip) (cases k2, auto)
  also have "\<dots> = strstr (quote # ?p) ?r1" by simp
  also have "\<dots> = strstr (quote # ?p) (v1 @ quote # CHR '','' # ?r2)"
    using quoted_prefix [OF q(3,2), of "CHR '':''" "CHR '',''" ?r2] by (intro strstr_skip) auto
  also have "\<dots> = strstr (quote # ?p) (quote # CHR '','' # ?r2)" by (rule strstr_skip_other [OF q(3)])
  also have "\<dots> = strstr (quote # ?p) (CHR '','' # ?r2)" using hd by (intro strstr_skip) (cases k2, auto)
  also have "\<dots> = strstr (quote # ?p) ?r2" by simp
  also have "\<dots> = Some ?r2" using strstr_hit [of quote ?p "quote # v2 @ [quote, CHR ''}'']"] by simp
  finally show ?thesis by (simp add: json_pair_def quoted_def)
qed

lemma json_get_pair:
  assumes "field_name k1" "field_name k2" "k1 \<noteq> k2" "plain_text v1" "plain_text v2" "length v1 < n" "length v2 < m"
  shows "json_get_str (json_pair k1 v1 k2 v2) k1 n = Some v1" "json_get_str (json_pair k1 v1 k2 v2) k2 m = Some v2"
proof -
  have pat: "snprintf_str 256 (quoted k1 @ '':'') = quoted k1 @ '':''" "snprintf_str 256 (quoted k2 @ '':'') = quoted k2 @ '':''"
    using assms(1,2) by (auto simp: snprintf_str_def quoted_def field_name_def)
  have nul: "takeWhile (\<lambda>c. c \<noteq> CHR 0x00) (json_pair k1 v1 k2 v2) = json_pair k1 v1 k2 v2"
    using assms(1,2,4,5) by (auto simp: takeWhile_eq_all_conv json_pair_def quoted_def field_name_def plain_text_def)
  have val: "takeWhile (\<lambda>c. c \<noteq> quote) (v1 @ quote # r) = v1" "takeWhile (\<lambda>c. c \<noteq> quote) (v2 @ quote # r) = v2" for r
    using assms(4,5) by (simp_all add: plain_text_def takeWhile_quote)
  show "json_get_str (json_pair k1 v1 k2 v2) k1 n = Some v1"
    using assms(6) unfolding json_get_str_def Let_def pat nul json_first [OF assms(1,4)] by (simp add: quoted_def val)
  show "json_get_str (json_pair k1 v1 k2 v2) k2 m = Some v2"
    using assms(7) unfolding json_get_str_def Let_def pat nul json_second [OF assms(1-4)] by (simp add: quoted_def val)
qed

section \<open>Properties\<close>

text \<open>C38. Whatever the homeserver sends, in pieces of whatever sizes and whether or not memory runs
  out on the way, the response buffer is never overrun: it holds exactly a prefix of the pieces,
  all of them when the transfer succeeds, with room for the terminating NUL.\<close>

theorem http_response_exact:
  assumes "0 < cap"
  shows "\<exists>all r' k. receive_body mal i ps (new_response True cap) = Some (all, r') \<and> response_ok r'
    \<and> hr_buf r' = Some (concat (take k ps)) \<and> (all \<longrightarrow> hr_buf r' = Some (concat ps))"
  using receive_body_ok [of "new_response True cap" "[]" mal i ps] new_response_ok [OF assms] by simp

theorem http_response_exact_witness:
  "\<exists>all r' k. receive_body (\<lambda>_. False) 1 [''abc'', ''defghi''] (new_response True 8) = Some (all, r') \<and> response_ok r'
    \<and> hr_buf r' = Some (concat (take k [''abc'', ''defghi'']))"
  using http_response_exact [of 8 "\<lambda>_. False" 1 "[''abc'', ''defghi'']"] by auto



text \<open>Names are copied into requests without quoting: a room name that contains a quote can add a
  field of its choice to the JSON body that the homeserver reads.\<close>

theorem matrix_name_injection:
  assumes "field_name key" and "key \<noteq> ''name''" and "plain_text name" and "plain_text val" and "length name + length key + length val < 200"
  shows "json_get_str (set_name_body (name @ [quote] @ '','' @ quoted key @ '':'' @ [quote] @ val)) key 256 = Some val"
proof -
  have "field_name ''name''" by (simp add: field_name_def plain_text_def)
  moreover have "set_name_body (name @ [quote] @ '','' @ quoted key @ '':'' @ [quote] @ val) = json_pair ''name'' name key val"
    using assms(5) by (simp add: set_name_body_def json_pair_def quoted_def snprintf_str_def)
  ultimately show ?thesis using json_get_pair(2) [of "''name''" key name val 256 256] assms by simp
qed

theorem matrix_name_injection_witness:
  "json_get_str (set_name_body (''x'' @ [quote] @ '','' @ quoted ''topic'' @ '':'' @ [quote] @ ''pwned'')) ''topic'' 256 = Some ''pwned''"
  using matrix_name_injection [of "''topic''" "''x''" "''pwned''"] by (simp add: field_name_def plain_text_def)

end
