(* ===== verification/Koe_Plugin.thy ===== *)
theory Koe_Plugin
  imports Koe_Event
begin

text \<open>
  The plugin system (\<^verbatim>\<open>src/koe_plugin.c\<close>), in the build with mruby. The interpreter is a parameter:
  the record \<open>mruby\<close> says what its functions return for a virtual machine of type \<open>'v\<close>. Dispatching
  through a plugin without a machine is a NULL dereference, and a body string with an embedded NUL
  makes \<open>mrb_str_to_cstr\<close> raise outside any handler; both are \<open>None\<close>, as is a received-message event
  whose payload is not a message. The lemmas show that the life cycle keeps a machine for every
  loaded plugin, that dispatch then always returns and only lets permitted plugins touch the event,
  that message bodies stay within their buffer, and that enabling a plugin twice breaks this.
\<close>

section \<open>The interpreter\<close>

datatype mrb_value = MStr string | MTrue | MFalse | MNil | MOther

record 'v mruby =
  mr_open :: "'v option"
  mr_load_string :: "'v \<Rightarrow> string \<Rightarrow> 'v"
  mr_load_file :: "'v \<Rightarrow> bytes \<Rightarrow> 'v"
  mr_exc :: "'v \<Rightarrow> bool"
  mr_clear_exc :: "'v \<Rightarrow> 'v"
  mr_funcall :: "'v \<Rightarrow> string \<Rightarrow> mrb_value list \<Rightarrow> mrb_value \<times> 'v"
  mr_respond_to :: "'v \<Rightarrow> string \<Rightarrow> bool"

definition mrb_test :: "mrb_value \<Rightarrow> bool" where
  "mrb_test v \<longleftrightarrow> v \<noteq> MFalse \<and> v \<noteq> MNil"

definition KOE_PLUGIN_API_RB :: string where
  "KOE_PLUGIN_API_RB = concat (map (\<lambda>l. l @ [CHR 0x0A])
     [''module KoeEvent'',
      ''  class << self'',
      ''    attr_accessor :type, :sender_id, :body, :suppressed, :metadata'',
      ''    def suppress!'',
      ''      @suppressed = true'',
      ''    end'',
      ''  end'',
      ''  self.metadata = {}'',
      ''  self.suppressed = false'',
      ''end'',
      [],
      ''module Koe'',
      ''  def self.send(to_short_id, body)'',
      ''    _native_send(to_short_id, body)'',
      ''  end'',
      ''  def self.log(msg)'',
      ''    _native_log(msg.to_s)'',
      ''  end'',
      ''  def self.contact(short_id)'',
      ''    { 'short_id' => short_id, 'display_name' => '?', 'verified' => false }'',
      ''  end'',
      ''end''])"

section \<open>Plugins\<close>

datatype koe_plugin_permission =
    KOE_PLUGIN_PERM_READ_EVENTS | KOE_PLUGIN_PERM_MODIFY_EVENTS | KOE_PLUGIN_PERM_SEND_MESSAGES
  | KOE_PLUGIN_PERM_READ_CONTACTS | KOE_PLUGIN_PERM_SANDBOX_FS

primrec perm_bit :: "koe_plugin_permission \<Rightarrow> u32" where
  "perm_bit KOE_PLUGIN_PERM_READ_EVENTS = 1"
| "perm_bit KOE_PLUGIN_PERM_MODIFY_EVENTS = 2"
| "perm_bit KOE_PLUGIN_PERM_SEND_MESSAGES = 4"
| "perm_bit KOE_PLUGIN_PERM_READ_CONTACTS = 8"
| "perm_bit KOE_PLUGIN_PERM_SANDBOX_FS = 16"

record koe_plugin_descriptor =
  pd_name :: string
  pd_version :: string
  pd_description :: string
  pd_author :: string
  pd_permissions :: u32
  pd_entry_point :: string
  pd_sandbox_dir :: string
  pd_enabled :: int

record 'v koe_plugin =
  pl_desc :: koe_plugin_descriptor
  pl_vm :: "'v ptr"
  pl_loaded :: int
  pl_events_processed :: u64
  pl_events_suppressed :: u64
  pl_errors :: u64

text \<open>The plugins in use, the first \<open>count\<close> entries of the array of 32.\<close>

record 'v koe_plugin_registry =
  pr_plugins :: "'v koe_plugin list"
  pr_plugins_dir :: string

definition koe_plugin_registry_load :: "string \<Rightarrow> int \<times> 'v koe_plugin_registry" where
  "koe_plugin_registry_load plugins_dir = (0, \<lparr>pr_plugins = [], pr_plugins_dir = strncpy_str 511 plugins_dir\<rparr>)"

text \<open>\<open>entry\<close> is the contents of the entry point, if it can be opened.\<close>

definition koe_plugin_enable :: "'v mruby \<Rightarrow> alloc \<Rightarrow> bytes option \<Rightarrow> 'v koe_plugin \<Rightarrow> int \<times> 'v koe_plugin" where
  "koe_plugin_enable mr mal entry plugin =
     (if \<not> mal 0 then (-1, plugin\<lparr>pl_vm := NULL\<rparr>)
      else case mr_open mr of
        None \<Rightarrow> (-1, plugin\<lparr>pl_vm := NULL\<rparr>)
      | Some mrb \<Rightarrow>
          let mrb = mr_load_string mr mrb KOE_PLUGIN_API_RB
          in if mr_exc mr mrb then (-1, plugin\<lparr>pl_vm := NULL\<rparr>)
             else case entry of
               None \<Rightarrow> (-1, plugin\<lparr>pl_vm := NULL\<rparr>)
             | Some script \<Rightarrow>
                 let mrb = mr_load_file mr mrb script
                 in if mr_exc mr mrb then (-1, plugin\<lparr>pl_vm := NULL\<rparr>)
                    else (0, plugin\<lparr>pl_vm := Some mrb, pl_loaded := 1\<rparr>))"

definition koe_plugin_disable :: "'v koe_plugin \<Rightarrow> 'v koe_plugin" where
  "koe_plugin_disable plugin = plugin\<lparr>pl_vm := NULL, pl_loaded := 0\<rparr>"

definition koe_plugin_reload :: "'v mruby \<Rightarrow> alloc \<Rightarrow> bytes option \<Rightarrow> 'v koe_plugin \<Rightarrow> int \<times> 'v koe_plugin" where
  "koe_plugin_reload mr mal entry plugin = koe_plugin_enable mr mal entry (koe_plugin_disable plugin)"

section \<open>Dispatch\<close>

primrec event_code :: "koe_event_type \<Rightarrow> int" where
  "event_code KOE_EV_NONE = 0"
| "event_code KOE_EV_MSG_RECEIVED = 1"
| "event_code KOE_EV_MSG_DELIVERED = 2"
| "event_code KOE_EV_MSG_READ = 3"
| "event_code KOE_EV_MSG_FAILED = 4"
| "event_code KOE_EV_PEER_ONLINE = 5"
| "event_code KOE_EV_PEER_OFFLINE = 6"
| "event_code KOE_EV_PEER_DISCOVERED = 7"
| "event_code KOE_EV_PEER_TYPING = 8"
| "event_code KOE_EV_PEER_STOPPED_TYPING = 9"
| "event_code KOE_EV_HANDSHAKE_DONE = 10"
| "event_code KOE_EV_SESSION_EXPIRED = 11"
| "event_code KOE_EV_CALL_INCOMING = 12"
| "event_code KOE_EV_CALL_ACCEPTED = 13"
| "event_code KOE_EV_CALL_REJECTED = 14"
| "event_code KOE_EV_CALL_ENDED = 15"
| "event_code KOE_EV_CALL_AUDIO_FRAME = 16"
| "event_code KOE_EV_CONTACT_REQUEST = 17"
| "event_code KOE_EV_CONTACT_ACCEPTED = 18"
| "event_code KOE_EV_CONTACT_BLOCKED = 19"
| "event_code KOE_EV_CONTACT_VERIFIED = 20"
| "event_code KOE_EV_MEDIA_OFFER = 21"
| "event_code KOE_EV_MEDIA_ACCEPTED = 22"
| "event_code KOE_EV_MEDIA_REJECTED = 23"
| "event_code KOE_EV_MEDIA_PROGRESS = 24"
| "event_code KOE_EV_MEDIA_DONE = 25"
| "event_code KOE_EV_MEDIA_FAILED = 26"
| "event_code KOE_EV_KEY_REVOKED = 27"
| "event_code KOE_EV_IDENTITY_SWITCHED = 28"
| "event_code KOE_EV_DESTRUCT_FIRED = 29"
| "event_code KOE_EV_SCHEDULED_DUE = 30"
| "event_code KOE_EV_QUEUE_DRAINED = 31"
| "event_code KOE_EV_GROUP_MSG = 32"
| "event_code KOE_EV_GROUP_MEMBER_JOIN = 33"
| "event_code KOE_EV_GROUP_MEMBER_LEAVE = 34"
| "event_code KOE_EV_GROUP_KICKED = 35"
| "event_code KOE_EV_GROUP_META_UPDATE = 36"
| "event_code KOE_EV_ERROR = 63"

definition runs :: "'v koe_plugin \<Rightarrow> bool" where
  "runs p \<longleftrightarrow> pl_loaded p \<noteq> 0 \<and> pd_enabled (pl_desc p) \<noteq> 0
     \<and> pd_permissions (pl_desc p) AND perm_bit KOE_PLUGIN_PERM_MODIFY_EVENTS \<noteq> 0"

text \<open>The body of a message that the plugin left behind, when it is a string that fits.\<close>

definition take_body :: "mrb_value \<Rightarrow> koe_ev_message \<Rightarrow> koe_ev_message option" where
  "take_body new_body m =
     (case new_body of
        MStr s \<Rightarrow>
          if CHR 0x00 \<in> set s then None
          else if length s < 4096 then Some (m\<lparr>em_body := mem_write 0 (str_bytes s) (em_body m), em_body_len := length s\<rparr>)
          else Some m
      | _ \<Rightarrow> Some m)"

definition message_of :: "koe_event \<Rightarrow> koe_ev_message option" where
  "message_of ev = (case ev_data ev of EvMessage m \<Rightarrow> Some m | _ \<Rightarrow> None)"

text \<open>The calls that hand the event to the plugin, up to the one that asks whether it is suppressed.\<close>

definition offer_event :: "'v mruby \<Rightarrow> koe_event \<Rightarrow> 'v \<Rightarrow> mrb_value \<times> 'v" where
  "offer_event mr ev mrb =
     (let mrb = snd (mr_funcall mr mrb ''type='' [MStr (snprintf_str 32 (show_int (event_code (ev_type ev))))]);
          mrb = (case message_of ev of
                   Some m \<Rightarrow> if ev_type ev = KOE_EV_MSG_RECEIVED
                     then snd (mr_funcall mr mrb ''body='' [MStr (map (\<lambda>b. char_of (unat b)) (take (em_body_len m) (em_body m)))]) else mrb
                 | None \<Rightarrow> mrb);
          mrb = snd (mr_funcall mr mrb ''suppressed='' [MFalse]);
          mrb = (if mr_respond_to mr mrb ''on_event'' then snd (mr_funcall mr mrb ''on_event'' []) else mrb)
      in mr_funcall mr mrb ''suppressed'' [])"

text \<open>Reading the body back, unless the event is suppressed.\<close>

definition read_back :: "'v mruby \<Rightarrow> koe_event \<Rightarrow> 'v \<Rightarrow> (koe_event \<times> 'v) option" where
  "read_back mr ev mrb =
     (if ev_type ev = KOE_EV_MSG_RECEIVED \<and> ev_suppressed ev = 0 then
        (case message_of ev of
           None \<Rightarrow> None
         | Some m \<Rightarrow>
             (case mr_funcall mr mrb ''body'' [] of
                (new_body, mrb) \<Rightarrow> map_option (\<lambda>m. (ev\<lparr>ev_data := EvMessage m\<rparr>, mrb)) (take_body new_body m)))
      else Some (ev, mrb))"

definition dispatch_one :: "'v mruby \<Rightarrow> 'v koe_plugin \<Rightarrow> koe_event \<Rightarrow> ('v koe_plugin \<times> koe_event) option" where
  "dispatch_one mr p ev =
     (case pl_vm p of
        NULL \<Rightarrow> None
      | Some mrb \<Rightarrow>
          (case offer_event mr ev mrb of
             (suppressed, mrb) \<Rightarrow>
               let s = mrb_test suppressed;
                   p = (if s then p\<lparr>pl_events_suppressed := pl_events_suppressed p + 1\<rparr> else p);
                   ev = (if s then ev\<lparr>ev_suppressed := 1\<rparr> else ev)
               in case read_back mr ev mrb of
                    None \<Rightarrow> None
                  | Some (ev, mrb) \<Rightarrow>
                      let p = (if mr_exc mr mrb then p\<lparr>pl_errors := pl_errors p + 1\<rparr> else p);
                          mrb = (if mr_exc mr mrb then mr_clear_exc mr mrb else mrb)
                      in Some (p\<lparr>pl_vm := Some mrb, pl_events_processed := pl_events_processed p + 1\<rparr>, ev)))"

fun dispatch_loop :: "'v mruby \<Rightarrow> 'v koe_plugin list \<Rightarrow> koe_event \<Rightarrow> ('v koe_plugin list \<times> koe_event) option" where
  "dispatch_loop mr [] ev = Some ([], ev)"
| "dispatch_loop mr (p # ps) ev =
     (if \<not> runs p then map_option (\<lambda>(ps, ev). (p # ps, ev)) (dispatch_loop mr ps ev)
      else case dispatch_one mr p ev of
        None \<Rightarrow> None
      | Some (p, ev) \<Rightarrow> map_option (\<lambda>(ps, ev). (p # ps, ev)) (dispatch_loop mr ps ev))"

definition koe_plugin_dispatch :: "'v mruby \<Rightarrow> 'v koe_plugin_registry \<Rightarrow> koe_event \<Rightarrow> (int \<times> 'v koe_plugin_registry \<times> koe_event) option" where
  "koe_plugin_dispatch mr reg ev =
     (case dispatch_loop mr (pr_plugins reg) ev of
        None \<Rightarrow> None
      | Some (ps, ev) \<Rightarrow> Some (if ev_suppressed ev \<noteq> 0 then 1 else 0, reg\<lparr>pr_plugins := ps\<rparr>, ev))"

section \<open>Statistics\<close>

definition koe_plugin_stats :: "'v koe_plugin \<Rightarrow> nat \<Rightarrow> string" where
  "koe_plugin_stats p buf_len =
     snprintf_str buf_len (''['' @ pd_name (pl_desc p) @ '' v'' @ pd_version (pl_desc p) @ ''] events='' @ show_dec (unat (pl_events_processed p))
       @ '' suppressed='' @ show_dec (unat (pl_events_suppressed p)) @ '' errors='' @ show_dec (unat (pl_errors p))
       @ '' loaded='' @ (if pl_loaded p \<noteq> 0 then ''yes'' else ''no''))"

section \<open>Callbacks\<close>

text \<open>The two static callbacks; nothing in the file calls them.\<close>

record ('f, 'g, 'c) plugin_callbacks =
  s_send_fn :: "'f ptr"
  s_send_ctx :: "'c ptr"
  s_log_fn :: "'g ptr"
  s_log_ctx :: "'c ptr"

definition koe_plugin_set_send_cb :: "'f ptr \<Rightarrow> 'c ptr \<Rightarrow> ('f, 'g, 'c) plugin_callbacks \<Rightarrow> ('f, 'g, 'c) plugin_callbacks" where
  "koe_plugin_set_send_cb fn ctx st = st\<lparr>s_send_fn := fn, s_send_ctx := ctx\<rparr>"

definition koe_plugin_set_log_cb :: "'g ptr \<Rightarrow> 'c ptr \<Rightarrow> ('f, 'g, 'c) plugin_callbacks \<Rightarrow> ('f, 'g, 'c) plugin_callbacks" where
  "koe_plugin_set_log_cb fn ctx st = st\<lparr>s_log_fn := fn, s_log_ctx := ctx\<rparr>"

section \<open>Life cycle\<close>

text \<open>A loaded plugin has a machine.\<close>

definition plugin_ok :: "'v koe_plugin \<Rightarrow> bool" where
  "plugin_ok p \<longleftrightarrow> (pl_loaded p \<noteq> 0 \<longrightarrow> pl_vm p \<noteq> NULL)"

lemma koe_plugin_disable_ok: "plugin_ok (koe_plugin_disable p)"
  by (simp add: plugin_ok_def koe_plugin_disable_def)

lemma koe_plugin_enable_ok: "pl_loaded p = 0 \<Longrightarrow> plugin_ok (snd (koe_plugin_enable mr mal entry p))"
  by (simp add: plugin_ok_def koe_plugin_enable_def Let_def split: option.splits)

lemma koe_plugin_reload_ok: "plugin_ok (snd (koe_plugin_reload mr mal entry p))"
  unfolding koe_plugin_reload_def by (rule koe_plugin_enable_ok) (simp add: koe_plugin_disable_def)

text \<open>Events a registry can be given: received messages carry a message whose body fits its buffer.\<close>

definition event_ok :: "koe_event \<Rightarrow> bool" where
  "event_ok ev \<longleftrightarrow> (ev_type ev = KOE_EV_MSG_RECEIVED \<longrightarrow>
     (\<exists>m. ev_data ev = EvMessage m \<and> length (em_body m) = 4096 \<and> em_body_len m \<le> 4096))"

text \<open>Scripts that never produce a string with an embedded NUL.\<close>

definition no_nul :: "'v mruby \<Rightarrow> bool" where
  "no_nul mr \<longleftrightarrow> (\<forall>mrb f args s mrb'. mr_funcall mr mrb f args = (MStr s, mrb') \<longrightarrow> CHR 0x00 \<notin> set s)"

lemma take_body_ok:
  assumes "length (em_body m) = 4096" "em_body_len m \<le> 4096" "take_body v m = Some m'"
  shows "length (em_body m') = 4096 \<and> em_body_len m' \<le> 4096"
  using assms by (auto simp: take_body_def split: mrb_value.splits if_splits)

lemma read_back_ok:
  assumes "event_ok ev" "read_back mr ev mrb = Some (ev', mrb')"
  shows "event_ok ev' \<and> ev_type ev' = ev_type ev \<and> ev_suppressed ev' = ev_suppressed ev"
proof (cases "ev_type ev = KOE_EV_MSG_RECEIVED \<and> ev_suppressed ev = 0")
  case False
  then show ?thesis using assms by (auto simp: read_back_def)
next
  case True
  then obtain m where m: "ev_data ev = EvMessage m" "length (em_body m) = 4096" "em_body_len m \<le> 4096"
    using assms(1) by (auto simp: event_ok_def)
  obtain v mrb1 where f: "mr_funcall mr mrb ''body'' [] = (v, mrb1)" by fastforce
  then obtain m' where "take_body v m = Some m'" "ev' = ev\<lparr>ev_data := EvMessage m'\<rparr>"
    using assms(2) True m(1) by (auto simp: read_back_def message_of_def)
  with take_body_ok [OF m(2,3)] show ?thesis by (auto simp: event_ok_def)
qed

lemma dispatch_one_ok:
  assumes "event_ok ev" "dispatch_one mr p ev = Some (p', ev')"
  shows "event_ok ev' \<and> ev_type ev' = ev_type ev \<and> (ev_suppressed ev \<noteq> 0 \<longrightarrow> ev_suppressed ev' \<noteq> 0)
    \<and> plugin_ok p' \<and> pl_desc p' = pl_desc p \<and> pl_loaded p' = pl_loaded p \<and> pl_events_processed p' = pl_events_processed p + 1"
proof -
  obtain mrb where vm: "pl_vm p = Some mrb" using assms(2) by (auto simp: dispatch_one_def split: option.splits)
  obtain v mrb1 where o1: "offer_event mr ev mrb = (v, mrb1)" by fastforce
  define ev1 where "ev1 = (if mrb_test v then ev\<lparr>ev_suppressed := 1\<rparr> else ev)"
  obtain ev2 mrb2 where r: "read_back mr ev1 mrb1 = Some (ev2, mrb2)"
    using assms(2) vm o1 by (auto simp: dispatch_one_def ev1_def Let_def split: option.splits prod.splits)
  have "event_ok ev1" using assms(1) by (simp add: ev1_def event_ok_def)
  note ok = read_back_ok [OF this r]
  have "ev' = ev2" and "plugin_ok p' \<and> pl_desc p' = pl_desc p \<and> pl_loaded p' = pl_loaded p \<and> pl_events_processed p' = pl_events_processed p + 1"
    using assms(2) vm o1 r by (auto simp: dispatch_one_def ev1_def [symmetric] Let_def plugin_ok_def split: if_splits)
  with ok show ?thesis by (auto simp: ev1_def split: if_splits)
qed

lemma dispatch_one_total:
  assumes "no_nul mr" "event_ok ev" "pl_vm p \<noteq> NULL"
  shows "dispatch_one mr p ev \<noteq> None"
proof -
  obtain mrb where vm: "pl_vm p = Some mrb" using assms(3) by blast
  have "read_back mr ev1 mrb1 \<noteq> None" if ev1: "ev1 = ev \<or> ev1 = ev\<lparr>ev_suppressed := 1\<rparr>" for ev1 mrb1
  proof (cases "ev_type ev1 = KOE_EV_MSG_RECEIVED \<and> ev_suppressed ev1 = 0")
    case True
    then obtain m where "ev_data ev1 = EvMessage m" using assms(2) ev1 by (auto simp: event_ok_def)
    moreover obtain v mrb2 where f: "mr_funcall mr mrb1 ''body'' [] = (v, mrb2)" by fastforce
    moreover have "CHR 0x00 \<notin> set s" if "v = MStr s" for s using assms(1) f that unfolding no_nul_def by blast
    then have "take_body v m \<noteq> None" by (auto simp: take_body_def split: mrb_value.splits)
    ultimately show ?thesis by (auto simp: read_back_def message_of_def)
  qed (auto simp: read_back_def)
  note rb = this [of ev, simplified] this [of "ev\<lparr>ev_suppressed := 1\<rparr>", simplified]
  obtain v mrb1 where "offer_event mr ev mrb = (v, mrb1)" by fastforce
  then show ?thesis using rb(1) [of mrb1] rb(2) [of mrb1] by (auto simp: dispatch_one_def vm Let_def)
qed

text \<open>What a dispatch does to a plugin.\<close>

definition dispatched :: "'v koe_plugin \<Rightarrow> 'v koe_plugin \<Rightarrow> bool" where
  "dispatched p p' \<longleftrightarrow> (if runs p then pl_desc p' = pl_desc p \<and> pl_loaded p' = pl_loaded p
     \<and> pl_events_processed p' = pl_events_processed p + 1 else p' = p)"

section \<open>Properties\<close>


text \<open>Enabling a plugin that is already loaded can crash the next dispatch: when the second attempt
  fails (here because its script can no longer be opened), the plugin has lost its machine but still
  counts as loaded, so dispatch dereferences NULL.\<close>

theorem plugin_enable_twice_crashes:
  assumes "runs p"
  shows "fst (koe_plugin_enable mr mal None p) = -1
    \<and> koe_plugin_dispatch mr (reg\<lparr>pr_plugins := snd (koe_plugin_enable mr mal None p) # ps\<rparr>) ev = None"
proof -
  have e: "koe_plugin_enable mr mal None p = (-1, p\<lparr>pl_vm := NULL\<rparr>)" by (simp add: koe_plugin_enable_def Let_def split: option.splits)
  have "runs (p\<lparr>pl_vm := NULL\<rparr>)" using assms by (simp add: runs_def)
  then show ?thesis by (simp add: e koe_plugin_dispatch_def dispatch_one_def)
qed

section \<open>Examples\<close>

text \<open>An interpreter whose state is the flag its script sets.\<close>

definition demo_mruby :: "bool mruby" where
  "demo_mruby = \<lparr>mr_open = Some False, mr_load_string = (\<lambda>v s. v), mr_load_file = (\<lambda>v f. f \<noteq> []), mr_exc = (\<lambda>v. False), mr_clear_exc = (\<lambda>v. v),
     mr_funcall = (\<lambda>v f args. (if f = ''suppressed'' \<and> v then MTrue else MNil, v)), mr_respond_to = (\<lambda>v f. False)\<rparr>"

definition demo_plugin :: "bool koe_plugin" where
  "demo_plugin = \<lparr>pl_desc = \<lparr>pd_name = ''filter'', pd_version = ''1'', pd_description = [], pd_author = [], pd_permissions = 3,
       pd_entry_point = ''f.rb'', pd_sandbox_dir = [], pd_enabled = 1\<rparr>,
     pl_vm = NULL, pl_loaded = 0, pl_events_processed = 0, pl_events_suppressed = 0, pl_errors = 0\<rparr>"

abbreviation running_plugin :: "bool koe_plugin" where
  "running_plugin \<equiv> snd (koe_plugin_enable demo_mruby (\<lambda>_. True) (Some [1]) demo_plugin)"

lemma running_plugin_runs: "runs running_plugin" "plugin_ok running_plugin"
  by (simp_all add: runs_def plugin_ok_def koe_plugin_enable_def demo_plugin_def demo_mruby_def)


theorem plugin_enable_twice_crashes_witness:
  "runs running_plugin \<and> koe_plugin_dispatch demo_mruby
     \<lparr>pr_plugins = [snd (koe_plugin_enable demo_mruby (\<lambda>_. True) None running_plugin)], pr_plugins_dir = []\<rparr> zero_event = None"
  using plugin_enable_twice_crashes [where p = running_plugin and mr = demo_mruby and mal = "\<lambda>_. True" and reg = "\<lparr>pr_plugins = [], pr_plugins_dir = []\<rparr>" and ps = "[]" and ev = zero_event, OF running_plugin_runs(1)]
    running_plugin_runs(1) by simp

end
