(* ===== verification/Koe_Core.thy ===== *)
theory Koe_Core
  imports Koe_Session Koe_Handshake Koe_Message Koe_Queue Koe_Event Koe_Presence Koe_Transport Koe_Identity Koe_Account
    Koe_Media Koe_Audio Koe_Ghost Koe_Matrix Koe_Plugin
begin

text \<open>
  The top level (\<^verbatim>\<open>src/koe_core.c\<close>, \<^verbatim>\<open>include/koe.h\<close>): the context that owns every component,
  start-up, shutdown, the change of account and the calls an application makes. What lies outside
  the context (files, databases on disk, open database connections, descriptors, the global
  variables) is the record \<open>world\<close>. A database connection is an address in \<open>w_heap\<close>, where \<open>None\<close>
  means freed; a call that reaches a freed connection is undefined behaviour, \<open>None\<close>. The
  environment of one call (clock, random bytes, allocation, results of system calls and of SQL) is
  the record \<open>call_env\<close>. The context pointer is never \<open>NULL\<close> here; creating the
  data directory has no effect on the files. The lemmas show that every call keeps the context and the
  connections consistent, that a text sent through one context is read by the other end, and what
  shutting down, switching accounts and the handshake wrapper do.
\<close>

section \<open>State\<close>

record koe_config =
  cf_data_root :: string
  cf_passphrase :: string
  cf_relay_host :: "string ptr"
  cf_relay_port :: u16
  cf_ws_port :: int
  cf_matrix_homeserver :: "string ptr"
  cf_discovery_timeout_ms :: int
  cf_bluetooth_enabled :: int
  cf_queue_max_per_peer :: int
  cf_db :: koe_db_config
  cf_cache :: koe_cache_config
  cf_plugins_dir :: "string ptr"

record 'v koe_ctx =
  cx_cfg :: koe_config
  cx_account_registry :: koe_account_registry
  cx_active_account :: koe_account
  cx_contacts :: koe_contact_book
  cx_transport :: koe_transport_ctx
  cx_presence :: koe_presence_table
  cx_sessions :: koe_session_table
  cx_queue :: koe_queue
  cx_ghost :: koe_ghost_state
  cx_plugins :: "'v koe_plugin_registry"
  cx_matrix :: koe_matrix_ctx
  cx_db :: "nat ptr"
  cx_cache :: "koe_cache_conn ptr"
  cx_initialised :: int

definition zero_ctx :: "koe_config \<Rightarrow> 'v koe_ctx" where
  "zero_ctx cfg = \<lparr>cx_cfg = cfg,
     cx_account_registry = \<lparr>ar_accounts = replicate KOE_ACCOUNT_MAX zero_desc, ar_count = 0, ar_data_root = []\<rparr>,
     cx_active_account = \<lparr>ac_desc = zero_desc, ac_keys = \<lparr>id_pk = replicate 32 0, id_sk = replicate 64 0\<rparr>, ac_passphrase = []\<rparr>,
     cx_contacts = \<lparr>bk_contacts = [], bk_count = 0\<rparr>,
     cx_transport = \<lparr>tc_listen_fd = 0, tc_tcp_listen_fd = 0, tc_ws_listen_fd = 0, tc_relay_host = [], tc_relay_port = 0,
                     tc_active = KOE_TRANSPORT_NONE, tc_bluetooth_enabled = 0\<rparr>,
     cx_presence = koe_presence_init,
     cx_sessions = koe_session_table_init,
     cx_queue = \<lparr>q_db = NULL, q_max_per_peer = 0, q_count = 0\<rparr>,
     cx_ghost = \<lparr>gh_active = 0, gh_suppress_read_receipts = 0, gh_suppress_typing = 0\<rparr>,
     cx_plugins = \<lparr>pr_plugins = [], pr_plugins_dir = []\<rparr>,
     cx_matrix = \<lparr>mx_homeserver = [], mx_access_token = [], mx_user_id = [], mx_use_tls = 0, mx_timeout_ms = 0\<rparr>,
     cx_db = NULL, cx_cache = NULL, cx_initialised = 0\<rparr>"

text \<open>\<open>w_dbs\<close> are the databases on disk, \<open>w_plugin_registry\<close> tells whether \<open>g_plugin_registry\<close> points
  at the context's registry, \<open>w_peers\<close> is \<open>g_peers\<close>.\<close>

record world =
  w_fs :: filesys
  w_dbs :: "string \<Rightarrow> koe_db option"
  w_heap :: "nat \<Rightarrow> (string \<times> koe_db_conn) option"
  w_next :: nat
  w_fds :: fds
  w_loop :: koe_loop
  w_msg_ctr :: u64
  w_plugin_registry :: bool
  w_peers :: "koe_peer list"
  w_peer_count :: nat

text \<open>\<open>ce_mal k\<close> are the allocations of the \<open>k\<close>-th component called, \<open>ce_sql k\<close> its SQL calls,
  \<open>ce_now\<close> and \<open>ce_rand\<close> the readings of the clock and the random draws in order.\<close>

record call_env =
  ce_sd :: sodium
  ce_mal :: "nat \<Rightarrow> alloc"
  ce_sql :: "nat \<Rightarrow> nat \<Rightarrow> sql_env"
  ce_now :: "nat \<Rightarrow> unix_time"
  ce_tv_sec :: nat
  ce_tv_nsec :: nat
  ce_rand :: "nat \<Rightarrow> bytes"
  ce_io :: file_io
  ce_sqlite_open :: "string \<Rightarrow> bool"
  ce_schema_ok :: "nat \<Rightarrow> bool"
  ce_udp :: int
  ce_tcp :: "int \<times> bool"
  ce_ws :: "int \<times> bool"
  ce_curl :: curl
  ce_b64 :: "bytes \<Rightarrow> string"

section \<open>Connections\<close>

definition open_db :: "call_env \<Rightarrow> nat \<Rightarrow> koe_db_backend \<Rightarrow> string \<Rightarrow> world \<Rightarrow> nat ptr \<times> world" where
  "open_db env k backend path w =
     (let opened = (if ce_sqlite_open env path
                    then Some (case w_dbs w path of None \<Rightarrow> empty_db | Some db \<Rightarrow> db) else None)
      in case koe_db_open (ce_mal env k) opened (ce_schema_ok env 0) backend of
           NULL \<Rightarrow> (NULL, w)
         | Some c \<Rightarrow> (Some (w_next w), w\<lparr>w_heap := (w_heap w)(w_next w \<mapsto> (path, c)), w_next := w_next w + 1\<rparr>))"

text \<open>Closing leaves the contents on disk.\<close>

definition koe_db_close :: "nat ptr \<Rightarrow> world \<Rightarrow> world option" where
  "koe_db_close conn w =
     (case conn of
        NULL \<Rightarrow> Some w
      | Some a \<Rightarrow>
          (case w_heap w a of
             None \<Rightarrow> None
           | Some (path, c) \<Rightarrow> Some (w\<lparr>w_dbs := (w_dbs w)(path := cn_sqlite c), w_heap := (w_heap w)(a := None)\<rparr>)))"

text \<open>A database operation \<open>f\<close> on the connection at an address.\<close>

definition on_db :: "nat ptr \<Rightarrow> (koe_db_conn ptr \<Rightarrow> 'r \<times> koe_db_conn ptr) \<Rightarrow> world \<Rightarrow> ('r \<times> world) option" where
  "on_db conn f w =
     (case conn of
        NULL \<Rightarrow> Some (fst (f NULL), w)
      | Some a \<Rightarrow>
          (case w_heap w a of
             None \<Rightarrow> None
           | Some (path, c) \<Rightarrow>
               (case f (Some c) of
                  (r, db) \<Rightarrow> Some (r, w\<lparr>w_heap := (w_heap w)(a := map_option (Pair path) db)\<rparr>))))"

definition db_path :: "string \<Rightarrow> koe_account \<Rightarrow> string" where
  "db_path data_root acc = snprintf_str 512 (data_root @ ''/accounts/'' @ ad_data_subdir (ac_desc acc) @ ''/history.db'')"

section \<open>Start-up and shutdown\<close>

text \<open>Step 4: the first account, or a new one. Step 5 onwards is \<open>start_components\<close>.\<close>

definition first_account :: "call_env \<Rightarrow> koe_config \<Rightarrow> 'v koe_ctx \<Rightarrow> world \<Rightarrow> int \<times> 'v koe_ctx \<times> world" where
  "first_account env cfg ctx w =
     (if ar_count (cx_account_registry ctx) = 0
      then case koe_account_create (ce_sd env) (ce_io env) (ce_rand env 0) (ce_rand env 1) (ce_rand env 2) (ce_now env 0) (ce_now env 1)
                  (cx_active_account ctx) (cx_account_registry ctx) ''me'' (cf_passphrase cfg) (w_fs w) of
             (rc, acc, reg, fs) \<Rightarrow> (rc, ctx\<lparr>cx_active_account := acc, cx_account_registry := reg\<rparr>, w\<lparr>w_fs := fs\<rparr>)
      else case koe_account_activate (ce_sd env) (cx_active_account ctx) (cx_account_registry ctx) 0 (cf_passphrase cfg) (w_fs w) of
             (rc, acc) \<Rightarrow> (rc, ctx\<lparr>cx_active_account := acc\<rparr>, w))"

definition start_matrix :: "call_env \<Rightarrow> koe_config \<Rightarrow> 'v koe_ctx \<Rightarrow> 'v koe_ctx option" where
  "start_matrix env cfg ctx =
     (case cf_matrix_homeserver cfg of
        NULL \<Rightarrow> Some ctx
      | Some hs \<Rightarrow> map_option (\<lambda>(rc, m). ctx\<lparr>cx_matrix := m\<rparr>)
          (koe_matrix_login (ce_sd env) (ce_b64 env) (ce_curl env) (ce_mal env 3) (cx_matrix ctx) (ac_keys (cx_active_account ctx)) hs))"

text \<open>\<open>a\<close> is the address of the database just opened.\<close>

definition start_components :: "call_env \<Rightarrow> koe_config \<Rightarrow> nat \<Rightarrow> 'v koe_ctx \<Rightarrow> world \<Rightarrow> (int \<times> 'v koe_ctx \<times> world) option" where
  "start_components env cfg a ctx w =
     (let db = map_option snd (w_heap w a);
          ctx = ctx\<lparr>cx_db := Some a, cx_contacts := snd (koe_contact_book_load (ce_mal env 1) koe_contact_book_init db)\<rparr>;
          ctx = ctx\<lparr>cx_queue := snd (koe_queue_open (ce_schema_ok env 1) (Some a) db
                     (if cf_queue_max_per_peer cfg > 0 then cf_queue_max_per_peer cfg else KOE_QUEUE_MAX_PER_PEER))\<rparr>;
          (rc, tr, fds) = koe_transport_init (ce_udp env) (ce_tcp env) (ce_ws env) (cf_relay_host cfg) (cf_relay_port cfg)
                            (cf_ws_port cfg) (w_fds w);
          ctx = ctx\<lparr>cx_transport := tr, cx_presence := koe_presence_init, cx_sessions := koe_session_table_init,
                    cx_cache := koe_cache_open (ce_mal env 2 0) (Some (cf_cache cfg))\<rparr>;
          w = w\<lparr>w_fds := fds\<rparr>;
          (ctx, w) = (case cf_plugins_dir cfg of
                        NULL \<Rightarrow> (ctx, w)
                      | Some dir \<Rightarrow> (case koe_plugin_registry_load dir of
                          (rc, reg) \<Rightarrow> (ctx\<lparr>cx_plugins := reg\<rparr>, if rc = 0 then w\<lparr>w_plugin_registry := True\<rparr> else w)))
      in map_option (\<lambda>ctx. (0, ctx\<lparr>cx_initialised := 1\<rparr>, w)) (start_matrix env cfg ctx))"

definition koe_init :: "call_env \<Rightarrow> koe_config \<Rightarrow> world \<Rightarrow> (int \<times> 'v koe_ctx \<times> world) option" where
  "koe_init env cfg w =
     (let ctx = zero_ctx cfg
      in if koe_crypto_init (ce_sd env) \<noteq> 0 then Some (-1, ctx, w)
         else case koe_account_registry_load (cf_data_root cfg) (w_fs w) of
           (rc, reg) \<Rightarrow>
             let ctx = ctx\<lparr>cx_account_registry := reg\<rparr>
             in if rc \<noteq> 0 then Some (-1, ctx, w)
                else case first_account env cfg ctx w of
                  (rc, ctx, w) \<Rightarrow>
                    if rc \<noteq> 0 then Some (-1, ctx, w)
                    else case open_db env 0 (dg_backend (cf_db cfg)) (db_path (cf_data_root cfg) (cx_active_account ctx)) w of
                      (NULL, w) \<Rightarrow> Some (-1, ctx, w)
                    | (Some a, w) \<Rightarrow> start_components env cfg a ctx w)"

text \<open>The result of a logout is ignored; \<open>mal\<close> are its allocations.\<close>

definition stop_matrix :: "call_env \<Rightarrow> 'v koe_ctx \<Rightarrow> 'v koe_ctx option" where
  "stop_matrix env ctx =
     (if mx_access_token (cx_matrix ctx) \<noteq> []
      then map_option (\<lambda>(rc, m). ctx\<lparr>cx_matrix := m\<rparr>) (koe_matrix_logout (ce_curl env) (ce_mal env 0) (cx_matrix ctx))
      else Some ctx)"

text \<open>Saving the contacts to a \<open>NULL\<close> connection has no effect.\<close>

definition save_contacts :: "call_env \<Rightarrow> 'v koe_ctx \<Rightarrow> world \<Rightarrow> (int \<times> world) option" where
  "save_contacts env ctx w = on_db (cx_db ctx) (koe_contact_book_save (ce_sql env 0) (cx_contacts ctx)) w"

definition koe_shutdown :: "call_env \<Rightarrow> 'v koe_ctx \<Rightarrow> world \<Rightarrow> ('v koe_ctx \<times> world) option" where
  "koe_shutdown env ctx w =
     (if cx_initialised ctx = 0 then Some (ctx, w)
      else case save_contacts env ctx w of
        None \<Rightarrow> None
      | Some (_, w) \<Rightarrow>
          (case stop_matrix env ctx of
             None \<Rightarrow> None
           | Some ctx \<Rightarrow>
               let ctx = ctx\<lparr>cx_plugins := (cx_plugins ctx)\<lparr>pr_plugins := map koe_plugin_disable (pr_plugins (cx_plugins ctx))\<rparr>\<rparr>;
                   w = w\<lparr>w_plugin_registry := False\<rparr>;
                   (tr, fds) = koe_transport_shutdown (cx_transport ctx) (w_fds w);
                   ctx = ctx\<lparr>cx_transport := tr, cx_cache := NULL, cx_queue := koe_queue_close (cx_queue ctx)\<rparr>;
                   w = w\<lparr>w_fds := fds\<rparr>
               in case koe_db_close (cx_db ctx) w of
                    None \<Rightarrow> None
                  | Some w \<Rightarrow>
                      Some (ctx\<lparr>cx_db := NULL, cx_contacts := koe_contact_book_free (cx_contacts ctx),
                                cx_active_account := koe_account_deactivate (cx_active_account ctx), cx_initialised := 0\<rparr>, w)))"

definition koe_switch_account :: "call_env \<Rightarrow> 'v koe_ctx \<Rightarrow> int \<Rightarrow> string \<Rightarrow> world \<Rightarrow> (int \<times> 'v koe_ctx \<times> world) option" where
  "koe_switch_account env ctx idx passphrase w =
     (if cx_initialised ctx = 0 then Some (-1, ctx, w)
      else case save_contacts env ctx w of
        None \<Rightarrow> None
      | Some (_, w) \<Rightarrow>
          (case koe_db_close (cx_db ctx) w of
             None \<Rightarrow> None
           | Some w \<Rightarrow>
               let ctx = ctx\<lparr>cx_db := NULL, cx_contacts := koe_contact_book_free (cx_contacts ctx),
                             cx_active_account := koe_account_deactivate (cx_active_account ctx)\<rparr>
               in case koe_account_activate (ce_sd env) (cx_active_account ctx) (cx_account_registry ctx) idx passphrase (w_fs w) of
                    (rc, acc) \<Rightarrow>
                      let ctx = ctx\<lparr>cx_active_account := acc\<rparr>
                      in if rc \<noteq> 0 then Some (-1, ctx, w)
                         else case open_db env 1 (dg_backend (cf_db (cx_cfg ctx))) (db_path (cf_data_root (cx_cfg ctx)) acc) w of
                           (NULL, w) \<Rightarrow> Some (-1, ctx, w)
                         | (Some a, w) \<Rightarrow>
                             let ctx = ctx\<lparr>cx_db := Some a, cx_contacts :=
                                   snd (koe_contact_book_load (ce_mal env 2) koe_contact_book_init (map_option snd (w_heap w a)))\<rparr>;
                                 ev = zero_event\<lparr>ev_type := KOE_EV_IDENTITY_SWITCHED\<rparr>
                             in Some (0, ctx, w\<lparr>w_loop := snd (koe_event_post (ce_now env 0) ev (w_loop w))\<rparr>)))"

section \<open>Sending\<close>

text \<open>A text message from the active account, before it is signed.\<close>

definition new_text :: "call_env \<Rightarrow> 'v koe_ctx \<Rightarrow> bytes \<Rightarrow> bytes \<Rightarrow> u64 \<Rightarrow> koe_message ptr \<times> u64" where
  "new_text env ctx to body ctr =
     (case koe_message_alloc (ce_mal env 0) (ce_tv_sec env) (ce_tv_nsec env) (ce_now env 1) KOE_MSG_TEXT to (Some body) (length body) ctr of
        (msg, ctr) \<Rightarrow> (map_option (\<lambda>m. m\<lparr>m_from := id_pk (ac_keys (cx_active_account ctx))\<rparr>) msg, ctr))"

text \<open>Queueing a packet; the results of the queue are ignored by every caller.\<close>

definition enqueue :: "call_env \<Rightarrow> 'v koe_ctx \<Rightarrow> koe_packet \<Rightarrow> world \<Rightarrow> (int \<times> world) option" where
  "enqueue env ctx pkt w =
     on_db (q_db (cx_queue ctx)) (\<lambda>db. koe_queue_push (ce_sql env 0) (ce_mal env 2) (ce_now env 3) (cx_queue ctx) db pkt) w"

definition koe_send_text ::
  "call_env \<Rightarrow> 'v koe_ctx \<Rightarrow> bytes ptr \<Rightarrow> string ptr \<Rightarrow> u32 \<Rightarrow> world \<Rightarrow> (int \<times> 'v koe_ctx \<times> world) option" where
  "koe_send_text env ctx to text destruct_ttl w =
     (if cx_initialised ctx = 0 then Some (-1, ctx, w)
      else case (to, text) of
        (Some to, Some text) \<Rightarrow>
          (case koe_session_table_find (ce_now env 0) to (cx_sessions ctx) of
             (sess, tbl) \<Rightarrow>
               let ctx = ctx\<lparr>cx_sessions := tbl\<rparr>
               in case sess of
                    NULL \<Rightarrow> Some (-1, ctx, w)
                  | Some sess \<Rightarrow>
                      (case new_text env ctx to (str_bytes text) (w_msg_ctr w) of
                         (msg, ctr) \<Rightarrow>
                           let w = w\<lparr>w_msg_ctr := ctr\<rparr>
                           in case msg of
                                NULL \<Rightarrow> Some (-1, ctx, w)
                              | Some msg \<Rightarrow>
                                  let msg = (if destruct_ttl > 0 then koe_message_set_destruct (ce_now env 2) msg destruct_ttl else msg);
                                      msg = snd (koe_message_sign (ce_sd env) msg (ac_keys (cx_active_account ctx)));
                                      id = sint (m_id msg)
                                  in case koe_message_encrypt (ce_sd env) (ce_mal env 1) (ce_rand env 0) msg sess of
                                       (rc, pkt) \<Rightarrow>
                                         if rc = 0 then map_option (\<lambda>(_, w). (id, ctx, w)) (enqueue env ctx pkt w)
                                         else Some (id, ctx, w)))
      | _ \<Rightarrow> Some (-1, ctx, w))"

definition koe_send_text_scheduled ::
  "call_env \<Rightarrow> 'v koe_ctx \<Rightarrow> bytes \<Rightarrow> string \<Rightarrow> unix_time \<Rightarrow> world \<Rightarrow> int \<times> world" where
  "koe_send_text_scheduled env ctx to text send_at_unix w =
     (if cx_initialised ctx = 0 then (-1, w)
      else case new_text env ctx to (str_bytes text) (w_msg_ctr w) of
        (msg, ctr) \<Rightarrow>
          let w = w\<lparr>w_msg_ctr := ctr\<rparr>
          in case msg of
               NULL \<Rightarrow> (-1, w)
             | Some msg \<Rightarrow>
                 let msg = koe_message_schedule msg send_at_unix;
                     msg = snd (koe_message_sign (ce_sd env) msg (ac_keys (cx_active_account ctx)))
                 in (sint (m_id msg), w))"

definition hex_digit :: "nat \<Rightarrow> char" where
  "hex_digit n = char_of (if n < 10 then 48 + n else 87 + n)"

definition hex_id :: "bytes \<Rightarrow> string" where
  "hex_id bs = concat (map (\<lambda>b. [hex_digit (unat b div 16), hex_digit (unat b mod 16)]) bs)"

text \<open>\<open>file\<close> and \<open>hashed\<close> are what the two readings of the file see.\<close>

definition koe_send_file ::
  "call_env \<Rightarrow> bytes option \<Rightarrow> bytes option \<Rightarrow> 'v koe_ctx \<Rightarrow> bytes \<Rightarrow> string \<Rightarrow> string ptr \<Rightarrow> world \<Rightarrow> (int \<times> string ptr \<times> world) option" where
  "koe_send_file env file hashed ctx to file_path transfer_id_out w =
     (if cx_initialised ctx = 0 then Some (-1, transfer_id_out, w)
      else case koe_media_offer_build (ce_sd env) (ce_mal env 0) file hashed (ce_rand env 0) (ce_rand env 1) (ce_now env 0)
                  file_path to zero_session no_offer zero_packet of
        (rc, offer, pkt) \<Rightarrow>
          if rc \<noteq> 0 then Some (-1, transfer_id_out, w)
          else map_option (\<lambda>(_, w). (0, map_option (\<lambda>_. hex_id (mo_transfer_id offer)) transfer_id_out, w)) (enqueue env ctx pkt w))"

definition koe_add_contact ::
  "call_env \<Rightarrow> 'v koe_ctx \<Rightarrow> string \<Rightarrow> string \<Rightarrow> world \<Rightarrow> (int \<times> 'v koe_ctx \<times> world) option" where
  "koe_add_contact env ctx short_id display_name w =
     (if cx_initialised ctx = 0 then Some (-1, ctx, w)
      else case koe_contact_add (ce_mal env 0) (ce_now env 0) (replicate 32 0) display_name (cx_contacts ctx) of
        (rc, book) \<Rightarrow>
          let ctx = ctx\<lparr>cx_contacts := book\<rparr>
          in if rc \<noteq> 0 then Some (-1, ctx, w)
             else map_option (\<lambda>(rc, w). (rc, ctx, w)) (save_contacts env ctx w))"

definition koe_start_call :: "('e, 'd) opus \<Rightarrow> bool \<Rightarrow> 'v koe_ctx \<Rightarrow> bytes \<Rightarrow> ('e, 'd) koe_audio_ctx ptr" where
  "koe_start_call op ok ctx to =
     (if cx_initialised ctx = 0 then NULL
      else if \<not> ok then NULL
      else case koe_audio_init op to of (rc, audio) \<Rightarrow> if rc \<noteq> 0 then NULL else Some audio)"

text \<open>The context as it is when its memory is released.\<close>

definition koe_end_call :: "('e, 'd) koe_audio_ctx ptr \<Rightarrow> ('e, 'd) koe_audio_ctx ptr" where
  "koe_end_call audio = map_option koe_audio_destroy audio"

definition koe_group_create :: "call_env \<Rightarrow> 'v koe_ctx \<Rightarrow> string \<Rightarrow> string \<Rightarrow> string \<Rightarrow> (int \<times> string) option" where
  "koe_group_create env ctx name topic room_id_out =
     (if cx_initialised ctx = 0 then Some (-1, room_id_out)
      else koe_matrix_room_create (ce_curl env) (ce_mal env 0) (cx_matrix ctx) name topic room_id_out)"

text \<open>The path and the body are built and dropped.\<close>

definition koe_group_send :: "call_env \<Rightarrow> 'v koe_ctx \<Rightarrow> string \<Rightarrow> string \<Rightarrow> int" where
  "koe_group_send env ctx room_id text =
     (if cx_initialised ctx = 0 then -1
      else let path = snprintf_str 512 (''/_matrix/client/r0/rooms/'' @ room_id @ ''/send/m.room.message/'' @ show_int (ce_now env 0));
               body = snprintf_str 4096 (''{'' @ quoted ''msgtype'' @ '':'' @ quoted ''m.text'' @ '','' @ quoted ''body'' @ '':'' @ quoted text @ ''}'')
           in -1)"

section \<open>Sessions and handshakes\<close>

definition koe_session_establish ::
  "call_env \<Rightarrow> bytes ptr \<Rightarrow> koe_session ptr \<Rightarrow> 'v koe_ctx \<Rightarrow> int \<times> 'v koe_ctx" where
  "koe_session_establish env peer_pk sess ctx =
     (if cx_initialised ctx = 0 then (-1, ctx)
      else case (peer_pk, sess) of
        (Some pk, Some s) \<Rightarrow>
          (case koe_session_table_add (ce_now env 0) (ce_now env 1) pk s (cx_sessions ctx) of (rc, tbl) \<Rightarrow> (rc, ctx\<lparr>cx_sessions := tbl\<rparr>))
      | _ \<Rightarrow> (-1, ctx))"

definition koe_session_active :: "call_env \<Rightarrow> bytes ptr \<Rightarrow> 'v koe_ctx \<Rightarrow> bool \<times> 'v koe_ctx" where
  "koe_session_active env peer_pk ctx =
     (if cx_initialised ctx = 0 then (False, ctx)
      else case peer_pk of
        NULL \<Rightarrow> (False, ctx)
      | Some pk \<Rightarrow> (case koe_session_table_find (ce_now env 0) pk (cx_sessions ctx) of
          (s, tbl) \<Rightarrow> (s \<noteq> NULL, ctx\<lparr>cx_sessions := tbl\<rparr>)))"

definition koe_session_close :: "bytes ptr \<Rightarrow> 'v koe_ctx \<Rightarrow> 'v koe_ctx" where
  "koe_session_close peer_pk ctx =
     (if cx_initialised ctx = 0 then ctx
      else case peer_pk of
        NULL \<Rightarrow> ctx
      | Some pk \<Rightarrow> ctx\<lparr>cx_sessions := snd (koe_session_table_remove pk (cx_sessions ctx))\<rparr>)"

definition koe_sessions_cleanup :: "call_env \<Rightarrow> int \<Rightarrow> 'v koe_ctx \<Rightarrow> 'v koe_ctx" where
  "koe_sessions_cleanup env max_age_seconds ctx =
     (if cx_initialised ctx = 0 then ctx
      else ctx\<lparr>cx_sessions := koe_session_table_cleanup (ce_now env 0) max_age_seconds (cx_sessions ctx)\<rparr>)"

text \<open>The handshake state is a local variable of the wrapper.\<close>

definition koe_handshake_start ::
  "call_env \<Rightarrow> 'v koe_ctx \<Rightarrow> bytes ptr \<Rightarrow> koe_packet ptr \<Rightarrow> int \<times> koe_packet ptr" where
  "koe_handshake_start env ctx peer_pk hello_out =
     (if cx_initialised ctx = 0 then (-1, hello_out)
      else case (peer_pk, hello_out) of
        (Some pk, Some out) \<Rightarrow>
          (case koe_handshake_init (ce_sd env) (ce_mal env 0) (ce_rand env 0) out (ac_keys (cx_active_account ctx)) pk of
             (rc, hs, hello) \<Rightarrow> (rc, Some hello))
      | _ \<Rightarrow> (-1, hello_out))"

text \<open>The end of both branches: finalise on a packet and keep the session when that succeeds.\<close>

definition finish_handshake ::
  "call_env \<Rightarrow> koe_handshake \<Rightarrow> koe_packet \<Rightarrow> bytes \<Rightarrow> 'v koe_ctx \<Rightarrow> int \<times> 'v koe_ctx" where
  "finish_handshake env hs ack from ctx =
     (case koe_handshake_finalise (ce_sd env) hs ack (ac_keys (cx_active_account ctx)) of
        (rc, hs) \<Rightarrow>
          if rc = 0
          then (1, ctx\<lparr>cx_sessions := snd (koe_session_table_add (ce_now env 0) (ce_now env 1) from (hs_session hs) (cx_sessions ctx))\<rparr>)
          else (0, ctx))"

text \<open>The result is the return code, the packet \<open>out\<close>, \<open>complete_out\<close> and the context.\<close>

definition koe_handshake_process ::
  "call_env \<Rightarrow> koe_packet ptr \<Rightarrow> koe_packet ptr \<Rightarrow> int \<Rightarrow> 'v koe_ctx \<Rightarrow> int \<times> koe_packet ptr \<times> int \<times> 'v koe_ctx" where
  "koe_handshake_process env inp out complete_out ctx =
     (if cx_initialised ctx = 0 then (-1, out, complete_out, ctx)
      else case (inp, out) of
        (Some i, Some ack) \<Rightarrow>
          if h_type (header i) = type_code KOE_TYPE_HELLO
          then case koe_handshake_respond (ce_sd env) (ce_mal env 0) (ce_rand env 0) ack i (ac_keys (cx_active_account ctx)) of
                 (rc, hs, ack) \<Rightarrow>
                   (case finish_handshake env hs ack (h_from (header i)) ctx of (complete, ctx) \<Rightarrow> (0, Some ack, complete, ctx))
          else if h_type (header i) = type_code KOE_TYPE_HELLO_ACK
          then case finish_handshake env zero_handshake i (h_from (header i)) ctx of (complete, ctx) \<Rightarrow> (0, out, complete, ctx)
          else (0, out, 0, ctx)
      | _ \<Rightarrow> (-1, out, complete_out, ctx))"

section \<open>Messages and peers\<close>

text \<open>\<open>pkt_out\<close> is left alone on an early return.\<close>

definition koe_message_send_encrypted ::
  "call_env \<Rightarrow> 'v koe_ctx \<Rightarrow> bytes ptr \<Rightarrow> bytes ptr \<Rightarrow> nat \<Rightarrow> koe_packet ptr \<Rightarrow> world \<Rightarrow> int \<times> koe_packet ptr \<times> 'v koe_ctx \<times> world" where
  "koe_message_send_encrypted env ctx to body body_len pkt_out w =
     (if cx_initialised ctx = 0 then (-1, pkt_out, ctx, w)
      else case (to, body) of
        (Some to, Some body) \<Rightarrow>
          if body_len = 0 \<or> pkt_out = NULL then (-1, pkt_out, ctx, w)
          else case koe_session_table_find (ce_now env 0) to (cx_sessions ctx) of
            (sess, tbl) \<Rightarrow>
              let ctx = ctx\<lparr>cx_sessions := tbl\<rparr>
              in case sess of
                   NULL \<Rightarrow> (-1, pkt_out, ctx, w)
                 | Some sess \<Rightarrow>
                     (case new_text env ctx to (take body_len body) (w_msg_ctr w) of
                        (msg, ctr) \<Rightarrow>
                          let w = w\<lparr>w_msg_ctr := ctr\<rparr>
                          in case msg of
                               NULL \<Rightarrow> (-1, pkt_out, ctx, w)
                             | Some msg \<Rightarrow>
                                 let msg = snd (koe_message_sign (ce_sd env) msg (ac_keys (cx_active_account ctx)))
                                 in case koe_message_encrypt (ce_sd env) (ce_mal env 1) (ce_rand env 0) msg sess of
                                      (rc, pkt) \<Rightarrow> (rc, Some pkt, ctx, w))
      | _ \<Rightarrow> (-1, pkt_out, ctx, w))"

definition koe_message_recv_and_decrypt ::
  "call_env \<Rightarrow> 'v koe_ctx \<Rightarrow> koe_packet ptr \<Rightarrow> koe_message ptr \<Rightarrow> (int \<times> koe_message ptr \<times> 'v koe_ctx) option" where
  "koe_message_recv_and_decrypt env ctx pkt msg_out =
     (if cx_initialised ctx = 0 then Some (-1, msg_out, ctx)
      else case (pkt, msg_out) of
        (Some pkt, Some msg) \<Rightarrow>
          (case koe_session_table_find (ce_now env 0) (h_from (header pkt)) (cx_sessions ctx) of
             (sess, tbl) \<Rightarrow>
               let ctx = ctx\<lparr>cx_sessions := tbl\<rparr>
               in case sess of
                    NULL \<Rightarrow> Some (-1, msg_out, ctx)
                  | Some sess \<Rightarrow>
                      map_option (\<lambda>(rc, msg). (rc, Some msg, ctx))
                        (koe_message_decrypt (ce_sd env) (ce_mal env 0) (ce_now env 1) msg pkt sess))
      | _ \<Rightarrow> Some (-1, msg_out, ctx))"

definition koe_peer_discover :: "world \<Rightarrow> int \<times> world" where
  "koe_peer_discover w = (0, w\<lparr>w_peer_count := 0\<rparr>)"

definition koe_peer_connect :: "bytes \<Rightarrow> world \<Rightarrow> int \<times> world" where
  "koe_peer_connect peer_pk w =
     (let n = w_peer_count w
      in if n \<ge> KOE_MAX_SESSIONS then (-1, w)
         else (0, w\<lparr>w_peers := (w_peers w)[n := (w_peers w ! n)\<lparr>pe_pk := peer_pk, pe_fd := -1\<rparr>], w_peer_count := n + 1\<rparr>))"

definition koe_send_to_peer ::
  "call_env \<Rightarrow> net \<Rightarrow> (nat \<Rightarrow> byte) \<Rightarrow> 'v koe_ctx \<Rightarrow> bytes ptr \<Rightarrow> koe_packet ptr \<Rightarrow> world \<Rightarrow> sock \<Rightarrow> (int \<times> 'v koe_ctx \<times> sock) option" where
  "koe_send_to_peer env nt junk ctx peer_pk pkt w sk =
     (if cx_initialised ctx = 0 then Some (-1, ctx, sk)
      else case (peer_pk, pkt) of
        (Some pk, Some pkt) \<Rightarrow>
          (case koe_session_table_find (ce_now env 0) pk (cx_sessions ctx) of
             (sess, tbl) \<Rightarrow>
               let ctx = ctx\<lparr>cx_sessions := tbl\<rparr>
               in if sess = NULL then Some (-1, ctx, sk)
                  else case find (\<lambda>p. pe_pk p = pk \<and> pe_fd p \<ge> 0) (take (w_peer_count w) (w_peers w)) of
                    None \<Rightarrow> Some (-1, ctx, sk)
                  | Some p \<Rightarrow> map_option (\<lambda>(rc, sk). (rc, ctx, sk)) (koe_transport_send nt (ce_mal env 0) junk p pkt sk))
      | _ \<Rightarrow> Some (-1, ctx, sk))"

definition koe_poll :: "call_env \<Rightarrow> int \<Rightarrow> 'v koe_ctx \<Rightarrow> int \<times> 'v koe_ctx" where
  "koe_poll env timeout_ms ctx = (if cx_initialised ctx = 0 then (-1, ctx) else (0, koe_sessions_cleanup env 300 ctx))"

definition koe_version_string_full :: string where
  "koe_version_string_full = ''koe-core/'' @ ''0.1.0'' @ '' proto/'' @ ''0.1''"

section \<open>Invariant\<close>

definition conn_live :: "koe_db_conn ptr \<Rightarrow> bool" where
  "conn_live conn \<longleftrightarrow> (\<exists>db. conn = conn_of db \<and> db_ok db)"

lemma conn_live_upsert: "conn_live conn \<Longrightarrow> conn_live (snd (koe_db_contact_upsert env conn c))"
  by (auto simp: conn_live_def koe_db_contact_upsert_def sql_write_def db_ok_contact_replace)

lemma conn_live_save: "conn_live conn \<Longrightarrow> conn_live (snd (koe_contact_book_save envs book conn))"
proof -
  have "conn_live conn \<Longrightarrow> conn_live (save_rows envs i cs conn)" for i cs
    by (induction cs arbitrary: i conn) (simp_all add: conn_live_upsert)
  then show "conn_live conn \<Longrightarrow> conn_live (snd (koe_contact_book_save envs book conn))" by (simp add: koe_contact_book_save_def)
qed

lemma conn_live_queue:
  "conn_live conn \<Longrightarrow> conn_live (fst (snd (koe_db_queue_push env conn q)))"
  "conn_live conn \<Longrightarrow> conn_live (fst (snd (koe_db_queue_pop env mal conn pk out)))"
  by (auto simp: conn_live_def koe_db_queue_push_def koe_db_queue_pop_def Let_def db_ok_queue_insert db_ok_queue_delete split: option.split)

lemma conn_live_push: "conn_live conn \<Longrightarrow> conn_live (snd (koe_queue_push envs mal now q conn p))"
  using conn_live_queue(1) [of _ "envs 2" "queue_entry now p"] conn_live_queue(2) [of conn "envs 1" mal "h_to (header p)" zero_queued]
  by (fastforce simp: koe_queue_push_def Let_def split: prod.splits)

text \<open>Every open connection is live and every database on disk consistent.\<close>

definition heap_ok :: "world \<Rightarrow> bool" where
  "heap_ok w \<longleftrightarrow> (\<forall>a\<ge>w_next w. w_heap w a = None) \<and> (\<forall>a path c. w_heap w a = Some (path, c) \<longrightarrow> conn_live (Some c))
     \<and> (\<forall>path db. w_dbs w path = Some db \<longrightarrow> db_ok db)"

text \<open>The context's connection is the only open one, and the queue uses it.\<close>

definition core_ok :: "'v koe_ctx \<Rightarrow> world \<Rightarrow> bool" where
  "core_ok ctx w \<longleftrightarrow> heap_ok w \<and> dom (w_heap w) = set_option (cx_db ctx) \<and> q_db (cx_queue ctx) = cx_db ctx
     \<and> (cx_initialised ctx = 0 \<longleftrightarrow> cx_db ctx = NULL) \<and> table_ok (cx_sessions ctx) \<and> book_ok (cx_contacts ctx)"

lemma on_db_ok:
  assumes "core_ok ctx w" and f: "\<And>conn. conn_live conn \<Longrightarrow> conn_live (snd (f conn))"
  obtains r w' where "on_db (cx_db ctx) f w = Some (r, w')" and "core_ok ctx w'"
proof (cases "cx_db ctx")
  case None
  then show ?thesis using that assms(1) by (simp add: on_db_def)
next
  case (Some a)
  then obtain path c where a: "w_heap w a = Some (path, c)" using assms(1) by (force simp: core_ok_def)
  then have "conn_live (Some c)" using assms(1) by (auto simp: core_ok_def heap_ok_def)
  then obtain r c' where c': "f (Some c) = (r, Some c')" "conn_live (Some c')"
    using f [of "Some c"] by (cases "f (Some c)") (auto simp: conn_live_def)
  have "core_ok ctx (w\<lparr>w_heap := (w_heap w)(a \<mapsto> (path, c'))\<rparr>)"
    using assms(1) Some a c'(2) by (auto simp: core_ok_def heap_ok_def)
  then show ?thesis using that Some a c'(1) by (simp add: on_db_def)
qed

lemma db_close_ok:
  assumes "core_ok ctx w"
  obtains w' where "koe_db_close (cx_db ctx) w = Some w'" and "heap_ok w'" and "w_heap w' = Map.empty"
proof (cases "cx_db ctx")
  case None
  then show ?thesis using that assms by (auto simp: koe_db_close_def core_ok_def)
next
  case (Some a)
  then obtain path c where a: "w_heap w a = Some (path, c)" using assms by (force simp: core_ok_def)
  then have "conn_live (Some c)" using assms by (auto simp: core_ok_def heap_ok_def)
  moreover have empty: "(w_heap w)(a := None) = Map.empty" using assms Some by (intro ext) (auto simp: core_ok_def)
  ultimately have "heap_ok (w\<lparr>w_dbs := (w_dbs w)(path := cn_sqlite c), w_heap := Map.empty\<rparr>)"
    using assms by (auto simp: core_ok_def heap_ok_def conn_live_def)
  then show ?thesis using that Some a empty by (simp add: koe_db_close_def)
qed

lemma open_db_ok:
  assumes "heap_ok w" and "open_db env k backend path w = (conn, w')"
  shows "heap_ok w'" and "w_heap w = Map.empty \<Longrightarrow> dom (w_heap w') = set_option conn"
proof -
  have "conn_live (Some c)" if "koe_db_open mal (Some (case w_dbs w path of None \<Rightarrow> empty_db | Some db \<Rightarrow> db)) ok backend = Some c" for c mal ok
    using that assms(1) by (auto simp: koe_db_open_def conn_live_def heap_ok_def db_ok_empty split: if_splits option.splits)
  moreover have "koe_db_open mal None ok backend = NULL" for mal ok by (simp add: koe_db_open_def)
  ultimately show "heap_ok w'" and "w_heap w = Map.empty \<Longrightarrow> dom (w_heap w') = set_option conn"
    using assms by (auto simp: open_db_def heap_ok_def Let_def split: option.splits if_splits)
qed

text \<open>One step per call an application can make, except the change of account; starting is for a
  context that is not running.\<close>

inductive core_step :: "'v koe_ctx \<times> world \<Rightarrow> 'v koe_ctx \<times> world \<Rightarrow> bool" where
  step_init: "cx_initialised ctx = 0 \<Longrightarrow> koe_init env cfg w = Some (rc, ctx', w') \<Longrightarrow> core_step (ctx, w) (ctx', w')"
| step_shutdown: "koe_shutdown env ctx w = Some s \<Longrightarrow> core_step (ctx, w) s"
| step_send_text: "koe_send_text env ctx to txt ttl w = Some (rc, s) \<Longrightarrow> core_step (ctx, w) s"
| step_scheduled: "koe_send_text_scheduled env ctx to txt at w = (rc, w') \<Longrightarrow> core_step (ctx, w) (ctx, w')"
| step_send_file: "koe_send_file env data hashed ctx to path tid w = Some (rc, tid', w') \<Longrightarrow> core_step (ctx, w) (ctx, w')"
| step_add_contact: "koe_add_contact env ctx sid name w = Some (rc, s) \<Longrightarrow> core_step (ctx, w) s"
| step_establish: "koe_session_establish env pk sess ctx = (rc, ctx') \<Longrightarrow> core_step (ctx, w) (ctx', w)"
| step_active: "koe_session_active env pk ctx = (b, ctx') \<Longrightarrow> core_step (ctx, w) (ctx', w)"
| step_close: "core_step (ctx, w) (koe_session_close pk ctx, w)"
| step_cleanup: "core_step (ctx, w) (koe_sessions_cleanup env age ctx, w)"
| step_process: "koe_handshake_process env inp out c ctx = (rc, out', c', ctx') \<Longrightarrow> core_step (ctx, w) (ctx', w)"
| step_send: "koe_message_send_encrypted env ctx pk body n out w = (rc, out', s) \<Longrightarrow> core_step (ctx, w) s"
| step_recv: "koe_message_recv_and_decrypt env ctx p msg = Some (rc, msg', ctx') \<Longrightarrow> core_step (ctx, w) (ctx', w)"
| step_discover: "koe_peer_discover w = (rc, w') \<Longrightarrow> core_step (ctx, w) (ctx, w')"
| step_connect: "koe_peer_connect pk w = (rc, w') \<Longrightarrow> core_step (ctx, w) (ctx, w')"
| step_to_peer: "koe_send_to_peer env nt junk ctx pk p w sk = Some (rc, ctx', sk') \<Longrightarrow> core_step (ctx, w) (ctx', w)"
| step_poll: "koe_poll env ms ctx = (rc, ctx') \<Longrightarrow> core_step (ctx, w) (ctx', w)"

inductive_cases core_stepE: "core_step (ctx, w) s"

lemma core_ok_sessions: "core_ok ctx w \<Longrightarrow> table_ok t \<Longrightarrow> core_ok (ctx\<lparr>cx_sessions := t\<rparr>) w"
  by (simp add: core_ok_def)

lemma core_ok_find: "core_ok ctx w \<Longrightarrow> core_ok (ctx\<lparr>cx_sessions := snd (koe_session_table_find now pk (cx_sessions ctx))\<rparr>) w"
  by (simp add: core_ok_sessions core_ok_def table_ok_find)

lemma core_ok_add: "core_ok ctx w \<Longrightarrow> core_ok (ctx\<lparr>cx_sessions := snd (koe_session_table_add t1 t2 pk s (cx_sessions ctx))\<rparr>) w"
  by (simp add: core_ok_sessions core_ok_def table_ok_add)

lemma core_ok_world [simp]:
  "core_ok ctx (w\<lparr>w_msg_ctr := ctr\<rparr>) = core_ok ctx w" "core_ok ctx (w\<lparr>w_peer_count := n\<rparr>) = core_ok ctx w"
  "core_ok ctx (w\<lparr>w_peers := ps\<rparr>) = core_ok ctx w"
  by (simp_all add: core_ok_def heap_ok_def)

text \<open>The three ways into the database, none of which is ever undefined.\<close>

lemma enqueue_ok:
  assumes "core_ok ctx w"
  obtains r w' where "enqueue env ctx pkt w = Some (r, w')" and "core_ok ctx w'"
proof -
  let ?push = "\<lambda>db. koe_queue_push (ce_sql env 0) (ce_mal env 2) (ce_now env 3) (cx_queue ctx) db pkt"
  obtain r w' where "on_db (cx_db ctx) ?push w = Some (r, w')" and ok: "core_ok ctx w'"
    by (rule on_db_ok [OF assms, of ?push]) (auto intro: conn_live_push)
  moreover have "q_db (cx_queue ctx) = cx_db ctx" using assms by (simp add: core_ok_def)
  ultimately show ?thesis using that [OF _ ok] by (simp add: enqueue_def)
qed

lemma save_contacts_ok:
  assumes "core_ok ctx w"
  obtains r w' where "save_contacts env ctx w = Some (r, w')" and "core_ok ctx w'"
proof -
  obtain r w' where "on_db (cx_db ctx) (koe_contact_book_save (ce_sql env 0) (cx_contacts ctx)) w = Some (r, w')" and ok: "core_ok ctx w'"
    by (rule on_db_ok [OF assms, of "koe_contact_book_save (ce_sql env 0) (cx_contacts ctx)"]) (auto intro: conn_live_save)
  then show ?thesis using that [OF _ ok] by (simp add: save_contacts_def)
qed

lemma send_text_ok:
  assumes "core_ok ctx w"
  shows "\<exists>rc ctx' w'. koe_send_text env ctx to txt ttl w = Some (rc, ctx', w') \<and> core_ok ctx' w'"
proof -
  obtain s tbl where f: "koe_session_table_find (ce_now env 0) (the to) (cx_sessions ctx) = (s, tbl)" by fastforce
  then have ok: "core_ok (ctx\<lparr>cx_sessions := tbl\<rparr>) (w\<lparr>w_msg_ctr := n\<rparr>)" for n
    using core_ok_find [OF assms, of "ce_now env 0" "the to"] by simp
  have enq: "\<exists>w'. (\<exists>r. enqueue env (ctx\<lparr>cx_sessions := tbl\<rparr>) p (w\<lparr>w_msg_ctr := n\<rparr>) = Some (r, w'))
      \<and> core_ok (ctx\<lparr>cx_sessions := tbl\<rparr>) w'" for p n
    by (rule enqueue_ok [OF ok, of env p n]) auto
  show ?thesis
    using f enq ok assms by (auto simp: koe_send_text_def Let_def split: option.split prod.split)
qed

lemma send_file_ok:
  assumes "core_ok ctx w"
  shows "\<exists>rc tid' w'. koe_send_file env data hashed ctx to path tid w = Some (rc, tid', w') \<and> core_ok ctx w'"
proof -
  have "\<exists>w'. (\<exists>r. enqueue env ctx p w = Some (r, w')) \<and> core_ok ctx w'" for p
    by (rule enqueue_ok [OF assms, of env p]) auto
  then show ?thesis using assms by (simp add: koe_send_file_def split: prod.split)
qed

lemma book_ok_add: "book_ok book \<Longrightarrow> book_ok (snd (koe_contact_add mal now pk name book))"
  using koe_contact_add_ok(2) [of book mal pk now name] by (auto simp: koe_contact_add_def split: if_splits)

lemma add_contact_ok:
  assumes "core_ok ctx w"
  shows "\<exists>rc ctx' w'. koe_add_contact env ctx sid name w = Some (rc, ctx', w') \<and> core_ok ctx' w'"
proof -
  obtain rc book where add: "koe_contact_add (ce_mal env 0) (ce_now env 0) (replicate 32 0) name (cx_contacts ctx) = (rc, book)" by fastforce
  have "book_ok book" using assms book_ok_add add by (metis core_ok_def snd_conv)
  then have ok: "core_ok (ctx\<lparr>cx_contacts := book\<rparr>) w" using assms by (simp add: core_ok_def)
  show ?thesis
    by (rule save_contacts_ok [OF ok, of env]) (use ok assms in \<open>auto simp: koe_add_contact_def add Let_def\<close>)
qed

lemma stop_matrix_Some: "stop_matrix env ctx = Some ctx' \<Longrightarrow> ctx' = ctx\<lparr>cx_matrix := cx_matrix ctx'\<rparr>"
  by (auto simp: stop_matrix_def split: if_splits)

lemma shutdown_ok:
  assumes "core_ok ctx w" and "koe_shutdown env ctx w = Some (ctx', w')"
  shows "core_ok ctx' w'"
proof (cases "cx_initialised ctx = 0")
  case True
  then show ?thesis using assms by (simp add: koe_shutdown_def)
next
  case False
  obtain r w1 where s: "save_contacts env ctx w = Some (r, w1)" "core_ok ctx w1" using save_contacts_ok [OF assms(1)] .
  obtain ctx1 where c1: "stop_matrix env ctx = Some ctx1"
    using assms(2) False s(1) by (cases "stop_matrix env ctx") (auto simp: koe_shutdown_def)
  obtain m where "ctx1 = ctx\<lparr>cx_matrix := m\<rparr>" using stop_matrix_Some [OF c1] by blast
  with c1 have m: "stop_matrix env ctx = Some (ctx\<lparr>cx_matrix := m\<rparr>)" by simp
  obtain tr fds where tr: "koe_transport_shutdown (cx_transport ctx) (w_fds w1) = (tr, fds)" by fastforce
  have "core_ok ctx (w1\<lparr>w_plugin_registry := False, w_fds := fds\<rparr>)" using s(2) by (simp add: core_ok_def heap_ok_def)
  then obtain w2 where w2: "koe_db_close (cx_db ctx) (w1\<lparr>w_plugin_registry := False, w_fds := fds\<rparr>) = Some w2" "heap_ok w2" "w_heap w2 = Map.empty"
    by (rule db_close_ok)
  show ?thesis
    using assms False s m tr w2
    by (auto simp: koe_shutdown_def Let_def core_ok_def koe_queue_close_def koe_contact_book_free_def book_ok_def)
qed

lemma core_ok_zero: "heap_ok w \<Longrightarrow> w_heap w = Map.empty \<Longrightarrow> core_ok (zero_ctx cfg) w"
  by (simp add: core_ok_def zero_ctx_def table_ok_init book_ok_def)

lemma first_account_frame:
  assumes "first_account env cfg ctx w = (rc, ctx', w')"
  shows "ctx' = ctx\<lparr>cx_active_account := cx_active_account ctx', cx_account_registry := cx_account_registry ctx'\<rparr>"
    and "w' = w\<lparr>w_fs := w_fs w'\<rparr>" and "w_heap w' = w_heap w" and "w_dbs w' = w_dbs w"
  using assms by (auto simp: first_account_def split: if_splits prod.splits)

lemma start_matrix_frame:
  "start_matrix env cfg ctx = Some ctx' \<Longrightarrow> cx_db ctx' = cx_db ctx \<and> cx_queue ctx' = cx_queue ctx \<and>
    cx_sessions ctx' = cx_sessions ctx \<and> cx_contacts ctx' = cx_contacts ctx \<and> cx_active_account ctx' = cx_active_account ctx"
  by (auto simp: start_matrix_def split: option.splits)

lemma book_ok_load: "book_ok (snd (koe_contact_book_load mal koe_contact_book_init db))"
  by (simp add: koe_contact_book_load_def koe_db_contact_list_def koe_contact_book_init_def book_ok_def)

text \<open>What a start leaves of the parts that matter for the connections.\<close>

lemma start_components_Some:
  assumes "start_components env cfg a ctx w = Some (rc, ctx', w')"
  shows "rc = 0" and "cx_db ctx' = Some a" and "q_db (cx_queue ctx') = Some a" and "cx_initialised ctx' = 1"
    and "cx_sessions ctx' = koe_session_table_init" and "book_ok (cx_contacts ctx')"
    and "cx_active_account ctx' = cx_active_account ctx"
    and "w_heap w' = w_heap w" and "w_dbs w' = w_dbs w" and "w_next w' = w_next w" and "w_fs w' = w_fs w"
  using assms
  by (auto simp: start_components_def Let_def koe_queue_open_def book_ok_load split: prod.splits option.splits if_splits dest!: start_matrix_frame)

lemma init_ok:
  fixes ctx ctx' :: "'v koe_ctx"
  assumes "core_ok ctx w" and "cx_initialised ctx = 0" and init: "koe_init env cfg w = Some (rc, ctx', w')"
  shows "core_ok ctx' w'"
proof -
  have w: "heap_ok w" "w_heap w = Map.empty" using assms(1,2) by (auto simp: core_ok_def)
  have zero: "core_ok ((zero_ctx cfg :: 'v koe_ctx)\<lparr>cx_account_registry := r\<rparr>) w" for r using core_ok_zero [OF w, of cfg] by (simp add: core_ok_def)
  obtain rc1 reg where reg: "koe_account_registry_load (cf_data_root cfg) (w_fs w) = (rc1, reg)" by fastforce
  let ?c = "(zero_ctx cfg)\<lparr>cx_account_registry := reg\<rparr> :: 'v koe_ctx"
  obtain rc2 ctx2 w2 where fa: "first_account env cfg ?c w = (rc2, ctx2, w2)" by (cases "first_account env cfg ?c w") auto
  have "core_ok (?c\<lparr>cx_active_account := acc, cx_account_registry := r\<rparr>) (w\<lparr>w_fs := fs\<rparr>)" for acc r fs
    using zero by (simp add: core_ok_def heap_ok_def)
  then have c2: "core_ok ctx2 w2" by (metis first_account_frame [OF fa])
  have e2: "w_heap w2 = Map.empty" "heap_ok w2" using first_account_frame(3) [OF fa] w c2 by (simp_all add: core_ok_def)
  obtain conn w3 where db: "open_db env 0 (dg_backend (cf_db cfg)) (db_path (cf_data_root cfg) (cx_active_account ctx2)) w2 = (conn, w3)" by fastforce
  note w3 = open_db_ok [OF e2(2) db] 
  show ?thesis
  proof (cases conn)
    case None
    then have "w3 = w2" using db by (auto simp: open_db_def Let_def split: option.splits)
    then show ?thesis using init zero c2 fa db None core_ok_zero [OF w, of cfg] by (auto simp: koe_init_def reg Let_def split: if_splits)
  next
    case (Some a)
    show ?thesis
    proof (cases "koe_crypto_init (ce_sd env) \<noteq> 0 \<or> rc1 \<noteq> 0 \<or> rc2 \<noteq> 0")
      case True
      then show ?thesis using init zero c2 fa core_ok_zero [OF w, of cfg] by (auto simp: koe_init_def reg Let_def split: if_splits)
    next
      case False
      then have "start_components env cfg a ctx2 w3 = Some (rc, ctx', w')" using init fa db Some by (simp add: koe_init_def reg Let_def)
      from start_components_Some [OF this] w3 e2 Some show ?thesis by (simp add: core_ok_def heap_ok_def table_ok_init)
    qed
  qed
qed


lemma finish_handshake_ok: "core_ok ctx w \<Longrightarrow> finish_handshake env hs ack from ctx = (c, ctx') \<Longrightarrow> core_ok ctx' w"
  by (auto simp: finish_handshake_def core_ok_add split: prod.splits if_splits)

lemma session_calls_ok:
  assumes "core_ok ctx w"
  shows "core_ok (snd (koe_session_establish env pk s ctx)) w" and "core_ok (snd (koe_session_active env pk ctx)) w"
    and "core_ok (koe_session_close pk ctx) w" and "core_ok (koe_sessions_cleanup env age ctx) w"
    and "core_ok (snd (koe_poll env ms ctx)) w"
proof -
  show "core_ok (snd (koe_session_establish env pk s ctx)) w"
    using assms core_ok_add [OF assms] by (auto simp: koe_session_establish_def split: option.split prod.split) (metis snd_conv)
  show "core_ok (snd (koe_session_active env pk ctx)) w"
    using assms core_ok_find [OF assms] by (auto simp: koe_session_active_def split: option.split prod.split) (metis snd_conv)
  show "core_ok (koe_session_close pk ctx) w"
    using assms by (auto simp: koe_session_close_def core_ok_def table_ok_remove split: option.split)
  show cleanup: "core_ok (koe_sessions_cleanup env age ctx) w" for age
    using assms by (simp add: koe_sessions_cleanup_def core_ok_def table_ok_cleanup)
  show "core_ok (snd (koe_poll env ms ctx)) w" using assms cleanup by (simp add: koe_poll_def)
qed

lemma handshake_process_ok:
  assumes "core_ok ctx w" and "koe_handshake_process env inp out c ctx = (rc, out', c', ctx')"
  shows "core_ok ctx' w"
  using assms finish_handshake_ok [OF assms(1)]
  by (auto simp: koe_handshake_process_def split: if_splits option.splits prod.splits)

lemma message_calls_ok:
  assumes "core_ok ctx w"
  shows "koe_message_send_encrypted env ctx pk body n out w = (rc, out', ctx', w') \<Longrightarrow> core_ok ctx' w'"
    and "koe_message_recv_and_decrypt env ctx p msg = Some (rc', msg', ctx2) \<Longrightarrow> core_ok ctx2 w"
    and "koe_send_to_peer env nt junk ctx pk p w sk = Some (rc', ctx2, sk') \<Longrightarrow> core_ok ctx2 w"
proof -
  have find: "core_ok (ctx\<lparr>cx_sessions := tbl\<rparr>) w" if "koe_session_table_find now k (cx_sessions ctx) = (s, tbl)" for now k s tbl
    using core_ok_find [OF assms, of now k] that by simp
  show "koe_message_send_encrypted env ctx pk body n out w = (rc, out', ctx', w') \<Longrightarrow> core_ok ctx' w'"
    using assms find by (auto simp: koe_message_send_encrypted_def Let_def split: if_splits option.splits prod.splits)
  show "koe_message_recv_and_decrypt env ctx p msg = Some (rc', msg', ctx2) \<Longrightarrow> core_ok ctx2 w"
    using assms find by (auto simp: koe_message_recv_and_decrypt_def Let_def split: if_splits option.splits prod.splits)
  show "koe_send_to_peer env nt junk ctx pk p w sk = Some (rc', ctx2, sk') \<Longrightarrow> core_ok ctx2 w"
    using assms find by (auto simp: koe_send_to_peer_def Let_def split: if_splits option.splits prod.splits)
qed

lemma core_step_ok: "core_step s s' \<Longrightarrow> core_ok (fst s) (snd s) \<Longrightarrow> core_ok (fst s') (snd s')"
proof (induction rule: core_step.induct)
  case (step_init ctx env cfg w rc ctx' w')
  then show ?case using init_ok by simp
next
  case (step_shutdown env ctx w s)
  then show ?case using shutdown_ok by (cases s) fastforce
next
  case (step_send_text env ctx pk body ttl w rc s)
  then show ?case using send_text_ok [of ctx w env pk body ttl] by auto
next
  case (step_scheduled env ctx pk body t w rc w')
  then show ?case by (auto simp: koe_send_text_scheduled_def Let_def split: if_splits prod.splits option.splits)
next
  case (step_send_file env data hashed ctx pk path tid w rc tid' w')
  then show ?case using send_file_ok [of ctx w env data hashed pk path tid] by auto
next
  case (step_add_contact env ctx sid name w rc s)
  then show ?case using add_contact_ok [of ctx w env sid name] by auto
next
  case (step_send env ctx pk body n out w rc out' s)
  then show ?case using message_calls_ok(1) by (cases s) fastforce
next
  case (step_connect pk w rc w' ctx)
  then show ?case by (auto simp: koe_peer_connect_def Let_def split: if_splits)
next
  case (step_discover w rc w' ctx)
  then show ?case by (auto simp: koe_peer_discover_def)
qed (auto simp: session_calls_ok dest: message_calls_ok(2,3) handshake_process_ok, (metis session_calls_ok snd_conv)+)

lemma rtranclp_core_ok: "rtranclp core_step s s' \<Longrightarrow> core_ok (fst s) (snd s) \<Longrightarrow> core_ok (fst s') (snd s')"
  by (induction rule: rtranclp_induct) (auto intro: core_step_ok)

section \<open>Restart\<close>

text \<open>Saving the contacts leaves the queue and the messages alone.\<close>

lemma save_rows_queue:
  "\<exists>db'. save_rows envs i cs (conn_of db) = conn_of db' \<and> db_queue db' = db_queue db \<and> db_messages db' = db_messages db"
proof (induction cs arbitrary: i db)
  case (Cons c cs)
  have "\<exists>db'. snd (koe_db_contact_upsert (envs i) (conn_of db) (row_of_contact c)) = conn_of db' \<and> db_queue db' = db_queue db \<and> db_messages db' = db_messages db"
    by (auto simp: koe_db_contact_upsert_def sql_write_def contact_replace_def Let_def)
  then show ?case using Cons.IH by force
qed simp

lemma shutdown_persists:
  assumes "cx_initialised ctx \<noteq> 0" and "cx_db ctx = Some a" and "w_heap w a = Some (path, c)" and "Some c = conn_of db"
    and "koe_shutdown env ctx w = Some (ctx', w')"
  shows "\<exists>db'. w_dbs w' path = Some db' \<and> db_queue db' = db_queue db \<and> db_messages db' = db_messages db"
    and "cx_sessions ctx' = cx_sessions ctx" and "ac_keys (cx_active_account ctx') = \<lparr>id_pk = replicate 32 0, id_sk = replicate 64 0\<rparr>"
    and "bk_contacts (cx_contacts ctx') = []"
proof -
  obtain db' where db': "save_rows (ce_sql env 0) 0 (bk_contacts (cx_contacts ctx)) (conn_of db) = conn_of db'"
    "db_queue db' = db_queue db" "db_messages db' = db_messages db" using save_rows_queue by blast
  let ?w = "w\<lparr>w_heap := (w_heap w)(a \<mapsto> (path, the (conn_of db')))\<rparr>"
  have s: "save_contacts env ctx w = Some (0, ?w)"
    using assms(2-4) db'(1) by (simp add: save_contacts_def on_db_def koe_contact_book_save_def)
  obtain ctx1 where c1: "stop_matrix env ctx = Some ctx1"
    using assms(1,5) s by (cases "stop_matrix env ctx") (auto simp: koe_shutdown_def)
  obtain m where "ctx1 = ctx\<lparr>cx_matrix := m\<rparr>" using stop_matrix_Some [OF c1] by blast
  note sd = assms(1,2,5) s c1 [unfolded this]
  show "\<exists>db'. w_dbs w' path = Some db' \<and> db_queue db' = db_queue db \<and> db_messages db' = db_messages db"
    using sd db'(2,3) by (auto simp: koe_shutdown_def Let_def koe_db_close_def split: prod.splits)
  show "cx_sessions ctx' = cx_sessions ctx" and "ac_keys (cx_active_account ctx') = \<lparr>id_pk = replicate 32 0, id_sk = replicate 64 0\<rparr>"
    and "bk_contacts (cx_contacts ctx') = []"
    using sd by (auto simp: koe_shutdown_def Let_def koe_db_close_def koe_account_deactivate_def koe_contact_book_free_def split: prod.splits)
qed

text \<open>A successful start opens the database of its account.\<close>

lemma init_opens:
  fixes ctx' :: "'v koe_ctx"
  assumes "koe_init env cfg w = Some (0, ctx', w')"
  obtains a c where "cx_db ctx' = Some a" and "w_heap w' a = Some (db_path (cf_data_root cfg) (cx_active_account ctx'), c)"
    and "Some c = conn_of (case w_dbs w (db_path (cf_data_root cfg) (cx_active_account ctx')) of None \<Rightarrow> empty_db | Some db \<Rightarrow> db)"
    and "q_db (cx_queue ctx') = Some a" and "cx_sessions ctx' = koe_session_table_init"
proof -
  obtain rc1 reg where reg: "koe_account_registry_load (cf_data_root cfg) (w_fs w) = (rc1, reg)" by fastforce
  let ?c = "(zero_ctx cfg)\<lparr>cx_account_registry := reg\<rparr> :: 'v koe_ctx"
  obtain rc2 ctx2 w2 where fa: "first_account env cfg ?c w = (rc2, ctx2, w2)" by (cases "first_account env cfg ?c w") auto
  obtain conn w3 where db: "open_db env 0 (dg_backend (cf_db cfg)) (db_path (cf_data_root cfg) (cx_active_account ctx2)) w2 = (conn, w3)" by fastforce
  obtain a where a: "conn = Some a" and sc: "start_components env cfg a ctx2 w3 = Some (0, ctx', w')"
    using assms fa db by (auto simp: koe_init_def reg Let_def split: if_splits option.splits)
  note sc' = start_components_Some [OF sc]
  have "w_dbs w2 = w_dbs w" using first_account_frame(4) [OF fa] .
  with db a sc' show ?thesis
    by (intro that [of a]) (auto simp: open_db_def koe_db_open_def Let_def split: option.splits if_splits)
qed

section \<open>Delivery\<close>

text \<open>The message that is encrypted: signed, perhaps with a time to live.\<close>

lemma text_ready:
  assumes "new_text env ctx to body ctr = (msg0, ctr')" and "\<forall>j. ce_mal env 0 j" and "body \<noteq> []" and "length to = 32"
    and keys: "ac_keys (cx_active_account ctx) = k" "sign_ok sd (id_pk k) (id_sk k)" "length (id_pk k) = 32"
  obtains m where "msg0 = Some m"
    and "\<And>m'. m' = m \<or> m' = koe_message_set_destruct t m ttl \<Longrightarrow>
       wf_message (snd (koe_message_sign sd m' k)) \<and> body_bytes (snd (koe_message_sign sd m' k)) = body
       \<and> m_body_len (snd (koe_message_sign sd m' k)) = length body
       \<and> m_from (snd (koe_message_sign sd m' k)) = id_pk k \<and> m_to (snd (koe_message_sign sd m' k)) = to"
proof -
  obtain m where m: "msg0 = Some m" "wf_message m" "body_bytes m = body" "m_body_len m = length body" "m_from m = id_pk k" "m_to m = to"
    using assms by (auto simp: new_text_def koe_message_alloc_def generate_message_id_def Let_def wf_message_def body_bytes_def)
  have "wf_message (snd (koe_message_sign sd m' k)) \<and> body_bytes (snd (koe_message_sign sd m' k)) = body
       \<and> m_body_len (snd (koe_message_sign sd m' k)) = length body
       \<and> m_from (snd (koe_message_sign sd m' k)) = id_pk k \<and> m_to (snd (koe_message_sign sd m' k)) = to"
    if "wf_message m'" "body_bytes m' = body" "m_body_len m' = length body" "m_from m' = id_pk k" "m_to m' = to" for m'
    using that keys(2,3) by (auto simp: koe_message_sign_def koe_sign_def sign_ok_def wf_message_def body_bytes_def split: option.splits)
  moreover have "wf_message (koe_message_set_destruct t m ttl) \<and> body_bytes (koe_message_set_destruct t m ttl) = body
       \<and> m_body_len (koe_message_set_destruct t m ttl) = length body
       \<and> m_from (koe_message_set_destruct t m ttl) = id_pk k \<and> m_to (koe_message_set_destruct t m ttl) = to"
    using m by (auto simp: koe_message_set_destruct_def wf_message_def body_bytes_def split: option.splits)
  ultimately show ?thesis using that [OF m(1)] m by blast
qed

lemma text_sealed:
  assumes "aead_ok sd" and "mal 0" and "length nonce = 24" and m: "wf_message m" "body_bytes m = body" "m_body_len m = length body"
    and "length body + 16 \<le> KOE_MAX_PAYLOAD" and "koe_encrypt sd body nonce (tx_key s) \<noteq> None"
  obtains pkt where "koe_message_encrypt sd mal nonce m s = (0, pkt)" and "wire_packet pkt"
    and "h_to (header pkt) = m_to m" and "h_from (header pkt) = m_from m"
proof -
  obtain pkt where enc: "koe_message_encrypt sd mal nonce m s = (0, pkt)"
    using assms(2,8) m(2) by (auto simp: koe_message_encrypt_def Let_def)
  have "wire_packet pkt" using koe_message_encrypt_wire [OF assms(1) m(1) _ assms(3) enc] assms(7) m(3) by simp
  moreover have "h_to (header pkt) = m_to m" "h_from (header pkt) = m_from m" using koe_message_encrypt_ok [OF enc] by metis+
  ultimately show ?thesis using that enc by blast
qed

lemma recv_and_decrypt_ok:
  assumes "cx_initialised ctx \<noteq> 0" and "fst (koe_session_table_find (ce_now env 0) (h_from (header pkt)) (cx_sessions ctx)) = Some s"
    and "koe_message_decrypt (ce_sd env) (ce_mal env 0) (ce_now env 1) msg pkt s = Some (rc, msg')"
  shows "\<exists>ctx'. koe_message_recv_and_decrypt env ctx (Some pkt) (Some msg) = Some (rc, Some msg', ctx')"
  using assms by (auto simp: koe_message_recv_and_decrypt_def Let_def split: prod.split)

lemma drain_one:
  assumes "db_ok db" and "wire_packet p" and "queue_view db (h_to (header p)) = []" and "env_ok env" and "\<And>i j. mals i j"
  shows "\<exists>conn'. koe_queue_drain (\<lambda>_. env) mals (conn_of (queue_insert (queue_entry now p) db)) (h_to (header p)) (\<lambda>p s. (0, s @ [p])) []
      = Some (1, conn', [p])"
proof -
  obtain db2 where t: "queue_take1 (sq_pick env) (h_to (header p)) (queue_insert (queue_entry now p) db) = Some ((now, Some (wire_image p)), db2)"
    "queue_take1 (sq_pick env) (h_to (header p)) db2 = None"
    using queue_single [OF assms(1-3)] by blast
  have "koe_queue_pop env (mals 0) (conn_of (queue_insert (queue_entry now p) db)) (h_to (header p)) zero_packet = (0, conn_of db2, p)"
    using koe_queue_pop_image [where mal = "mals 0", OF assms(4,5,5) t(1) assms(2)] .
  moreover have "koe_queue_pop env (mals (Suc 0)) (conn_of db2) (h_to (header p)) out = (-1, conn_of db2, out)" for out
    using assms(4,5) t(2) by (simp add: koe_queue_pop_eq)
  ultimately show ?thesis by (simp add: koe_queue_drain_def drain_loop.simps)
qed

text \<open>What a text to a peer with a session and an empty queue leaves in the database.\<close>

lemma send_text_queues:
  assumes "aead_ok (ce_sd env)" and mal: "\<forall>i j. ce_mal env i j" and "\<forall>i j. env_ok (ce_sql env i j)" and "length (ce_rand env 0) = 24"
    and "core_ok ctx w" and "cx_db ctx = Some a" and heap: "w_heap w a = Some (path, c)" "Some c = conn_of db"
    and "queue_view db to = []" and "1 \<le> q_max_per_peer (cx_queue ctx)"
    and k: "ac_keys (cx_active_account ctx) = k" "sign_ok (ce_sd env) (id_pk k) (id_sk k)" "length (id_pk k) = 32" and to: "length to = 32"
    and "fst (koe_session_table_find (ce_now env 0) to (cx_sessions ctx)) = Some s"
    and bd: "txt \<noteq> []" "length txt + 16 \<le> KOE_MAX_PAYLOAD" and "koe_encrypt (ce_sd env) (str_bytes txt) (ce_rand env 0) (tx_key s) \<noteq> None"
  obtains m pkt ctx' w' c' i where "koe_send_text env ctx (Some to) (Some txt) ttl w = Some (i, ctx', w')"
    and "w_heap w' a = Some (path, c')" and "Some c' = conn_of (queue_insert (queue_entry (ce_now env 3) pkt) db)"
    and "koe_message_encrypt (ce_sd env) (ce_mal env 1) (ce_rand env 0) m s = (0, pkt)" and "wire_packet pkt"
    and "h_to (header pkt) = to" and "h_from (header pkt) = id_pk k"
    and "wf_message m" and "body_bytes m = str_bytes txt" and "m_body_len m = length txt" and "m_from m = id_pk k" and "m_to m = to"
proof -
  obtain tbl where find: "koe_session_table_find (ce_now env 0) to (cx_sessions ctx) = (Some s, tbl)"
    using assms(15) by (cases "koe_session_table_find (ce_now env 0) to (cx_sessions ctx)") auto
  let ?ctx = "ctx\<lparr>cx_sessions := tbl\<rparr>"
  obtain msg1 ctr where new: "new_text env ?ctx to (str_bytes txt) (w_msg_ctr w) = (msg1, ctr)" by fastforce
  have pre: "\<forall>j. ce_mal env 0 j" "str_bytes txt \<noteq> []" "ac_keys (cx_active_account ?ctx) = k"
    using mal k(1) bd(1) by (simp_all add: str_bytes_def)
  obtain m0 where m0: "msg1 = Some m0"
    and ready: "\<And>m'. m' = m0 \<or> m' = koe_message_set_destruct (ce_now env 2) m0 ttl \<Longrightarrow>
       wf_message (snd (koe_message_sign (ce_sd env) m' k)) \<and> body_bytes (snd (koe_message_sign (ce_sd env) m' k)) = str_bytes txt
       \<and> m_body_len (snd (koe_message_sign (ce_sd env) m' k)) = length (str_bytes txt)
       \<and> m_from (snd (koe_message_sign (ce_sd env) m' k)) = id_pk k \<and> m_to (snd (koe_message_sign (ce_sd env) m' k)) = to"
    using text_ready [OF new pre(1,2) to pre(3) k(2,3), of "ce_now env 2" ttl] by blast
  let ?m = "snd (koe_message_sign (ce_sd env) (if ttl > 0 then koe_message_set_destruct (ce_now env 2) m0 ttl else m0) k)"
  have r: "wf_message ?m" "body_bytes ?m = str_bytes txt" "m_body_len ?m = length txt" "m_from ?m = id_pk k" "m_to ?m = to"
    using ready [of "if ttl > 0 then koe_message_set_destruct (ce_now env 2) m0 ttl else m0"] by (simp_all split: if_splits)
  obtain pkt where enc: "koe_message_encrypt (ce_sd env) (ce_mal env 1) (ce_rand env 0) ?m s = (0, pkt)" and wire: "wire_packet pkt"
    and hdr: "h_to (header pkt) = to" "h_from (header pkt) = id_pk k"
    using text_sealed [of "ce_sd env" "ce_mal env 1" "ce_rand env 0" ?m "str_bytes txt" s, OF assms(1) _ assms(4) r(1,2)] mal bd(2) assms(18) r
    by auto
  have q: "q_db (cx_queue ctx) = Some a" "cx_initialised ctx \<noteq> 0" using assms(5,6) by (auto simp: core_ok_def)
  let ?db = "queue_insert (queue_entry (ce_now env 3) pkt) db"
  have "queue_rows db to = []" using assms(9) by (simp add: queue_view_def)
  then have "koe_queue_push (ce_sql env 0) (ce_mal env 2) (ce_now env 3) (cx_queue ctx) (conn_of db) pkt = (db_queue_seq db + 1, conn_of ?db)"
    using koe_queue_push_eq [of "ce_sql env 0" "ce_mal env 2"] mal assms(3,10) by (simp add: hdr(1) Let_def)
  then have "enqueue env ?ctx pkt (w\<lparr>w_msg_ctr := ctr\<rparr>)
      = Some (db_queue_seq db + 1, w\<lparr>w_msg_ctr := ctr, w_heap := (w_heap w)(a \<mapsto> (path, the (conn_of ?db)))\<rparr>)"
    using heap q(1) by (simp add: enqueue_def on_db_def)
  then have "koe_send_text env ctx (Some to) (Some txt) ttl w = Some (sint (m_id ?m), ?ctx,
      w\<lparr>w_msg_ctr := ctr, w_heap := (w_heap w)(a \<mapsto> (path, the (conn_of ?db)))\<rparr>)"
    using k(1) find new m0 enc q(2) by (simp add: koe_send_text_def Let_def)
  from that [OF this _ _ enc wire hdr r] show ?thesis by simp
qed

lemma send_encrypted_ok:
  assumes "aead_ok (ce_sd env)" and mal: "\<forall>i j. ce_mal env i j" and "length (ce_rand env 0) = 24" and "cx_initialised ctx \<noteq> 0"
    and k: "ac_keys (cx_active_account ctx) = k" "sign_ok (ce_sd env) (id_pk k) (id_sk k)" "length (id_pk k) = 32" and to: "length to = 32"
    and "fst (koe_session_table_find (ce_now env 0) to (cx_sessions ctx)) = Some s"
    and body: "body \<noteq> []" "length body + 16 \<le> KOE_MAX_PAYLOAD" and "koe_encrypt (ce_sd env) body (ce_rand env 0) (tx_key s) \<noteq> None"
  obtains m pkt ctx' w' where "koe_message_send_encrypted env ctx (Some to) (Some body) (length body) (Some out) w = (0, Some pkt, ctx', w')"
    and "koe_message_encrypt (ce_sd env) (ce_mal env 1) (ce_rand env 0) m s = (0, pkt)" and "wire_packet pkt" and "h_from (header pkt) = id_pk k"
    and "wf_message m" and "body_bytes m = body" and "m_body_len m = length body" and "m_from m = id_pk k"
proof -
  obtain tbl where find: "koe_session_table_find (ce_now env 0) to (cx_sessions ctx) = (Some s, tbl)"
    using assms(9) by (cases "koe_session_table_find (ce_now env 0) to (cx_sessions ctx)") auto
  let ?ctx = "ctx\<lparr>cx_sessions := tbl\<rparr>"
  obtain msg1 ctr where new: "new_text env ?ctx to body (w_msg_ctr w) = (msg1, ctr)" by fastforce
  have pre: "\<forall>j. ce_mal env 0 j" "ac_keys (cx_active_account ?ctx) = k" using mal k(1) by simp_all
  obtain m0 where m0: "msg1 = Some m0"
    and ready: "\<And>m'. m' = m0 \<or> m' = koe_message_set_destruct 0 m0 0 \<Longrightarrow>
       wf_message (snd (koe_message_sign (ce_sd env) m' k)) \<and> body_bytes (snd (koe_message_sign (ce_sd env) m' k)) = body
       \<and> m_body_len (snd (koe_message_sign (ce_sd env) m' k)) = length body
       \<and> m_from (snd (koe_message_sign (ce_sd env) m' k)) = id_pk k \<and> m_to (snd (koe_message_sign (ce_sd env) m' k)) = to"
    using text_ready [OF new pre(1) body(1) to pre(2) k(2,3), of 0 0] by blast
  let ?m = "snd (koe_message_sign (ce_sd env) m0 k)"
  have r: "wf_message ?m" "body_bytes ?m = body" "m_body_len ?m = length body" "m_from ?m = id_pk k" using ready [of m0] by simp_all
  obtain pkt where enc: "koe_message_encrypt (ce_sd env) (ce_mal env 1) (ce_rand env 0) ?m s = (0, pkt)" "wire_packet pkt" "h_from (header pkt) = id_pk k"
    by (rule text_sealed [where mal = "ce_mal env 1", OF assms(1) _ assms(3) r(1-3) body(2) assms(12)]) (use mal r(4) in \<open>simp_all\<close>)
  have "koe_message_send_encrypted env ctx (Some to) (Some body) (length body) (Some out) w = (0, Some pkt, ?ctx, w\<lparr>w_msg_ctr := ctr\<rparr>)"
    using assms(4) body(1) find new m0 enc(1) k(1) by (simp add: koe_message_send_encrypted_def Let_def)
  from that [OF this enc r] show ?thesis .
qed

section \<open>The handshake wrapper\<close>

text \<open>What anyone who sees a HELLO_ACK can compute with the all-zero secret and a public key.\<close>

definition eavesdropped :: "sodium \<Rightarrow> koe_packet \<Rightarrow> bytes \<Rightarrow> koe_session option" where
  "eavesdropped sd ack pk =
     (case payload ack of
        NULL \<Rightarrow> None
      | Some pay \<Rightarrow>
          map_option (\<lambda>z. \<lparr>tx_key = mem_read 0 32 (session_secret sd z pk (hello_id pay)),
                          rx_key = mem_read 32 32 (session_secret sd z pk (hello_id pay))\<rparr>)
            (so_scalarmult sd (replicate 32 0) (hello_eph pay)))"

definition peer_free :: "koe_session_table \<Rightarrow> bytes \<Rightarrow> bool" where
  "peer_free t pk \<longleftrightarrow> session_inv t \<and> session_used t < KOE_MAX_SESSIONS \<and> session_contents t pk = None"

text \<open>Finalising with an erased ephemeral secret stores the session that can be eavesdropped.\<close>

lemma finish_handshake_public:
  assumes "payload ack = Some pay" and "h_length (header ack) = 130" and "hello_version pay = koe_version_local"
    and "koe_verify (ce_sd env) (hello_sig pay) (take 66 pay) (hello_id pay) = 0"
    and "eph_sk (hs_local_eph hs) = replicate 32 0" and "so_scalarmult (ce_sd env) (replicate 32 0) (hello_eph pay) \<noteq> None"
    and "peer_free (cx_sessions ctx) from"
  shows "\<exists>ctx' s. finish_handshake env hs ack from ctx = (1, ctx') \<and>
    eavesdropped (ce_sd env) ack (id_pk (ac_keys (cx_active_account ctx))) = Some s \<and>
    session_contents (cx_sessions ctx') from = Some s"
proof -
  obtain z where z: "so_scalarmult (ce_sd env) (replicate 32 0) (hello_eph pay) = Some z" using assms(6) by blast
  let ?k = "session_secret (ce_sd env) z (id_pk (ac_keys (cx_active_account ctx))) (hello_id pay)"
  let ?s = "\<lparr>tx_key = mem_read 0 32 ?k, rx_key = mem_read 32 32 ?k\<rparr>"
  obtain hs' where fin: "koe_handshake_finalise (ce_sd env) hs ack (ac_keys (cx_active_account ctx)) = (0, hs')" "hs_session hs' = ?s"
    using koe_handshake_finalise_ok [OF assms(1-4), of hs z "ac_keys (cx_active_account ctx)"] z assms(5) by simp
  have "session_contents (snd (koe_session_table_add (ce_now env 0) (ce_now env 1) from ?s (cx_sessions ctx))) from = Some ?s"
    using assms(7) session_add_spec [of "cx_sessions ctx" "from" "ce_now env 0" "ce_now env 1" ?s] by (simp add: peer_free_def)
  then show ?thesis using fin z assms(1) by (simp add: finish_handshake_def eavesdropped_def)
qed

section \<open>Properties\<close>

text \<open>C5. A context that was started, used and stopped in any order of calls, without a change of
  account, stays consistent: its database connection is the only open one and is live, the queue
  uses it, the databases, the session table and the contact book keep their invariants. No such
  context ever makes a send or the adding of a contact reach a freed connection.\<close>

theorem core_invariant:
  assumes "w_heap w0 = Map.empty" and "\<forall>path db. w_dbs w0 path = Some db \<longrightarrow> db_ok db"
    and "rtranclp core_step (zero_ctx cfg, w0) (ctx, w)"
  shows "core_ok ctx w \<and> (\<forall>env to txt ttl. koe_send_text env ctx to txt ttl w \<noteq> None)
    \<and> (\<forall>env data hashed to path tid. koe_send_file env data hashed ctx to path tid w \<noteq> None)
    \<and> (\<forall>env sid name. koe_add_contact env ctx sid name w \<noteq> None)"
proof -
  have "heap_ok w0" using assms(1,2) by (simp add: heap_ok_def)
  then have ok: "core_ok ctx w" using rtranclp_core_ok [OF assms(3)] assms(1) by (simp add: core_ok_zero)
  show ?thesis
    using ok send_text_ok [OF ok] send_file_ok [OF ok] add_contact_ok [OF ok] by (metis option.distinct(1))
qed

text \<open>C21. After a change of account, successful or not, the queue still points at the connection
  that was closed: every attempt to queue a packet is undefined behaviour, and no text reaches a
  database any more. The sessions of the old account are kept.\<close>

theorem switch_account_dangles:
  assumes "core_ok ctx w" and "cx_db ctx = Some a" and "koe_switch_account env ctx idx passphrase w = Some (rc, ctx', w')"
  shows "q_db (cx_queue ctx') = Some a \<and> w_heap w' a = None \<and> cx_sessions ctx' = cx_sessions ctx
    \<and> (\<forall>env' pkt. enqueue env' ctx' pkt w' = None)
    \<and> (\<forall>env' to txt ttl i ctx2 w2. koe_send_text env' ctx' to txt ttl w' = Some (i, ctx2, w2) \<longrightarrow> w_heap w2 = w_heap w')"
proof -
  obtain r w1 where s: "save_contacts env ctx w = Some (r, w1)" "core_ok ctx w1" using save_contacts_ok [OF assms(1)] .
  obtain w2 where c: "koe_db_close (cx_db ctx) w1 = Some w2" "heap_ok w2" "w_heap w2 = Map.empty" using db_close_ok [OF s(2)] .
  have "a \<in> dom (w_heap w1)" using s(2) assms(2) by (simp add: core_ok_def)
  then have "w_heap w1 a \<noteq> None" by (simp add: domIff)
  moreover have "\<forall>b\<ge>w_next w1. w_heap w1 b = None" using s(2) by (simp add: core_ok_def heap_ok_def)
  ultimately have "a < w_next w1" by (meson not_less)
  moreover have "cx_initialised ctx \<noteq> 0" "q_db (cx_queue ctx) = Some a" using assms(1,2) by (auto simp: core_ok_def)
  moreover have "w_next w2 = w_next w1" using c(1) by (auto simp: koe_db_close_def split: option.splits)
  ultimately have q: "q_db (cx_queue ctx') = Some a" "w_heap w' a = None" "cx_sessions ctx' = cx_sessions ctx"
    using assms(3) s c by (auto simp: koe_switch_account_def open_db_def Let_def split: prod.splits if_splits option.splits)
  then have enq: "enqueue env' (ctx'\<lparr>cx_sessions := t\<rparr>) pkt (w'\<lparr>w_msg_ctr := n\<rparr>) = None" "enqueue env' ctx' pkt w' = None" for env' pkt t n
    by (simp_all add: enqueue_def on_db_def)
  then have "koe_send_text env' ctx' to str ttl w' = Some (i, ctx2, w2) \<Longrightarrow> w_heap w2 = w_heap w'" for env' to str ttl i ctx2 w2
    by (auto simp: koe_send_text_def Let_def split: if_splits option.splits prod.splits)
  with q enq(2) show ?thesis by blast
qed

text \<open>C16. Queued packets and stored messages survive a restart: after a shutdown and a new start with
  the same account, the queue for every peer is exactly what it was, the secret keys of the old
  context are erased, and the new session table is empty. The old context still holds its session
  keys.\<close>

theorem restart_keeps_queue:
  assumes "cx_initialised ctx \<noteq> 0" and "cx_db ctx = Some a" and "w_heap w a = Some (path, c)" and "Some c = conn_of db"
    and "koe_shutdown env1 ctx w = Some (ctx1, w1)" and "koe_init env2 cfg w1 = Some (0, ctx2, w2)"
    and "db_path (cf_data_root cfg) (cx_active_account ctx2) = path"
  shows "\<exists>a2 c2 db2. cx_db ctx2 = Some a2 \<and> q_db (cx_queue ctx2) = Some a2 \<and> w_heap w2 a2 = Some (path, c2) \<and> Some c2 = conn_of db2
      \<and> (\<forall>pk. queue_view db2 pk = queue_view db pk) \<and> db_messages db2 = db_messages db
      \<and> cx_sessions ctx2 = koe_session_table_init
      \<and> ac_keys (cx_active_account ctx1) = \<lparr>id_pk = replicate 32 0, id_sk = replicate 64 0\<rparr> \<and> cx_sessions ctx1 = cx_sessions ctx"
proof -
  note p = shutdown_persists [OF assms(1-5)]
  obtain db1 where db1: "w_dbs w1 path = Some db1" "db_queue db1 = db_queue db" "db_messages db1 = db_messages db" using p(1) by blast
  obtain a2 c2 where "cx_db ctx2 = Some a2" "w_heap w2 a2 = Some (path, c2)" "Some c2 = conn_of db1" "q_db (cx_queue ctx2) = Some a2"
    "cx_sessions ctx2 = koe_session_table_init"
    using init_opens [OF assms(6)] assms(7) db1(1) by auto
  then show ?thesis using db1(2,3) p(2,3) by (auto simp: queue_view_def queue_rows_def)
qed

text \<open>C8. A text sent to a peer with a session arrives: the call queues exactly one packet, draining
  the queue hands that packet to the transport, and at the other end, whose session receives with
  the key the sender transmits with, it decrypts to the text, marked delivered, from the sender's
  key.\<close>

theorem text_delivered:
  assumes "aead_ok (ce_sd ea)" and "ce_sd eb = ce_sd ea" and "\<forall>i j. ce_mal ea i j" and "ce_mal eb 0 0"
    and "\<forall>i j. env_ok (ce_sql ea i j)" and "env_ok env" and "\<forall>i j. mals i j" and "length (ce_rand ea 0) = 24"
    and "core_ok ctx w" and "cx_db ctx = Some a" and "w_heap w a = Some (path, c)" and "Some c = conn_of db"
    and "queue_view db to = []" and "1 \<le> q_max_per_peer (cx_queue ctx)"
    and "ac_keys (cx_active_account ctx) = k" and "sign_ok (ce_sd ea) (id_pk k) (id_sk k)" and "length (id_pk k) = 32" and "length to = 32"
    and "fst (koe_session_table_find (ce_now ea 0) to (cx_sessions ctx)) = Some sa"
    and "cx_initialised ctx_b \<noteq> 0" and "fst (koe_session_table_find (ce_now eb 0) (id_pk k) (cx_sessions ctx_b)) = Some sb"
    and "tx_key sa = rx_key sb" and "txt \<noteq> []" and "length txt + 16 \<le> KOE_MAX_PAYLOAD"
    and "koe_encrypt (ce_sd ea) (str_bytes txt) (ce_rand ea 0) (tx_key sa) \<noteq> None"
  shows "\<exists>i ctx' w' c' pkt conn' msg' ctx_b'. koe_send_text ea ctx (Some to) (Some txt) ttl w = Some (i, ctx', w') \<and>
    w_heap w' a = Some (path, c') \<and>
    koe_queue_drain (\<lambda>_. env) mals (Some c') to (\<lambda>p s. (0, s @ [p])) [] = Some (1, conn', [pkt]) \<and>
    koe_message_recv_and_decrypt eb ctx_b (Some pkt) (Some msg0) = Some (0, Some msg', ctx_b') \<and>
    body_bytes msg' = str_bytes txt \<and> m_from msg' = id_pk k \<and> m_to msg' = to \<and> m_status msg' = KOE_STATUS_DELIVERED"
proof -
  obtain m pkt ctx' w' c' i where sent: "koe_send_text ea ctx (Some to) (Some txt) ttl w = Some (i, ctx', w')" "w_heap w' a = Some (path, c')"
      "Some c' = conn_of (queue_insert (queue_entry (ce_now ea 3) pkt) db)"
    and enc: "koe_message_encrypt (ce_sd ea) (ce_mal ea 1) (ce_rand ea 0) m sa = (0, pkt)"
    and pkt: "wire_packet pkt" "h_to (header pkt) = to" "h_from (header pkt) = id_pk k"
    and m: "wf_message m" "body_bytes m = str_bytes txt" "m_body_len m = length txt" "m_from m = id_pk k" "m_to m = to"
    by (rule send_text_queues [OF assms(1,3,5,8-19,23-25)])
  have db: "db_ok db" using assms(9,11,12) by (auto simp: core_ok_def heap_ok_def conn_live_def)
  obtain conn' where drain: "koe_queue_drain (\<lambda>_. env) mals (Some c') to (\<lambda>p s. (0, s @ [p])) [] = Some (1, conn', [pkt])"
    using drain_one [OF db pkt(1) _ assms(6), of mals "ce_now ea 3"] assms(7,13) pkt(2) sent(3) by auto
  note dec = koe_message_decrypt_encrypt [where mal' = "ce_mal eb 0", OF assms(1) m(1) _ enc assms(22,4), of "ce_now eb 1" msg0]
  obtain msg' ctx_b' where "koe_message_recv_and_decrypt eb ctx_b (Some pkt) (Some msg0) = Some (0, Some msg', ctx_b')"
    "body_bytes msg' = str_bytes txt" "m_from msg' = id_pk k" "m_to msg' = to" "m_status msg' = KOE_STATUS_DELIVERED"
    using recv_and_decrypt_ok [OF assms(20), of eb pkt sb msg0 0] assms(2,21,24) dec m pkt(3) by (auto simp: body_bytes_def)
  with sent drain show ?thesis by auto
qed

text \<open>C15. The session keys that the handshake wrapper stores are no secret: after a complete exchange
  between two honest peers through \<open>koe_handshake_start\<close> and \<open>koe_handshake_process\<close>, the session each
  side keeps for the other is the one an eavesdropper computes from the HELLO_ACK and a public
  key. (The wrapper finalises with an erased ephemeral secret: the responder on its own answer, the
  initiator on a fresh handshake state.)\<close>

theorem handshake_wrapper_keys_public:
  assumes "side_ok sd alice (ce_rand e1 0) eph_a" and "side_ok sd bob (ce_rand e2 0) eph_b"
    and "ce_sd e1 = sd" and "ce_sd e2 = sd" and "ce_sd e3 = sd" and "ce_mal e1 0 0" and "ce_mal e2 0 0"
    and "dh_ok sd (eph_sk eph_a, eph_pk eph_a) (eph_sk eph_b, eph_pk eph_b)"
    and "so_scalarmult sd (eph_sk eph_a) (eph_pk eph_b) \<noteq> None" and "so_scalarmult sd (replicate 32 0) (eph_pk eph_b) \<noteq> None"
    and "cx_initialised ctx_a \<noteq> 0" and "ac_keys (cx_active_account ctx_a) = alice" and "peer_free (cx_sessions ctx_a) (id_pk bob)"
    and "cx_initialised ctx_b \<noteq> 0" and "ac_keys (cx_active_account ctx_b) = bob" and "peer_free (cx_sessions ctx_b) (id_pk alice)"
  shows "\<exists>hello ack ctx_a' ctx_b' sa sb.
    koe_handshake_start e1 ctx_a (Some (id_pk bob)) (Some out) = (0, Some hello) \<and>
    koe_handshake_process e2 (Some hello) (Some out) 0 ctx_b = (0, Some ack, 1, ctx_b') \<and>
    koe_handshake_process e3 (Some ack) (Some out) 0 ctx_a = (0, Some out, 1, ctx_a') \<and>
    session_contents (cx_sessions ctx_a') (id_pk bob) = Some sa \<and> eavesdropped sd ack (id_pk alice) = Some sa \<and>
    session_contents (cx_sessions ctx_b') (id_pk alice) = Some sb \<and> eavesdropped sd ack (id_pk bob) = Some sb"
proof -
  let ?body = "\<lambda>eph ident. hello_body koe_version_local (eph_pk eph) (id_pk ident)"
  have mal: "ce_mal e1 0 0" "ce_mal e2 0 0" using assms(6,7) .
  obtain ha where ha: "length ha = 64" "koe_verify sd ha (?body eph_a alice) (id_pk alice) = 0"
    and init: "koe_handshake_init sd (ce_mal e1 0) (ce_rand e1 0) out alice (id_pk bob) =
      (0, zero_handshake\<lparr>hs_remote_pk := id_pk bob, hs_local_eph := eph_a, hs_state := KOE_HS_SENT_HELLO\<rparr>,
       hello_packet KOE_TYPE_HELLO (id_pk alice) (id_pk bob) (?body eph_a alice @ ha))"
    using koe_handshake_init_ok [where mal = "ce_mal e1 0", OF assms(1) mal(1)] .
  let ?hello = "hello_packet KOE_TYPE_HELLO (id_pk alice) (id_pk bob) (?body eph_a alice @ ha)"
  have len: "length (eph_pk eph_a) = 32" "length (id_pk alice) = 32" "length (eph_pk eph_b) = 32" "length (id_pk bob) = 32"
    using assms(1,2) by (simp_all add: side_ok_def wf_identity_def)
  note fa = hello_body_fields [OF len(1,2) ha(1), of koe_version_local]
  obtain d where d: "so_scalarmult sd (eph_sk eph_b) (eph_pk eph_a) = Some d" using assms(8,9) by (auto simp: dh_ok_def)
  let ?hs = "\<lparr>hs_state = KOE_HS_COMPLETE, hs_local_eph = eph_b\<lparr>eph_sk := replicate 32 0\<rparr>, hs_remote_pk = id_pk alice,
      hs_session = \<lparr>tx_key = mem_read 32 32 (session_secret sd d (id_pk alice) (id_pk bob)),
                    rx_key = mem_read 0 32 (session_secret sd d (id_pk alice) (id_pk bob))\<rparr>, hs_negotiated_version = koe_version_local\<rparr>"
  obtain hb where hb: "length hb = 64" "koe_verify sd hb (?body eph_b bob) (id_pk bob) = 0"
    and resp: "koe_handshake_respond sd (ce_mal e2 0) (ce_rand e2 0) out ?hello bob =
      (0, ?hs, hello_packet KOE_TYPE_HELLO_ACK (id_pk bob) (id_pk alice) (?body eph_b bob @ hb))"
    using koe_handshake_respond_ok [where mal = "ce_mal e2 0", OF assms(2) mal(2), of ?hello "?body eph_a alice @ ha" d out] ha d
    by (auto simp: fa simp del: take_append)
  let ?ack = "hello_packet KOE_TYPE_HELLO_ACK (id_pk bob) (id_pk alice) (?body eph_b bob @ hb)"
  note fb = hello_body_fields [OF len(3,4) hb(1), of koe_version_local]
  obtain ctx_b' sb where b: "finish_handshake e2 ?hs ?ack (id_pk alice) ctx_b = (1, ctx_b')" "eavesdropped sd ?ack (id_pk bob) = Some sb"
    "session_contents (cx_sessions ctx_b') (id_pk alice) = Some sb"
    using finish_handshake_public [of ?ack "?body eph_b bob @ hb" e2 ?hs ctx_b "id_pk alice"] hb assms(4,10,15,16)
    by (auto simp: fb simp del: take_append)
  obtain ctx_a' sa where a: "finish_handshake e3 zero_handshake ?ack (id_pk bob) ctx_a = (1, ctx_a')" "eavesdropped sd ?ack (id_pk alice) = Some sa"
    "session_contents (cx_sessions ctx_a') (id_pk bob) = Some sa"
    using finish_handshake_public [of ?ack "?body eph_b bob @ hb" e3 zero_handshake ctx_a "id_pk bob"] hb assms(5,10,12,13)
    by (auto simp: fb zero_handshake_def simp del: take_append)
  have "koe_handshake_start e1 ctx_a (Some (id_pk bob)) (Some out) = (0, Some ?hello)"
    using init assms(3,11,12) by (simp add: koe_handshake_start_def)
  moreover have "koe_handshake_process e2 (Some ?hello) (Some out) 0 ctx_b = (0, Some ?ack, 1, ctx_b')"
    using resp b(1) assms(4,14,15) by (simp add: koe_handshake_process_def)
  moreover have "koe_handshake_process e3 (Some ?ack) (Some out) 0 ctx_a = (0, Some out, 1, ctx_a')"
    using a(1) assms(11) by (simp add: koe_handshake_process_def)
  ultimately show ?thesis using a b by blast
qed

section \<open>Witnesses\<close>

text \<open>An environment in which everything succeeds, and two contexts in it.\<close>

definition demo_api :: "(nat \<Rightarrow> bytes) \<Rightarrow> call_env" where
  "demo_api rand = \<lparr>ce_sd = demo_sodium, ce_mal = (\<lambda>_ _. True), ce_sql = (\<lambda>_ _. good_env), ce_now = (\<lambda>_. 100), ce_tv_sec = 5,
     ce_tv_nsec = 0, ce_rand = rand, ce_io = (\<lambda>_ d. Some d), ce_sqlite_open = (\<lambda>_. True), ce_schema_ok = (\<lambda>_. True),
     ce_udp = 3, ce_tcp = (4, True), ce_ws = (5, True), ce_curl = (\<lambda>_. None), ce_b64 = (\<lambda>_. [])\<rparr>"

definition demo_world :: "(nat \<Rightarrow> (string \<times> koe_db_conn) option) \<Rightarrow> world" where
  "demo_world heap = \<lparr>w_fs = Map.empty, w_dbs = Map.empty, w_heap = heap, w_next = 1, w_fds = {}, w_loop = loop_start, w_msg_ctr = 0,
     w_plugin_registry = False, w_peers = replicate KOE_MAX_SESSIONS zero_peer, w_peer_count = 0\<rparr>"

definition demo_config :: koe_config where
  "demo_config = \<lparr>cf_data_root = ''/data'', cf_passphrase = ''secret'', cf_relay_host = NULL, cf_relay_port = 0, cf_ws_port = -1,
     cf_matrix_homeserver = NULL, cf_discovery_timeout_ms = 0, cf_bluetooth_enabled = 0, cf_queue_max_per_peer = 0,
     cf_db = \<lparr>dg_backend = KOE_DB_SQLITE, dg_sqlite_path = NULL, dg_host = NULL, dg_port = 0, dg_database = NULL, dg_user = NULL,
       dg_password = NULL, dg_use_tls = 0, dg_pool_size = 0\<rparr>,
     cf_cache = \<lparr>cg_backend = KOE_CACHE_NONE, cg_host = NULL, cg_port = 0, cg_password = NULL, cg_db_index = 0, cg_enabled = 0\<rparr>, cf_plugins_dir = NULL\<rparr>"

definition demo_rand :: "nat \<Rightarrow> bytes" where
  "demo_rand i = (if i = 0 then replicate 64 5 else if i = 1 then replicate 16 1 else replicate 24 2)"

definition demo_node :: "byte \<Rightarrow> unit koe_ctx" where
  "demo_node x = (zero_ctx demo_config)\<lparr>cx_active_account := blank_account\<lparr>ac_keys := \<lparr>id_pk = replicate 32 x, id_sk = replicate 64 x\<rparr>\<rparr>,
     cx_db := Some 0, cx_queue := \<lparr>q_db = Some 0, q_max_per_peer = 500, q_count = 0\<rparr>, cx_initialised := 1\<rparr>"

lemma demo_api_sel [simp]:
  "ce_sd (demo_api r) = demo_sodium" "ce_mal (demo_api r) i j" "ce_sql (demo_api r) i j = good_env" "ce_now (demo_api r) i = 100"
  "ce_rand (demo_api r) = r"
  by (simp_all add: demo_api_def)

lemma demo_node_ok:
  assumes "Some c = conn_of db" and "db_ok db"
  shows "core_ok (demo_node x) (demo_world [0 \<mapsto> (path, c)])"
  using assms by (auto simp: core_ok_def heap_ok_def demo_node_def demo_world_def zero_ctx_def table_ok_init book_ok_def conn_live_def split: if_splits)

lemma demo_config_sel [simp]:
  "cf_data_root demo_config = ''/data''" "cf_passphrase demo_config = ''secret''" "cf_matrix_homeserver demo_config = NULL"
  "dg_backend (cf_db demo_config) = KOE_DB_SQLITE"
  by (simp_all add: demo_config_def)

lemma start_components_no_matrix:
  assumes "cf_matrix_homeserver cfg = NULL"
  shows "\<exists>ctx' w'. start_components env cfg a ctx w = Some (0, ctx', w')"
  using assms by (simp add: start_components_def start_matrix_def Let_def split: prod.split option.split)

lemma demo_init:
  assumes "w_fs w = Map.empty"
  shows "\<exists>ctx w'. koe_init (demo_api demo_rand) demo_config w = Some (0, ctx :: unit koe_ctx, w') \<and> cx_initialised ctx = 1
    \<and> ad_data_subdir (ac_desc (cx_active_account ctx)) = strncpy_str 255 (koe_identity_short_id (replicate 32 5))"
proof -
  have load: "koe_account_registry_load ''/data'' Map.empty = (0, empty_registry)"
    by (simp add: koe_account_registry_load_def empty_registry_def Let_def strncpy_str_fits)
  obtain acc reg fs where acc: "koe_account_create demo_sodium (\<lambda>_ d. Some d) (replicate 64 5) (replicate 16 1) (replicate 24 2) 100 100
     blank_account empty_registry ''me'' ''secret'' Map.empty = (0, acc, reg, fs)"
      "ad_data_subdir (ac_desc acc) = strncpy_str 255 (koe_identity_short_id (replicate 32 5))"
    by (simp add: koe_account_create_def koe_identity_generate_def koe_identity_save_def koe_encrypt_def demo_sodium_def
      Let_def empty_registry_def blank_account_def)
  let ?ctx = "(zero_ctx demo_config)\<lparr>cx_account_registry := reg, cx_active_account := acc\<rparr> :: unit koe_ctx"
  have "ar_count empty_registry = 0" by (simp add: empty_registry_def)
  moreover have "cx_active_account (zero_ctx demo_config :: unit koe_ctx) = blank_account" by (simp add: zero_ctx_def blank_account_def)
  moreover have "ce_io (demo_api demo_rand) = (\<lambda>_ d. Some d)" by (simp add: demo_api_def)
  ultimately have first: "first_account (demo_api demo_rand) demo_config ((zero_ctx demo_config)\<lparr>cx_account_registry := empty_registry\<rparr>) w
      = (0, ?ctx, w\<lparr>w_fs := fs\<rparr>)"
    using acc(1) assms by (simp add: first_account_def demo_rand_def)
  obtain a w3 where db: "open_db (demo_api demo_rand) 0 KOE_DB_SQLITE (db_path ''/data'' acc) (w\<lparr>w_fs := fs\<rparr>) = (Some a, w3)"
    by (simp add: open_db_def koe_db_open_def demo_api_def)
  obtain ctx' w' where sc: "start_components (demo_api demo_rand) demo_config a ?ctx w3 = Some (0, ctx', w')"
    using start_components_no_matrix [of demo_config "demo_api demo_rand" a ?ctx w3] by auto
  have "koe_crypto_init demo_sodium = 0" by (simp add: koe_crypto_init_def demo_sodium_def)
  then have "koe_init (demo_api demo_rand) demo_config w = Some (0, ctx', w')"
    using load first db sc assms by (simp add: koe_init_def Let_def)
  then show ?thesis using start_components_Some [OF sc] acc(2) by auto
qed

theorem core_invariant_witness:
  "\<exists>ctx w. rtranclp core_step (zero_ctx demo_config :: unit koe_ctx, demo_world Map.empty) (ctx, w) \<and> cx_initialised ctx = 1 \<and> core_ok ctx w
    \<and> koe_send_text (demo_api demo_rand) ctx (Some (replicate 32 7)) (Some ''hi'') 0 w \<noteq> None"
proof -
  have "w_fs (demo_world Map.empty) = Map.empty" by (simp add: demo_world_def)
  then obtain ctx w where init: "koe_init (demo_api demo_rand) demo_config (demo_world Map.empty) = Some (0, ctx :: unit koe_ctx, w)" "cx_initialised ctx = 1"
    using demo_init by blast
  have "cx_initialised (zero_ctx demo_config) = 0" by (simp add: zero_ctx_def)
  then have run: "rtranclp core_step (zero_ctx demo_config, demo_world Map.empty) (ctx, w)"
    using step_init [OF _ init(1)] by blast
  have "w_heap (demo_world Map.empty) = Map.empty" "\<forall>path db. w_dbs (demo_world Map.empty) path = Some db \<longrightarrow> db_ok db"
    by (simp_all add: demo_world_def)
  from core_invariant [OF this run] run init(2) show ?thesis by blast
qed

theorem switch_account_dangles_witness:
  "\<exists>rc ctx' w'. koe_switch_account (demo_api demo_rand) (demo_node 1) 3 ''pw'' (demo_world [0 \<mapsto> (''db'', the (conn_of empty_db))]) = Some (rc, ctx', w')
    \<and> q_db (cx_queue ctx') = Some 0 \<and> w_heap w' 0 = None \<and> enqueue (demo_api demo_rand) ctx' ping w' = None"
proof -
  let ?w = "demo_world [0 \<mapsto> (''db'', the (conn_of empty_db))]"
  obtain rc ctx' w' where sw: "koe_switch_account (demo_api demo_rand) (demo_node 1) 3 ''pw'' ?w = Some (rc, ctx', w')"
    by (simp add: koe_switch_account_def save_contacts_def on_db_def koe_db_close_def koe_account_activate_def koe_contact_book_save_def
        demo_node_def demo_world_def zero_ctx_def Let_def)
  have "core_ok (demo_node 1) ?w" by (rule demo_node_ok [OF _ db_ok_empty]) simp
  moreover have "cx_db (demo_node 1) = Some 0" by (simp add: demo_node_def)
  ultimately show ?thesis using switch_account_dangles [OF _ _ sw] sw by blast
qed

theorem restart_keeps_queue_witness:
  "\<exists>ctx1 w1 ctx2 w2 path a2 c2 db2. koe_shutdown (demo_api demo_rand) (demo_node 1)
      (demo_world [0 \<mapsto> (path, the (conn_of (queue_insert (queue_entry 100 ping) empty_db)))]) = Some (ctx1, w1)
    \<and> koe_init (demo_api demo_rand) demo_config w1 = Some (0, ctx2 :: unit koe_ctx, w2) \<and> w_heap w2 a2 = Some (path, c2) \<and> Some c2 = conn_of db2
    \<and> queue_view db2 (replicate 32 0) = [(100, Some (wire_image ping))]"
proof -
  let ?path = "snprintf_str 512 (''/data/accounts/'' @ strncpy_str 255 (koe_identity_short_id (replicate 32 5)) @ ''/history.db'')"
  let ?db = "queue_insert (queue_entry 100 ping) empty_db"
  let ?w = "demo_world [0 \<mapsto> (?path, the (conn_of ?db))]"
  have node: "cx_initialised (demo_node 1) \<noteq> 0" "cx_db (demo_node 1) = Some 0" "w_heap ?w 0 = Some (?path, the (conn_of ?db))"
    by (simp_all add: demo_node_def demo_world_def)
  obtain ctx1 w1 where down: "koe_shutdown (demo_api demo_rand) (demo_node 1) ?w = Some (ctx1, w1)" "w_fs w1 = Map.empty"
    by (simp add: koe_shutdown_def save_contacts_def on_db_def koe_db_close_def koe_contact_book_save_def stop_matrix_def
        koe_transport_shutdown_def demo_node_def demo_world_def zero_ctx_def Let_def)
  obtain ctx2 w2 where up: "koe_init (demo_api demo_rand) demo_config w1 = Some (0, ctx2 :: unit koe_ctx, w2)"
    "ad_data_subdir (ac_desc (cx_active_account ctx2)) = strncpy_str 255 (koe_identity_short_id (replicate 32 5))"
    using demo_init [OF down(2)] by blast
  have view: "queue_view ?db (replicate 32 0) = [(100, Some (wire_image ping))]" by (simp add: queue_view_insert)
  have "db_path (cf_data_root demo_config) (cx_active_account ctx2) = ?path" by (simp add: db_path_def up(2))
  from restart_keeps_queue [OF node _ down(1) up(1) this, of ?db] down(1) up(1) view show ?thesis by fastforce
qed

lemma demo_session:
  "fst (koe_session_table_find now pk (snd (koe_session_table_add t1 t2 pk s koe_session_table_init))) = Some s"
  using session_find_spec [of "snd (koe_session_table_add t1 t2 pk s koe_session_table_init)"]
    session_add_spec [OF session_inv_init, of pk t1 t2 s] by (simp add: session_init_empty)

definition demo_peer :: "byte \<Rightarrow> byte \<Rightarrow> koe_session \<Rightarrow> unit koe_ctx" where
  "demo_peer x y s = (demo_node x)\<lparr>cx_sessions := snd (koe_session_table_add 0 0 (replicate 32 y) s koe_session_table_init)\<rparr>"

lemma demo_node_sel [simp]:
  "cx_db (demo_node x) = Some 0" "cx_initialised (demo_node x) = 1" "q_max_per_peer (cx_queue (demo_node x)) = 500"
  "ac_keys (cx_active_account (demo_node x)) = \<lparr>id_pk = replicate 32 x, id_sk = replicate 64 x\<rparr>"
  "cx_sessions (demo_node x) = koe_session_table_init"
  by (simp_all add: demo_node_def zero_ctx_def)

theorem text_delivered_witness:
  "\<exists>i ctx' w' c' pkt conn' msg' ctx_b'.
    koe_send_text (demo_api (\<lambda>_. replicate 24 3)) (demo_peer 1 2 \<lparr>tx_key = replicate 32 8, rx_key = replicate 32 9\<rparr>)
      (Some (replicate 32 2)) (Some ''hi'') 60 (demo_world [0 \<mapsto> (''db'', the (conn_of empty_db))]) = Some (i, ctx', w') \<and>
    w_heap w' 0 = Some (''db'', c') \<and>
    koe_queue_drain (\<lambda>_. good_env) (\<lambda>_ _. True) (Some c') (replicate 32 2) (\<lambda>p s. (0, s @ [p])) [] = Some (1, conn', [pkt]) \<and>
    koe_message_recv_and_decrypt (demo_api (\<lambda>_. [])) (demo_peer 2 1 \<lparr>tx_key = replicate 32 9, rx_key = replicate 32 8\<rparr>) (Some pkt)
      (Some (sample_message [])) = Some (0, Some msg', ctx_b') \<and> body_bytes msg' = str_bytes ''hi''"
proof -
  let ?sa = "\<lparr>tx_key = replicate 32 8, rx_key = replicate 32 9\<rparr>" and ?sb = "\<lparr>tx_key = replicate 32 9, rx_key = replicate 32 8\<rparr>"
  let ?c = "the (conn_of empty_db)" and ?k = "\<lparr>id_pk = replicate 32 1, id_sk = replicate 64 1\<rparr>"
  let ?ea = "demo_api (\<lambda>_. replicate 24 3)" and ?eb = "demo_api (\<lambda>_. [])"
  let ?a = "demo_peer 1 2 ?sa" and ?b = "demo_peer 2 1 ?sb" and ?w = "demo_world [0 \<mapsto> (''db'', ?c)]"
  have "core_ok (demo_node 1) ?w" by (rule demo_node_ok [OF _ db_ok_empty]) simp
  then have ok: "core_ok ?a ?w" unfolding demo_peer_def by (rule core_ok_sessions) (simp add: table_ok_add table_ok_init)
  have heap: "w_heap ?w 0 = Some (''db'', ?c)" "Some ?c = conn_of empty_db" by (simp_all add: demo_world_def)
  have sign: "sign_ok demo_sodium (id_pk ?k) (id_sk ?k)" using demo_sign_ok [of "replicate 32 1" "replicate 64 1"] by simp
  have enc: "koe_encrypt demo_sodium m n key \<noteq> None" for m n key by (simp add: koe_encrypt_def demo_sodium_def)
  have find: "fst (koe_session_table_find (ce_now ?ea 0) (replicate 32 2) (cx_sessions ?a)) = Some ?sa"
    "fst (koe_session_table_find (ce_now ?eb 0) (id_pk ?k) (cx_sessions ?b)) = Some ?sb"
    by (simp_all add: demo_peer_def demo_session)
  show ?thesis
    using text_delivered [of ?ea ?eb good_env "\<lambda>_ _. True" ?a ?w 0 "''db''" ?c empty_db "replicate 32 2" ?k ?sa ?b ?sb "''hi''" 60 "sample_message []",
        OF _ _ _ _ _ _ _ _ ok _ heap _ _ _ _ _ _ find(1) _ find(2)] demo_aead_ok sign enc
    by (auto simp: demo_peer_def)
qed

theorem handshake_wrapper_keys_public_witness:
  "\<exists>hello ack ctx_a' ctx_b' sa.
    koe_handshake_start (demo_api (\<lambda>_. replicate 32 5)) (demo_node 1) (Some (replicate 32 2)) (Some zero_packet) = (0, Some hello) \<and>
    koe_handshake_process (demo_api (\<lambda>_. replicate 32 6)) (Some hello) (Some zero_packet) 0 (demo_node 2) = (0, Some ack, 1, ctx_b') \<and>
    koe_handshake_process (demo_api (\<lambda>_. [])) (Some ack) (Some zero_packet) 0 (demo_node 1) = (0, Some zero_packet, 1, ctx_a') \<and>
    session_contents (cx_sessions ctx_a') (replicate 32 2) = Some sa \<and> eavesdropped demo_sodium ack (replicate 32 1) = Some sa"
proof -
  have free: "peer_free (cx_sessions (demo_node x)) pk" for x pk by (simp add: peer_free_def session_inv_init session_init_empty)
  show ?thesis
    using handshake_wrapper_keys_public [of demo_sodium "\<lparr>id_pk = replicate 32 1, id_sk = replicate 64 1\<rparr>" "demo_api (\<lambda>_. replicate 32 5)"
        "\<lparr>eph_pk = replicate 32 5, eph_sk = replicate 32 5\<rparr>" "\<lparr>id_pk = replicate 32 2, id_sk = replicate 64 2\<rparr>" "demo_api (\<lambda>_. replicate 32 6)"
        "\<lparr>eph_pk = replicate 32 6, eph_sk = replicate 32 6\<rparr>" "demo_api (\<lambda>_. [])" "demo_node 1" "demo_node 2" zero_packet]
      demo_side_ok [of 1 5] demo_side_ok [of 2 6] demo_dh(1) [of 5 6] demo_dh(2) free
    by auto
qed

end
