(* ===== verification/Spec2Isabelle.thy ===== *)
theory Spec2Isabelle
  imports Koe_Fragment Koe_Ring Koe_Store Koe_Backup Koe_Channel Koe_Revoke Koe_Core
begin

text \<open>
  A verification of the Koe messenger core, the C library under \<^verbatim>\<open>src/src\<close> with its headers under
  \<^verbatim>\<open>src/include\<close>. File names below are relative to these two directories.

  \<^bold>\<open>The program.\<close> An application owns one context (\<^verbatim>\<open>koe_core.c\<close>). It activates an account, whose
  identity is an Ed25519 key pair kept in an encrypted file, agrees on session keys with a peer by
  a two-message handshake, keeps them in the session table, turns messages into encrypted packets
  and hands these to the offline queue (rows of a database) or to a transport. What arrives becomes
  an event in a ring that a poll delivers to plugins and listeners. Presence, file transfer,
  channels, calls, backups, key revocation and the Matrix client stand beside this path and use the
  same packets and keys.

  \<^bold>\<open>Theories and sources.\<close> Every theory has the data types, then one definition per C function
  under its C name (static helpers included), then the lemmas.
  \<^item> \<open>Koe_Prelude\<close>: words, buffers, byte order, C strings, and the integer codecs
    (the locale \<open>fixed_codec\<close>).
  \<^item> \<open>Koe_Crc32\<close>, \<open>Koe_Packet\<close>, \<open>Koe_Fragment\<close>: \<^verbatim>\<open>koe_packet.c\<close>. The table-driven CRC is the
    bit-at-a-time one; parsing is total and exact; serialising and parsing are inverse (the locale
    \<open>wire_codec\<close>); corrupted headers are detected; fragments reassemble in any order.
  \<^item> \<open>Koe_Version\<close>: \<^verbatim>\<open>koe_version.c\<close>. Versions are a linear order and negotiation is the minimum.
  \<^item> \<open>Koe_Crypto\<close>, \<open>Koe_Handshake\<close>, \<open>Koe_Session\<close>: \<^verbatim>\<open>koe_crypto.c\<close>, \<^verbatim>\<open>koe_handshake.c\<close>,
    \<^verbatim>\<open>koe_session.c\<close>. Both ends of a handshake get matching keys; a responder accepts only signed
    greetings; the session table is a map from peers to sessions (\<open>peer_table\<close>) whose free slots
    hold no key.
  \<^item> \<open>Koe_Message\<close>, \<open>Koe_Sealed\<close>: \<^verbatim>\<open>koe_message.c\<close> and the packet set-up that several files repeat.
    What is encrypted at one end of a session is decrypted at the other.
  \<^item> \<open>Koe_Db\<close>, \<open>Koe_Queue\<close>, \<open>Koe_Store\<close>: \<^verbatim>\<open>koe_db.c\<close>, \<^verbatim>\<open>koe_queue.c\<close>, \<^verbatim>\<open>koe_store.c\<close>. Row ids and
    keys stay distinct even when statements fail; the queue keeps its depth bound, returns what was
    pushed, least sequence number first (\<open>least_queue\<close>), and a drain terminates when deletions work.
  \<^item> \<open>Koe_Event\<close>, \<open>Koe_Plugin\<close>: \<^verbatim>\<open>koe_event.c\<close>, \<^verbatim>\<open>koe_plugin.c\<close>. The ring is a bounded queue that drops
    its oldest entry (\<open>dropping_fifo\<close>); a poll delivers in order; dispatch is safe for loaded plugins.
  \<^item> \<open>Koe_Ring\<close>: the counters of \<^verbatim>\<open>koe_event.c\<close> under interleaving. With one posting and one polling
    thread the ring is a queue in every interleaving in which it does not fill up; when it does, an
    event can be delivered early and twice.
  \<^item> \<open>Koe_Transport\<close>: \<^verbatim>\<open>koe_transport.c\<close>. Both framings deliver packets unchanged however the kernel
    splits the data (\<open>packet_stream\<close>), and no descriptor leaks.
  \<^item> \<open>Koe_Presence\<close>, \<open>Koe_Media\<close>, \<open>Koe_Channel\<close>, \<open>Koe_Audio\<close>, \<open>Koe_Revoke\<close>, \<open>Koe_Ghost\<close>,
    \<open>Koe_Matrix\<close>: the C files of the same names.
  \<^item> \<open>Koe_Identity\<close>, \<open>Koe_Account\<close>, \<open>Koe_Backup\<close>: the C files of the same names. Files read back as
    written; contacts and subscribers are tables without duplicates (\<open>unique_table\<close>).
  \<^item> \<open>Koe_Core\<close>: \<^verbatim>\<open>koe_core.c\<close>, the composition. The state outside the context is the record \<open>world\<close>;
    \<open>core_step\<close> is the relation of the calls an application can make and \<open>core_ok\<close> the invariant
    they keep. This theory adds a run over two contexts, a handshake and a connection.

  \<^bold>\<open>Conventions.\<close> Return codes are the code's integers. Undefined behaviour (use of freed memory,
  a NULL dereference, a read past a buffer) and a loop that does not return are \<open>None\<close>. The clock,
  random bytes, failing allocations and the results of system calls are arguments. libsodium,
  SQLite, Opus, libcurl and mruby are parameters; what is assumed of them is stated by predicates
  (\<open>aead_ok\<close>, \<open>sign_ok\<close>, \<open>dh_ok\<close>, \<open>hash_ok\<close>, \<open>env_ok\<close>, \<open>opus_ok\<close>), and the witnesses instantiate them
  with concrete functions. The toy instance \<open>demo_sodium\<close> has the algebraic laws only.

  \<^bold>\<open>Bounds and fuel.\<close> The loops that may run for ever (\<open>drain_loop\<close> of the queue, the poll loop of
  the events) are partial functions, with theorems on when they return and when not. The recursion
  of the backup into directories has fuel 512, which \<open>archive_dir_entries\<close> shows to be enough because
  paths are cut at 512 bytes. All other recursions are structural or have termination proofs. The
  32-bit sum of the serialiser, the 8-bit fragment counters and the 32-bit ring counters wrap as in
  the code.

  \<^bold>\<open>Deviations shown.\<close> Some theorems state what the code does where that is not what it means to do:
  the handshake wrapper of the core stores sessions whose keys are public, a change of account leaves
  the queue on a closed connection, the size sum of the serialiser wraps, an initiator accepts any
  identity, and the importer of backups reads past its buffer.

  \<^bold>\<open>Not modelled.\<close> \<^verbatim>\<open>koe_ffi.h\<close> and \<open>koe_matrix_room_info\<close> are declared but defined nowhere. The
  timer pumps of the event loop have empty bodies. \<open>koe_memzero\<close> on dying stack buffers,
  \<open>koe_cache_close\<close> (which only frees memory), \<open>koe_nonce_generate\<close> (random bytes are arguments) and
  the socket options of \<open>set_nonblock\<close> and \<open>set_reuseaddr\<close> have no effect on the modelled
  state. The accesses to the ring are interleaved but sequentially consistent: the weaker memory
  orders of the atomics, several posting threads and torn copies of an event are left out. The rest
  of the library is documented as driven by a single thread. The builds without
  libcurl and without mruby, the examples and the tests are left out.
\<close>

section \<open>From a handshake to a delivered message\<close>

text \<open>A session given to \<open>koe_session_establish\<close> is the one later lookups find.\<close>

lemma establish_ok:
  assumes "cx_initialised ctx \<noteq> 0" and "peer_free (cx_sessions ctx) pk"
  obtains ctx' where "koe_session_establish env (Some pk) (Some s) ctx = (0, ctx')" and "cx_initialised ctx' \<noteq> 0"
    and "ac_keys (cx_active_account ctx') = ac_keys (cx_active_account ctx)"
    and "\<And>now. fst (koe_session_table_find now pk (cx_sessions ctx')) = Some s"
proof -
  obtain rc tbl where add: "koe_session_table_add (ce_now env 0) (ce_now env 1) pk s (cx_sessions ctx) = (rc, tbl)" by fastforce
  have "rc = 0 \<and> session_inv tbl \<and> session_contents tbl pk = Some s"
    using session_add_spec [of "cx_sessions ctx" pk "ce_now env 0" "ce_now env 1" s] assms(2) add by (simp add: peer_free_def)
  moreover from this have "fst (koe_session_table_find now pk tbl) = Some s" for now using session_find_spec [of tbl now pk] by simp
  ultimately show ?thesis using that [of "ctx\<lparr>cx_sessions := tbl\<rparr>"] assms(1) add by (simp add: koe_session_establish_def)
qed

text \<open>One packet over a link without failing system calls.\<close>

lemma one_packet_over_link:
  assumes "link_ok nt" and "\<forall>i. mal i" and "0 \<le> pe_fd peer" and "wire_packet p" and "sk_out a = []"
  shows "\<exists>a' b'. koe_transport_send nt mal junk peer p a = Some (0, a') \<and>
    koe_transport_recv nt mal peer q \<lparr>sk_in = sk_out a', sk_out = [], sk_ops = 0\<rparr> = (0, p, b')"
proof -
  have ok: "sendable nt mal p" using assms(1,2,4) by (simp add: sendable_def)
  show ?thesis
    using transport_send_frame [OF ok assms(3), of junk a]
      transport_recv_frame [OF ok assms(3), of "\<lparr>sk_in = tcp_frame p, sk_out = [], sk_ops = 0\<rparr>" "[]" q] assms(5) by auto
qed

text \<open>C4. Two honest peers can talk: after the three steps of a handshake, with the sessions it gives
  established in both contexts, a message encrypted by one crosses the connection unchanged and
  decrypts at the other to exactly the body that was sent, from the sender's key.\<close>

theorem end_to_end:
  assumes "side_ok sd alice seed_a eph_a" and "side_ok sd bob seed_b eph_b" and "mal 0"
    and "dh_ok sd (eph_sk eph_a, eph_pk eph_a) (eph_sk eph_b, eph_pk eph_b)"
    and "so_scalarmult sd (eph_sk eph_a) (eph_pk eph_b) \<noteq> None" and "hash_ok sd" and "aead_ok sd"
    and "ce_sd ea = sd" and "\<forall>i j. ce_mal ea i j" and "length (ce_rand ea 0) = 24" and "ce_sd eb = sd" and "ce_mal eb 0 0"
    and "cx_initialised ctx_a \<noteq> 0" and "ac_keys (cx_active_account ctx_a) = alice" and "peer_free (cx_sessions ctx_a) (id_pk bob)"
    and "cx_initialised ctx_b \<noteq> 0" and "peer_free (cx_sessions ctx_b) (id_pk alice)"
    and "body \<noteq> []" and "length body + 16 \<le> KOE_MAX_PAYLOAD" and "\<forall>nonce key. koe_encrypt sd body nonce key \<noteq> None"
    and "link_ok nt" and "\<forall>i. mal_net i" and "0 \<le> pe_fd peer" and "sk_out sock_a = []"
  shows "\<exists>hs_a hello hs_b ack hs_a' ctx_a1 ctx_b1 pkt ctx_a2 w' sock_a' sock_b msg' ctx_b2.
    koe_handshake_init sd mal seed_a out_a alice (id_pk bob) = (0, hs_a, hello) \<and>
    koe_handshake_respond sd mal seed_b out_b hello bob = (0, hs_b, ack) \<and>
    koe_handshake_finalise sd hs_a ack alice = (0, hs_a') \<and>
    koe_session_establish ea (Some (id_pk bob)) (Some (hs_session hs_a')) ctx_a = (0, ctx_a1) \<and>
    koe_session_establish eb (Some (id_pk alice)) (Some (hs_session hs_b)) ctx_b = (0, ctx_b1) \<and>
    koe_message_send_encrypted ea ctx_a1 (Some (id_pk bob)) (Some body) (length body) (Some out) w = (0, Some pkt, ctx_a2, w') \<and>
    koe_transport_send nt mal_net junk peer pkt sock_a = Some (0, sock_a') \<and>
    koe_transport_recv nt mal_net peer q \<lparr>sk_in = sk_out sock_a', sk_out = [], sk_ops = 0\<rparr> = (0, pkt, sock_b) \<and>
    koe_message_recv_and_decrypt eb ctx_b1 (Some pkt) (Some msg0) = Some (0, Some msg', ctx_b2) \<and>
    body_bytes msg' = body \<and> m_from msg' = id_pk alice"
proof -
  obtain hs_a hello hs_b ack hs_a' where hs: "koe_handshake_init sd mal seed_a out_a alice (id_pk bob) = (0, hs_a, hello)"
      "koe_handshake_respond sd mal seed_b out_b hello bob = (0, hs_b, ack)" "koe_handshake_finalise sd hs_a ack alice = (0, hs_a')"
    and keys: "tx_key (hs_session hs_a') = rx_key (hs_session hs_b)"
    by (rule handshake_run [where mal = mal, OF assms(1-6), of out_a "id_pk bob" out_b])
  have ids: "sign_ok sd (id_pk alice) (id_sk alice)" "length (id_pk alice) = 32" "length (id_pk bob) = 32"
    using assms(1,2) by (simp_all add: side_ok_def wf_identity_def)
  obtain ctx_a1 where a1: "koe_session_establish ea (Some (id_pk bob)) (Some (hs_session hs_a')) ctx_a = (0, ctx_a1)" "cx_initialised ctx_a1 \<noteq> 0"
      "ac_keys (cx_active_account ctx_a1) = alice" "\<And>now. fst (koe_session_table_find now (id_pk bob) (cx_sessions ctx_a1)) = Some (hs_session hs_a')"
    using establish_ok [OF assms(13,15), of ea "hs_session hs_a'"] assms(14) by metis
  obtain ctx_b1 where b1: "koe_session_establish eb (Some (id_pk alice)) (Some (hs_session hs_b)) ctx_b = (0, ctx_b1)" "cx_initialised ctx_b1 \<noteq> 0"
      "\<And>now. fst (koe_session_table_find now (id_pk alice) (cx_sessions ctx_b1)) = Some (hs_session hs_b)"
    using establish_ok [OF assms(16,17), of eb "hs_session hs_b"] by metis
  have enc_ok: "koe_encrypt (ce_sd ea) body (ce_rand ea 0) (tx_key (hs_session hs_a')) \<noteq> None" using assms(8,20) by simp
  obtain m pkt ctx_a2 w' where sent: "koe_message_send_encrypted ea ctx_a1 (Some (id_pk bob)) (Some body) (length body) (Some out) w = (0, Some pkt, ctx_a2, w')"
    and enc: "koe_message_encrypt (ce_sd ea) (ce_mal ea 1) (ce_rand ea 0) m (hs_session hs_a') = (0, pkt)"
    and pkt: "wire_packet pkt" "h_from (header pkt) = id_pk alice"
    and m: "wf_message m" "body_bytes m = body" "m_body_len m = length body" "m_from m = id_pk alice"
    by (rule send_encrypted_ok [where env = ea and s = "hs_session hs_a'", OF _ assms(9,10) a1(2,3) _ ids(2,3) a1(4) assms(18,19) enc_ok])
      (use assms(7,8) ids(1) in simp_all)
  obtain sock_a' sock_b where net: "koe_transport_send nt mal_net junk peer pkt sock_a = Some (0, sock_a')"
      "koe_transport_recv nt mal_net peer q \<lparr>sk_in = sk_out sock_a', sk_out = [], sk_ops = 0\<rparr> = (0, pkt, sock_b)"
    using one_packet_over_link [where mal = mal_net, OF assms(21-23) pkt(1) assms(24)] by blast
  have "koe_message_decrypt sd (ce_mal eb 0) (ce_now eb 1) msg0 pkt (hs_session hs_b) = Some (0, msg0\<lparr>m_body := Some (body_bytes m),
      m_body_len := m_body_len m, m_from := m_from m, m_to := m_to m, m_status := KOE_STATUS_DELIVERED, m_delivered_at := ce_now eb 1\<rparr>)"
    using koe_message_decrypt_encrypt [where mal' = "ce_mal eb 0", OF assms(7) m(1) _ _ keys assms(12)] enc assms(8,19) m(3) by simp
  then obtain msg' ctx_b2 where "koe_message_recv_and_decrypt eb ctx_b1 (Some pkt) (Some msg0) = Some (0, Some msg', ctx_b2)"
    "body_bytes msg' = body" "m_from msg' = id_pk alice"
    using recv_and_decrypt_ok [OF b1(2), of eb pkt "hs_session hs_b" msg0 0] assms(11) b1(3) pkt(2) m by (auto simp: body_bytes_def)
  with hs a1(1) b1(1) sent net show ?thesis by blast
qed

theorem end_to_end_witness:
  "\<exists>hs_a hello hs_b ack hs_a' ctx_a1 ctx_b1 pkt ctx_a2 w' msg' ctx_b2.
    koe_handshake_init demo_sodium (\<lambda>_. True) (replicate 32 5) zero_packet
      \<lparr>id_pk = replicate 32 1, id_sk = replicate 64 1\<rparr> (replicate 32 2) = (0, hs_a, hello) \<and>
    koe_handshake_respond demo_sodium (\<lambda>_. True) (replicate 32 6) zero_packet hello
      \<lparr>id_pk = replicate 32 2, id_sk = replicate 64 2\<rparr> = (0, hs_b, ack) \<and>
    koe_handshake_finalise demo_sodium hs_a ack \<lparr>id_pk = replicate 32 1, id_sk = replicate 64 1\<rparr> = (0, hs_a') \<and>
    koe_session_establish (demo_api (\<lambda>_. replicate 24 3)) (Some (replicate 32 2)) (Some (hs_session hs_a')) (demo_node 1) = (0, ctx_a1) \<and>
    koe_session_establish (demo_api (\<lambda>_. [])) (Some (replicate 32 1)) (Some (hs_session hs_b)) (demo_node 2) = (0, ctx_b1) \<and>
    koe_message_send_encrypted (demo_api (\<lambda>_. replicate 24 3)) ctx_a1 (Some (replicate 32 2)) (Some [7, 8, 9]) (length [7, 8, 9 :: byte]) (Some zero_packet)
      (demo_world Map.empty) = (0, Some pkt, ctx_a2, w') \<and>
    koe_message_recv_and_decrypt (demo_api (\<lambda>_. [])) ctx_b1 (Some pkt) (Some (sample_message [])) = Some (0, Some msg', ctx_b2) \<and>
    body_bytes msg' = [7, 8, 9]"
proof -
  have free: "peer_free (cx_sessions (demo_node x)) pk" for x pk by (simp add: peer_free_def session_inv_init session_init_empty)
  have enc: "\<forall>nonce key. koe_encrypt demo_sodium [7, 8, 9] nonce key \<noteq> None" by (simp add: koe_encrypt_def demo_sodium_def)
  have link: "link_ok \<lparr>nt_recv = \<lambda>_. 1, nt_send = \<lambda>_. 3\<rparr>" by (simp add: link_ok_def)
  show ?thesis
    using end_to_end [of demo_sodium "\<lparr>id_pk = replicate 32 1, id_sk = replicate 64 1\<rparr>" "replicate 32 5"
        "\<lparr>eph_pk = replicate 32 5, eph_sk = replicate 32 5\<rparr>" "\<lparr>id_pk = replicate 32 2, id_sk = replicate 64 2\<rparr>" "replicate 32 6"
        "\<lparr>eph_pk = replicate 32 6, eph_sk = replicate 32 6\<rparr>" "\<lambda>_. True" "demo_api (\<lambda>_. replicate 24 3)" "demo_api (\<lambda>_. [])" "demo_node 1" "demo_node 2"
        "[7, 8, 9]" "\<lparr>nt_recv = \<lambda>_. 1, nt_send = \<lambda>_. 3\<rparr>" "\<lambda>_. True" "zero_peer\<lparr>pe_fd := 5\<rparr>" "\<lparr>sk_in = [], sk_out = [], sk_ops = 0\<rparr>"
        zero_packet zero_packet zero_packet "demo_world Map.empty" "\<lambda>_. 0" zero_packet "sample_message []",
        OF demo_side_ok demo_side_ok _ _ demo_dh(2) demo_hash_ok demo_aead_ok] demo_dh(1) [of 5 6] free enc link
    by auto
qed

end
